(* ===== verification/Go_Prelude.thy ===== *)
theory Go_Prelude
  imports Main "HOL-Library.Word" "HOL-Library.State_Monad" "HOL-Library.AList"
begin

text \<open>
  The part of Go and of its standard library that the models share, and the generic lemmas of the
  development: panics, nilable string maps, decimal printing, ASCII case mapping, signed machine
  integers, and transcripts of calls to services outside the program.

  A function of the source that calls a service (the Kubernetes API server, Redis, a work queue)
  is a state transformer over the transcript of the calls made so far. The service is an argument:
  a function from the transcript to the reply. Such a function can be any adversary whose replies
  depend on everything it has seen, so a theorem for all services covers failures, stale reads and
  other clients that interfere between two calls.

  Collections: \<open>exec_simps\<close> rewrites the symbolic execution of a model,
  \<open>kube_laws\<close> holds the facts on library parameters, \<open>emits_intros\<close> the rules that decompose
  a statement on what a run adds to the transcript.
\<close>

named_theorems exec_simps
named_theorems kube_laws
named_theorems emits_intros

section \<open>Definitions\<close>

subsection \<open>Panics\<close>

abbreviation return :: "'a \<Rightarrow> ('w, 'a) state" where
  "return \<equiv> State_Monad.return"

datatype panic = IndexOutOfRange | NilDereference | DivideByZero | TypeAssertion | PanicErr string

datatype 'a outcome = Ret 'a | Panic panic

definition obind :: "('w, 'a outcome) state \<Rightarrow> ('a \<Rightarrow> ('w, 'b outcome) state) \<Rightarrow> ('w, 'b outcome) state" where
  "obind m f = State_Monad.bind m (\<lambda>r. case r of Ret a \<Rightarrow> f a | Panic p \<Rightarrow> State_Monad.return (Panic p))"

text \<open>Reading a slice at a signed index panics outside its bounds.\<close>

definition slice_at :: "'a list \<Rightarrow> int \<Rightarrow> 'a outcome" where
  "slice_at xs i = (if 0 \<le> i \<and> i < int (length xs) then Ret (xs ! nat i) else Panic IndexOutOfRange)"

subsection \<open>Calls to a service and their transcript\<close>

definition perform :: "('c list \<Rightarrow> 'r) \<Rightarrow> ('r \<Rightarrow> 'c) \<Rightarrow> ('c list, 'r) state" where
  "perform reply log = State (\<lambda>h. let r = reply h in (r, h @ [log r]))"

definition note_call :: "'c \<Rightarrow> ('c list, unit) state" where
  "note_call c = perform (\<lambda>_. ()) (\<lambda>_. c)"

text \<open>
  \<open>new_calls h h'\<close> is what a run that took the transcript from \<open>h\<close> to \<open>h'\<close> added;
  \<open>drive run qs h\<close> is the transcript after a controller has handled the requests \<open>qs\<close> in turn.
\<close>

definition new_calls :: "'c list \<Rightarrow> 'c list \<Rightarrow> 'c list" where
  "new_calls h h' = drop (length h) h'"

text \<open>
  \<open>emits m Q\<close>: from every transcript, a run of \<open>m\<close> only appends to it, and the result and the
  appended calls satisfy \<open>Q\<close>.
\<close>

definition emits :: "('c list, 'r) state \<Rightarrow> ('r \<Rightarrow> 'c list \<Rightarrow> bool) \<Rightarrow> bool" where
  "emits m Q \<longleftrightarrow> (\<forall>h. \<exists>seg. snd (run_state m h) = h @ seg \<and> Q (fst (run_state m h)) seg)"

fun drive :: "('q \<Rightarrow> ('c list, 'r) state) \<Rightarrow> 'q list \<Rightarrow> 'c list \<Rightarrow> 'c list" where
  "drive run [] h = h"
| "drive run (q # qs) h = drive run qs (snd (run_state (run q) h))"

subsection \<open>String maps\<close>

text \<open>
  A \<open>map[string]string\<close> is an association list, a nil map is \<open>None\<close>. Reading a missing key, or
  any key of a nil map, gives the empty string. The order of the list is the order in which
  \<open>range\<close> visits the entries; Go leaves that order open, so a model that ranges over a map is
  stated for every list of entries.
\<close>

type_synonym entries = "(string \<times> string) list"
type_synonym strmap = "entries option"

definition entries_of :: "strmap \<Rightarrow> entries" where
  "entries_of m = (case m of None \<Rightarrow> [] | Some es \<Rightarrow> es)"

definition mget :: "strmap \<Rightarrow> string \<Rightarrow> string" where
  "mget m k = (case map_of (entries_of m) k of None \<Rightarrow> '''' | Some v \<Rightarrow> v)"

definition has_key :: "strmap \<Rightarrow> string \<Rightarrow> bool" where
  "has_key m k \<longleftrightarrow> map_of (entries_of m) k \<noteq> None"

subsection \<open>Strings\<close>

definition lower_char :: "char \<Rightarrow> char" where
  "lower_char c = (let n = of_char c :: nat in if 65 \<le> n \<and> n \<le> 90 then char_of (n + 32) else c)"

definition upper_char :: "char \<Rightarrow> char" where
  "upper_char c = (let n = of_char c :: nat in if 97 \<le> n \<and> n \<le> 122 then char_of (n - 32) else c)"

text \<open>\<open>strings.ToLower\<close> and \<open>strings.ToUpper\<close> on ASCII text, where they act on each byte.\<close>

definition ToLower :: "string \<Rightarrow> string" where
  "ToLower s = map lower_char s"

definition ToUpper :: "string \<Rightarrow> string" where
  "ToUpper s = map upper_char s"

definition HasPrefix :: "string \<Rightarrow> string \<Rightarrow> bool" where
  "HasPrefix s p \<longleftrightarrow> take (length p) s = p"

definition digit_char :: "nat \<Rightarrow> char" where
  "digit_char n = char_of (48 + n)"

fun show_nat :: "nat \<Rightarrow> string" where
  "show_nat n = (if n < 10 then [digit_char n] else show_nat (n div 10) @ [digit_char (n mod 10)])"

declare show_nat.simps [simp del]

text \<open>The verb \<open>%d\<close> on a signed integer.\<close>

definition show_int :: "int \<Rightarrow> string" where
  "show_int i = (if i < 0 then CHR ''-'' # show_nat (nat (- i)) else show_nat (nat i))"

text \<open>
  The verb \<open>%q\<close> on a string, byte by byte. \<open>wide\<close> is what it makes of a run of bytes beyond ASCII, which depends on the
  Unicode tables.
\<close>

definition hex_digit :: "nat \<Rightarrow> char" where
  "hex_digit d = char_of (if d < 10 then 48 + d else 87 + d)"

definition quote_char :: "char \<Rightarrow> string" where
  "quote_char c =
     (let n = of_char c :: nat; backslash = CHR 0x5C in
      if n = 0x22 \<or> n = 0x5C then [backslash, c]
      else if 0x20 \<le> n \<and> n < 0x7F then [c]
      else if n = 7 then [backslash, CHR ''a''] else if n = 8 then [backslash, CHR ''b'']
      else if n = 9 then [backslash, CHR ''t''] else if n = 10 then [backslash, CHR ''n'']
      else if n = 11 then [backslash, CHR ''v''] else if n = 12 then [backslash, CHR ''f'']
      else if n = 13 then [backslash, CHR ''r'']
      else [backslash, CHR ''x'', hex_digit (n div 16), hex_digit (n mod 16)])"

definition is_wide :: "char \<Rightarrow> bool" where
  "is_wide c \<longleftrightarrow> 128 \<le> (of_char c :: nat)"

function quote_bytes :: "(string \<Rightarrow> string) \<Rightarrow> string \<Rightarrow> string" where
  "quote_bytes wide [] = []"
| "quote_bytes wide (c # cs) =
     (if is_wide c then wide (takeWhile is_wide (c # cs)) @ quote_bytes wide (dropWhile is_wide (c # cs))
      else quote_char c @ quote_bytes wide cs)"
  by pat_completeness auto
termination by (relation "measure (length \<circ> snd)") (auto simp: le_imp_less_Suc length_dropWhile_le)

definition go_quote :: "(string \<Rightarrow> string) \<Rightarrow> string \<Rightarrow> string" where
  "go_quote wide s = CHR 0x22 # quote_bytes wide s @ [CHR 0x22]"

subsection \<open>Machine integers\<close>

type_synonym int32 = "32 word"
type_synonym int64 = "64 word"

text \<open>A \<open>time.Duration\<close> counts nanoseconds in an \<open>int64\<close>.\<close>

type_synonym duration = int64

definition Second :: duration where
  "Second = 1000000000"

definition Minute :: duration where
  "Minute = 60 * Second"

text \<open>Division of signed integers truncates towards zero.\<close>

definition trunc_quot :: "int \<Rightarrow> int \<Rightarrow> int" where
  "trunc_quot a b = sgn a * sgn b * (\<bar>a\<bar> div \<bar>b\<bar>)"

definition go_div :: "int64 \<Rightarrow> int64 \<Rightarrow> int64 outcome" where
  "go_div a b = (if b = 0 then Panic DivideByZero else Ret (word_of_int (trunc_quot (sint a) (sint b))))"

subsection \<open>Contracts shared by several components\<close>

text \<open>
  A reconciler: every run only appends to the transcript, and what it appends satisfies the
  reconciler's per-run contract \<open>ok\<close>.
\<close>

locale reconciler =
  fixes run :: "'q \<Rightarrow> ('c list, 'r) state"
    and ok :: "'q \<Rightarrow> 'c list \<Rightarrow> bool"
  assumes run_emits: "emits (run q) (\<lambda>r seg. ok q seg)"
begin

lemma run_appends: "\<exists>seg. snd (run_state (run q) h) = h @ seg \<and> ok q seg"
  using run_emits [of q] by (auto simp: emits_def)

lemma drive_segments:
  "\<exists>segs. drive run qs h = h @ concat segs \<and> list_all2 ok qs segs"
proof (induction qs arbitrary: h)
  case Nil
  show ?case by (rule exI [of _ "[]"]) simp
next
  case (Cons q qs)
  obtain seg where seg: "snd (run_state (run q) h) = h @ seg" "ok q seg"
    using run_appends by blast
  obtain segs where "drive run qs (h @ seg) = (h @ seg) @ concat segs" "list_all2 ok qs segs"
    using Cons.IH by blast
  with seg show ?case by (intro exI [of _ "seg # segs"]) simp
qed

lemma drive_extends: "take (length h) (drive run qs h) = h"
  using drive_segments [of qs h] by auto

lemma drive_call:
  assumes "c \<in> set (drive run qs h)"
  shows "c \<in> set h \<or>
    (\<exists>q\<in>set qs. \<exists>seg. ok q seg \<and> c \<in> set seg \<and> set seg \<subseteq> set (drive run qs h))"
proof -
  obtain segs where eq: "drive run qs h = h @ concat segs" and all: "list_all2 ok qs segs"
    using drive_segments by blast
  show ?thesis
  proof (cases "c \<in> set h")
    case False
    with assms eq obtain seg where seg: "seg \<in> set segs" "c \<in> set seg" by auto
    then obtain n where n: "n < length segs" "seg = segs ! n" by (metis in_set_conv_nth)
    with all have "ok (qs ! n) seg" "qs ! n \<in> set qs"
      by (auto simp: list_all2_conv_all_nth)
    moreover have "set seg \<subseteq> set (drive run qs h)" using eq seg by auto
    ultimately show ?thesis using seg by blast
  qed simp
qed

end

text \<open>A defaulter fills absent fields once: applying it again changes nothing.\<close>

locale defaulter =
  fixes dflt :: "'a \<Rightarrow> 'a"
    and complete :: "'a \<Rightarrow> bool"
  assumes dflt_complete: "complete (dflt x)"
    and complete_fixed: "complete x \<Longrightarrow> dflt x = x"
begin

lemma dflt_idem: "dflt (dflt x) = dflt x"
  by (rule complete_fixed) (rule dflt_complete)

lemma dflt_fixed_iff: "dflt x = x \<longleftrightarrow> complete x"
  by (metis dflt_complete complete_fixed)

lemma dflt_pow: "0 < n \<Longrightarrow> (dflt ^^ n) x = dflt x"
proof (induction n)
  case (Suc n)
  then show ?case by (cases n) (simp_all add: dflt_idem)
qed simp

lemma dflt_list_idem: "map dflt (map dflt xs) = map dflt xs"
  by (simp add: dflt_idem)

end

section \<open>Lemmas\<close>

subsection \<open>Symbolic execution\<close>

text \<open>Plain characters are quoted as they are.\<close>

definition plain_char :: "char \<Rightarrow> bool" where
  "plain_char c = (let n = of_char c :: nat in 0x20 \<le> n \<and> n < 0x7F \<and> n \<noteq> 0x22 \<and> n \<noteq> 0x5C)"

lemma quote_plain: "list_all plain_char s \<Longrightarrow> go_quote wide s = CHR 0x22 # s @ [CHR 0x22]"
proof -
  have "quote_bytes wide s = s" if "list_all plain_char s"
    using that by (induction s) (auto simp: plain_char_def quote_char_def is_wide_def Let_def)
  then show "list_all plain_char s \<Longrightarrow> go_quote wide s = CHR 0x22 # s @ [CHR 0x22]" by (simp add: go_quote_def)
qed

lemma run_perform [simp, exec_simps]: "run_state (perform f g) h = (f h, h @ [g (f h)])"
  by (simp add: perform_def Let_def)

lemma run_note_call [simp, exec_simps]: "run_state (note_call c) h = ((), h @ [c])"
  by (simp add: note_call_def)

lemma run_obind [simp, exec_simps]:
  "run_state (obind m f) h =
     (case run_state m h of
        (Ret a, h') \<Rightarrow> run_state (f a) h'
      | (Panic p, h') \<Rightarrow> (Panic p, h'))"
  by (auto simp: obind_def split: prod.splits outcome.splits)

subsection \<open>What a run appends\<close>

lemma snoc_eq_mid:
  "h @ [c] = pre @ x # post \<longleftrightarrow> (pre = h \<and> x = c \<and> post = []) \<or> (\<exists>q. post = q @ [c] \<and> h = pre @ x # q)"
  by (cases post rule: rev_cases) auto

lemma emitsD:
  "emits m Q \<Longrightarrow> run_state m h = (r, h') \<Longrightarrow> \<exists>seg. h' = h @ seg \<and> Q r seg"
  unfolding emits_def by (metis fst_conv snd_conv)

lemma emits_mono: "emits m Q \<Longrightarrow> (\<And>r seg. Q r seg \<Longrightarrow> Q' r seg) \<Longrightarrow> emits m Q'"
  unfolding emits_def by blast

lemma emits_conj: "emits m Q \<Longrightarrow> emits m Q' \<Longrightarrow> emits m (\<lambda>r seg. Q r seg \<and> Q' r seg)"
  unfolding emits_def by (metis same_append_eq)

lemma emits_return_iff [simp]: "emits (return a) Q \<longleftrightarrow> Q a []"
  by (simp add: emits_def)

lemma emits_return [emits_intros]: "Q a [] \<Longrightarrow> emits (return a) Q"
  by simp

lemma emits_perform [emits_intros]: "(\<And>r. Q r [g r]) \<Longrightarrow> emits (perform f g) Q"
  by (simp add: emits_def)

lemma emits_note_call [emits_intros]: "Q () [c] \<Longrightarrow> emits (note_call c) Q"
  by (simp add: emits_def)

lemma emits_bind [emits_intros]:
  assumes "emits m (\<lambda>a s. emits (f a) (\<lambda>r t. Q r (s @ t)))"
  shows "emits (State_Monad.bind m f) Q"
  unfolding emits_def
proof
  fix h
  obtain a h1 where m: "run_state m h = (a, h1)" by fastforce
  obtain s where s: "h1 = h @ s" "emits (f a) (\<lambda>r t. Q r (s @ t))"
    using emitsD [OF assms m] by blast
  obtain r h2 where f: "run_state (f a) h1 = (r, h2)" by fastforce
  obtain t where "h2 = h1 @ t" "Q r (s @ t)" using emitsD [OF s(2) f] by blast
  with m s f show "\<exists>seg. snd (run_state (m \<bind> f) h) = h @ seg \<and> Q (fst (run_state (m \<bind> f) h)) seg"
    by (intro exI [of _ "s @ t"]) simp
qed

text \<open>When the first step is a call, its logged reply is the service's reply at that point.\<close>

lemma emits_first_call:
  assumes "\<And>r. emits (F r) (\<lambda>x t. Q r x t)"
  shows "\<exists>t. snd (run_state (State_Monad.bind (perform f g) F) h) = h @ g (f h) # t \<and>
    Q (f h) (fst (run_state (State_Monad.bind (perform f g) F) h)) t"
  using emitsD [OF assms, of "f h" "h @ [g (f h)]"]
  by (metis (no_types, lifting) append.assoc append_Cons append_Nil case_prod_conv prod.collapse
      run_perform run_state_bind)

lemma emits_obind [emits_intros]:
  assumes "emits m (\<lambda>x s. case x of Ret a \<Rightarrow> emits (f a) (\<lambda>r t. Q r (s @ t)) | Panic p \<Rightarrow> Q (Panic p) s)"
  shows "emits (obind m f) Q"
  unfolding obind_def
proof (rule emits_bind, rule emits_mono [OF assms])
  fix x s
  assume "case x of Ret a \<Rightarrow> emits (f a) (\<lambda>r t. Q r (s @ t)) | Panic p \<Rightarrow> Q (Panic p) s"
  then show "emits (case x of Ret a \<Rightarrow> f a | Panic p \<Rightarrow> return (Panic p)) (\<lambda>r t. Q r (s @ t))"
    by (cases x) (auto intro: emits_return)
qed

lemma emits_if [emits_intros]:
  "(b \<Longrightarrow> emits m Q) \<Longrightarrow> (\<not> b \<Longrightarrow> emits n Q) \<Longrightarrow> emits (if b then m else n) Q"
  by simp

lemma emits_case_option [emits_intros]:
  "(x = None \<Longrightarrow> emits m Q) \<Longrightarrow> (\<And>a. x = Some a \<Longrightarrow> emits (f a) Q) \<Longrightarrow>
   emits (case x of None \<Rightarrow> m | Some a \<Rightarrow> f a) Q"
  by (cases x) simp_all

lemma emits_case_sum [emits_intros]:
  "(\<And>a. x = Inl a \<Longrightarrow> emits (f a) Q) \<Longrightarrow> (\<And>b. x = Inr b \<Longrightarrow> emits (g b) Q) \<Longrightarrow>
   emits (case x of Inl a \<Rightarrow> f a | Inr b \<Rightarrow> g b) Q"
  by (cases x) simp_all

lemma emits_case_outcome [emits_intros]:
  "(\<And>a. x = Ret a \<Longrightarrow> emits (f a) Q) \<Longrightarrow> (\<And>p. x = Panic p \<Longrightarrow> emits (g p) Q) \<Longrightarrow>
   emits (case x of Ret a \<Rightarrow> f a | Panic p \<Rightarrow> g p) Q"
  by (cases x) simp_all

lemma new_calls_append [simp]: "new_calls h (h @ t) = t"
  by (simp add: new_calls_def)

lemma drive_append: "drive run (qs @ rs) h = drive run rs (drive run qs h)"
  by (induction qs arbitrary: h) auto

lemma split_before_last:
  "ys @ y # zs = xs @ [x] \<Longrightarrow> y \<notin> set xs \<Longrightarrow> zs = [] \<and> ys = xs \<and> y = x"
  by (cases zs rule: rev_cases) auto

lemma slice_at_Ret: "slice_at xs i = Ret x \<longleftrightarrow> 0 \<le> i \<and> i < int (length xs) \<and> x = xs ! nat i"
  by (auto simp: slice_at_def)

lemma slice_at_Nil [simp]: "slice_at [] i = Panic IndexOutOfRange"
  by (simp add: slice_at_def)

lemma slice_at_0_Cons [simp]: "slice_at (x # xs) 0 = Ret x"
  by (simp add: slice_at_def)

subsection \<open>Maps\<close>

lemma entries_of_simps [simp]: "entries_of None = []" "entries_of (Some es) = es"
  by (simp_all add: entries_of_def)

lemma mget_None [simp]: "mget None k = ''''"
  by (simp add: mget_def)

lemma has_key_None [simp]: "\<not> has_key None k"
  by (simp add: has_key_def)

lemma mget_Some: "mget (Some es) k = (case map_of es k of None \<Rightarrow> '''' | Some v \<Rightarrow> v)"
  by (simp add: mget_def)

lemma mget_nonempty_has_key: "mget m k \<noteq> '''' \<Longrightarrow> has_key m k"
  by (auto simp: mget_def has_key_def split: option.splits)

subsection \<open>Decimal printing\<close>

lemma of_char_digit: "n < 10 \<Longrightarrow> of_char (digit_char n) = 48 + n"
  by (simp add: digit_char_def)

lemma digit_char_inj: "m < 10 \<Longrightarrow> n < 10 \<Longrightarrow> digit_char m = digit_char n \<Longrightarrow> m = n"
  by (metis add_left_cancel of_char_digit)

lemma digit_char_not_minus: "n < 10 \<Longrightarrow> digit_char n \<noteq> CHR ''-''"
proof
  assume n: "n < 10" and eq: "digit_char n = CHR ''-''"
  have "of_char (CHR ''-'') = (45 :: nat)" by simp
  then have "48 + n = (45 :: nat)" unfolding eq [symmetric] of_char_digit [OF n] .
  then show False by simp
qed

lemma show_nat_nonempty: "show_nat n \<noteq> []"
  by (subst show_nat.simps) simp

lemma show_nat_length_pos: "0 < length (show_nat n)"
  by (simp add: show_nat_nonempty)

lemma show_nat_inj: "show_nat m = show_nat n \<Longrightarrow> m = n"
proof (induction m arbitrary: n rule: show_nat.induct)
  case (1 m)
  have m: "show_nat m = (if m < 10 then [digit_char m] else show_nat (m div 10) @ [digit_char (m mod 10)])"
    by (rule show_nat.simps)
  have n: "show_nat n = (if n < 10 then [digit_char n] else show_nat (n div 10) @ [digit_char (n mod 10)])"
    by (rule show_nat.simps)
  show ?case
  proof (cases "m < 10")
    case True
    with "1.prems" m n show ?thesis
      by (auto split: if_splits simp: show_nat_nonempty show_nat_nonempty [symmetric] intro: digit_char_inj)
  next
    case False
    with "1.prems" m n have "\<not> n < 10"
      and eq: "show_nat (m div 10) = show_nat (n div 10)" "digit_char (m mod 10) = digit_char (n mod 10)"
      by (auto split: if_splits simp: show_nat_nonempty append_eq_Cons_conv)
    from "1.IH" [OF False eq(1)] have "m div 10 = n div 10" .
    moreover from eq(2) have "m mod 10 = n mod 10" by (rule digit_char_inj [rotated 2]) simp_all
    ultimately show ?thesis by (metis div_mult_mod_eq)
  qed
qed

lemma show_nat_no_minus: "CHR ''-'' \<notin> set (show_nat n)"
proof (induction n rule: show_nat.induct)
  case (1 n)
  show ?case
  proof (cases "n < 10")
    case True
    then show ?thesis by (subst show_nat.simps) (simp, metis digit_char_not_minus)
  next
    case False
    with "1" have "CHR ''-'' \<notin> set (show_nat (n div 10))" by simp
    moreover have "CHR ''-'' \<noteq> digit_char (n mod 10)"
      using digit_char_not_minus [of "n mod 10"] by (metis mod_less_divisor zero_less_numeral)
    ultimately show ?thesis using False by (subst show_nat.simps) simp
  qed
qed

lemma show_int_inj: "show_int i = show_int j \<Longrightarrow> i = j"
proof -
  assume eq: "show_int i = show_int j"
  have "(i < 0) = (j < 0)"
    using eq show_nat_no_minus
    by (auto simp: show_int_def split: if_splits) (metis list.set_intros(1))+
  with eq show ?thesis
    by (auto simp: show_int_def split: if_splits dest!: show_nat_inj)
qed

subsection \<open>Signed arithmetic\<close>

lemma sint32_bounds: "- (2 ^ 31) \<le> sint (w :: int32)" "sint (w :: int32) < 2 ^ 31"
  using sint_ge [of w] sint_less [of w] by simp_all

lemma sint64_bounds: "- (2 ^ 63) \<le> sint (w :: int64)" "sint (w :: int64) < 2 ^ 63"
  using sint_ge [of w] sint_less [of w] by simp_all

lemma sint32_of_int: "- (2 ^ 31) \<le> i \<Longrightarrow> i < 2 ^ 31 \<Longrightarrow> sint (word_of_int i :: int32) = i"
  by (simp add: sint_sbintrunc' signed_take_bit_int_eq_self)

lemma sint64_of_int: "- (2 ^ 63) \<le> i \<Longrightarrow> i < 2 ^ 63 \<Longrightarrow> sint (word_of_int i :: int64) = i"
  by (simp add: sint_sbintrunc' signed_take_bit_int_eq_self)

lemma sint64_eq_0 [simp]: "sint (w :: int64) = 0 \<longleftrightarrow> w = 0"
  by (metis signed_0 signed_word_eqI)

lemma sint32_of_nat: "n < 2 ^ 31 \<Longrightarrow> sint (word_of_nat n :: int32) = int n"
  using sint32_of_int [of "int n"] by simp

lemma sint32_Suc: "sint (i :: int32) < sint (d :: int32) \<Longrightarrow> sint (i + 1) = sint i + 1"
proof -
  assume "sint i < sint d"
  with sint32_bounds [of i] sint32_bounds [of d] have "- (2 ^ 31) \<le> sint i + 1" "sint i + 1 < 2 ^ 31"
    by simp_all
  then have "sint (word_of_int (sint i + 1) :: int32) = sint i + 1" by (rule sint32_of_int)
  then show ?thesis by simp
qed

end
