(* ===== verification/Kube_Api.thy ===== *)
theory Kube_Api
  imports Go_Prelude
begin

text \<open>
  The Kubernetes API types the controllers use, cut down to the fields they read or write, and the
  interface of a controller to the API server and to the controller-runtime library. Neither is code
  of the repository: the server's replies and the library's functions are fields of the record
  \<open>kube_env\<close>, an argument of every controller model. What a theorem needs of them is a named
  hypothesis: \<open>finalizer_laws\<close> (the documented effect of the finalizer helpers) and
  \<open>pod_store\<close> (pods are kept under their namespace and name, a taken name is refused).
  \<open>mem_env\<close> is an in-memory server that satisfies both; witnesses run on it.
\<close>

section \<open>Definitions\<close>

subsection \<open>Errors\<close>

datatype status_reason = ReasonNotFound | ReasonAlreadyExists | ReasonConflict | ReasonOther

datatype go_error = StatusError status_reason string | PlainError string

fun Error :: "go_error \<Rightarrow> string" where
  "Error (StatusError r m) = m"
| "Error (PlainError m) = m"

fun IsNotFound :: "go_error \<Rightarrow> bool" where
  "IsNotFound (StatusError r m) = (r = ReasonNotFound)"
| "IsNotFound (PlainError m) = False"

definition IgnoreNotFound :: "go_error \<Rightarrow> go_error option" where
  "IgnoreNotFound e = (if IsNotFound e then None else Some e)"

subsection \<open>Objects\<close>

record OwnerReference =
  or_APIVersion :: string
  or_Kind :: string
  or_Name :: string
  or_UID :: string
  or_Controller :: bool

record GroupVersionKind =
  gvk_Group :: string
  gvk_Version :: string
  gvk_Kind :: string

record ObjectMeta =
  om_Name :: string
  om_GenerateName :: string
  om_Namespace :: string
  om_UID :: string
  om_Generation :: int64
  om_DeletionTimestamp :: "int option"
  om_Labels :: strmap
  om_Annotations :: strmap
  om_OwnerReferences :: "OwnerReference list"
  om_Finalizers :: "string list"

record Container =
  ct_Name :: string
  ct_Image :: string
  ct_Ports :: "int32 list"

record PodSpec =
  ps_Containers :: "Container list"
  ps_RestartPolicy :: string

record PodCond =
  pc_Type :: string
  pc_Status :: string

record PodStatus =
  pst_Phase :: string
  pst_Conditions :: "PodCond list"

record Pod =
  pod_meta :: ObjectMeta
  pod_spec :: PodSpec
  pod_status :: PodStatus

record NamespacedName =
  nn_Namespace :: string
  nn_Name :: string

record ctrl_result =
  Requeue :: bool
  RequeueAfter :: duration

definition Result0 :: ctrl_result where
  "Result0 = \<lparr>Requeue = False, RequeueAfter = 0\<rparr>"

text \<open>The zero value of \<open>metav1.ObjectMeta\<close>; \<open>IsZero\<close> on a nil or zero timestamp.\<close>

definition meta0 :: ObjectMeta where
  "meta0 = \<lparr>om_Name = '''', om_GenerateName = '''', om_Namespace = '''', om_UID = '''', om_Generation = 0,
     om_DeletionTimestamp = None, om_Labels = None, om_Annotations = None,
     om_OwnerReferences = [], om_Finalizers = []\<rparr>"

definition Time_IsZero :: "int option \<Rightarrow> bool" where
  "Time_IsZero t = (case t of None \<Rightarrow> True | Some v \<Rightarrow> v = 0)"

definition pod_key :: "Pod \<Rightarrow> string \<times> string" where
  "pod_key p = (om_Namespace (pod_meta p), om_Name (pod_meta p))"

text \<open>Which pods a list call with \<open>InNamespace\<close> and \<open>MatchingLabels\<close> asks for.\<close>

definition selects :: "string \<Rightarrow> entries \<Rightarrow> Pod \<Rightarrow> bool" where
  "selects ns sel p \<longleftrightarrow> om_Namespace (pod_meta p) = ns \<and>
     list_all (\<lambda>(k, v). map_of (entries_of (om_Labels (pod_meta p))) k = Some v) sel"

subsection \<open>The API server and the controller library as parameters\<close>

text \<open>Calls on a custom resource of type \<open>'o\<close> and on pods, each with the server's reply.\<close>

datatype 'o call =
    CGet NamespacedName "go_error + 'o"
  | CListPods string entries "go_error + Pod list"
  | CCreatePod Pod "go_error option"
  | CDeletePod Pod "go_error option"
  | CUpdate 'o "go_error option"
  | CStatusUpdate 'o "go_error option"
  | CEvent string string string

record 'o kube_env =
  ContainsFinalizer :: "ObjectMeta \<Rightarrow> string \<Rightarrow> bool"
  AddFinalizer :: "ObjectMeta \<Rightarrow> string \<Rightarrow> ObjectMeta"
  RemoveFinalizer :: "ObjectMeta \<Rightarrow> string \<Rightarrow> ObjectMeta"
  NewControllerRef :: "ObjectMeta \<Rightarrow> GroupVersionKind \<Rightarrow> OwnerReference"
  api_Get :: "'o call list \<Rightarrow> NamespacedName \<Rightarrow> go_error + 'o"
  api_ListPods :: "'o call list \<Rightarrow> string \<Rightarrow> entries \<Rightarrow> go_error + Pod list"
  api_CreatePod :: "'o call list \<Rightarrow> Pod \<Rightarrow> go_error option"
  api_DeletePod :: "'o call list \<Rightarrow> Pod \<Rightarrow> go_error option"
  api_Update :: "'o call list \<Rightarrow> 'o \<Rightarrow> go_error option"
  api_StatusUpdate :: "'o call list \<Rightarrow> 'o \<Rightarrow> go_error option"

type_synonym ('o, 'a) kube = "('o call list, 'a) state"

definition k_Get :: "'o kube_env \<Rightarrow> NamespacedName \<Rightarrow> ('o, go_error + 'o) kube" where
  "k_Get e k = perform (\<lambda>h. api_Get e h k) (CGet k)"

definition k_ListPods :: "'o kube_env \<Rightarrow> string \<Rightarrow> entries \<Rightarrow> ('o, go_error + Pod list) kube" where
  "k_ListPods e ns sel = perform (\<lambda>h. api_ListPods e h ns sel) (CListPods ns sel)"

definition k_CreatePod :: "'o kube_env \<Rightarrow> Pod \<Rightarrow> ('o, go_error option) kube" where
  "k_CreatePod e p = perform (\<lambda>h. api_CreatePod e h p) (CCreatePod p)"

definition k_DeletePod :: "'o kube_env \<Rightarrow> Pod \<Rightarrow> ('o, go_error option) kube" where
  "k_DeletePod e p = perform (\<lambda>h. api_DeletePod e h p) (CDeletePod p)"

definition k_Update :: "'o kube_env \<Rightarrow> 'o \<Rightarrow> ('o, go_error option) kube" where
  "k_Update e x = perform (\<lambda>h. api_Update e h x) (CUpdate x)"

definition k_StatusUpdate :: "'o kube_env \<Rightarrow> 'o \<Rightarrow> ('o, go_error option) kube" where
  "k_StatusUpdate e x = perform (\<lambda>h. api_StatusUpdate e h x) (CStatusUpdate x)"

definition k_Eventf :: "string \<Rightarrow> string \<Rightarrow> string \<Rightarrow> ('o, unit) kube" where
  "k_Eventf ty reason msg = note_call (CEvent ty reason msg)"

subsection \<open>What the theorems may ask of them\<close>

definition finalizer_laws :: "'o kube_env \<Rightarrow> bool" where
  "finalizer_laws e \<longleftrightarrow>
     (\<forall>m f. ContainsFinalizer e m f \<longleftrightarrow> f \<in> set (om_Finalizers m)) \<and>
     (\<forall>m f. \<exists>fs. AddFinalizer e m f = m\<lparr>om_Finalizers := fs\<rparr> \<and> set fs = insert f (set (om_Finalizers m))) \<and>
     (\<forall>m f. \<exists>fs. RemoveFinalizer e m f = m\<lparr>om_Finalizers := fs\<rparr> \<and> set fs = set (om_Finalizers m) - {f})"

text \<open>
  \<open>pod_store e pods\<close>: \<open>pods h\<close> are the pods stored after the calls \<open>h\<close>; a list call returns the
  selected ones, a create call is refused exactly when the name is taken in the namespace, and
  only create and delete calls change what is stored.
\<close>

definition pod_store :: "'o kube_env \<Rightarrow> ('o call list \<Rightarrow> Pod list) \<Rightarrow> bool" where
  "pod_store e pods \<longleftrightarrow>
     (\<forall>h ns sel. api_ListPods e h ns sel = Inr (filter (selects ns sel) (pods h))) \<and>
     (\<forall>h p. api_CreatePod e h p =
        (if pod_key p \<in> pod_key ` set (pods h) then Some (StatusError ReasonAlreadyExists ''already exists'') else None)) \<and>
     (\<forall>h p. pods (h @ [CCreatePod p None]) = pods h @ [p]) \<and>
     (\<forall>h c. (\<forall>p. c \<noteq> CCreatePod p None) \<and> (\<forall>p. c \<noteq> CDeletePod p None) \<longrightarrow> pods (h @ [c]) = pods h)"

definition prompt_delete :: "'o kube_env \<Rightarrow> ('o call list \<Rightarrow> Pod list) \<Rightarrow> bool" where
  "prompt_delete e pods \<longleftrightarrow>
     (\<forall>h p. api_DeletePod e h p =
        (if pod_key p \<in> pod_key ` set (pods h) then None else Some (StatusError ReasonNotFound ''not found''))) \<and>
     (\<forall>h p. pods (h @ [CDeletePod p None]) = filter (\<lambda>q. pod_key q \<noteq> pod_key p) (pods h))"

subsection \<open>An in-memory server\<close>

fun mem_step :: "Pod list \<Rightarrow> 'o call \<Rightarrow> Pod list" where
  "mem_step ps (CCreatePod p None) = ps @ [p]"
| "mem_step ps (CDeletePod p None) = filter (\<lambda>q. pod_key q \<noteq> pod_key p) ps"
| "mem_step ps _ = ps"

definition mem_pods :: "Pod list \<Rightarrow> 'o call list \<Rightarrow> Pod list" where
  "mem_pods ps0 h = foldl mem_step ps0 h"

text \<open>The server serves one custom resource, \<open>obj h\<close>, and starts with the pods \<open>ps0\<close>.\<close>

definition mem_env :: "('o call list \<Rightarrow> 'o) \<Rightarrow> Pod list \<Rightarrow> 'o kube_env" where
  "mem_env obj ps0 = \<lparr>
     ContainsFinalizer = (\<lambda>m f. f \<in> set (om_Finalizers m)),
     AddFinalizer = (\<lambda>m f. m\<lparr>om_Finalizers := (if f \<in> set (om_Finalizers m) then om_Finalizers m else om_Finalizers m @ [f])\<rparr>),
     RemoveFinalizer = (\<lambda>m f. m\<lparr>om_Finalizers := filter (\<lambda>g. g \<noteq> f) (om_Finalizers m)\<rparr>),
     NewControllerRef = (\<lambda>m g. \<lparr>or_APIVersion = gvk_Group g @ ''/'' @ gvk_Version g, or_Kind = gvk_Kind g,
        or_Name = om_Name m, or_UID = om_UID m, or_Controller = True\<rparr>),
     api_Get = (\<lambda>h k. Inr (obj h)),
     api_ListPods = (\<lambda>h ns sel. Inr (filter (selects ns sel) (mem_pods ps0 h))),
     api_CreatePod = (\<lambda>h p. if pod_key p \<in> pod_key ` set (mem_pods ps0 h)
        then Some (StatusError ReasonAlreadyExists ''already exists'') else None),
     api_DeletePod = (\<lambda>h p. if pod_key p \<in> pod_key ` set (mem_pods ps0 h)
        then None else Some (StatusError ReasonNotFound ''not found'')),
     api_Update = (\<lambda>h x. None),
     api_StatusUpdate = (\<lambda>h x. None)\<rparr>"

section \<open>Lemmas\<close>

lemma run_k_calls [simp, exec_simps]:
  "run_state (k_Get e k) h = (api_Get e h k, h @ [CGet k (api_Get e h k)])"
  "run_state (k_ListPods e ns sel) h = (api_ListPods e h ns sel, h @ [CListPods ns sel (api_ListPods e h ns sel)])"
  "run_state (k_CreatePod e p) h = (api_CreatePod e h p, h @ [CCreatePod p (api_CreatePod e h p)])"
  "run_state (k_DeletePod e p) h = (api_DeletePod e h p, h @ [CDeletePod p (api_DeletePod e h p)])"
  "run_state (k_Update e x) h = (api_Update e h x, h @ [CUpdate x (api_Update e h x)])"
  "run_state (k_StatusUpdate e x) h = (api_StatusUpdate e h x, h @ [CStatusUpdate x (api_StatusUpdate e h x)])"
  "run_state (k_Eventf a b c) h = ((), h @ [CEvent a b c])"
  by (simp_all add: k_Get_def k_ListPods_def k_CreatePod_def k_DeletePod_def k_Update_def
      k_StatusUpdate_def k_Eventf_def)

lemma emits_k_calls [emits_intros]:
  "(\<And>r. Q r [CGet k r]) \<Longrightarrow> emits (k_Get e k) Q"
  "(\<And>r. Q' r [CListPods ns sel r]) \<Longrightarrow> emits (k_ListPods e ns sel) Q'"
  "(\<And>r. S r [CCreatePod p r]) \<Longrightarrow> emits (k_CreatePod e p) S"
  "(\<And>r. S r [CDeletePod p r]) \<Longrightarrow> emits (k_DeletePod e p) S"
  "(\<And>r. S r [CUpdate x r]) \<Longrightarrow> emits (k_Update e x) S"
  "(\<And>r. S r [CStatusUpdate x r]) \<Longrightarrow> emits (k_StatusUpdate e x) S"
  "U () [CEvent a b c] \<Longrightarrow> emits (k_Eventf a b c) U"
  by (simp_all add: emits_def)

lemma Result0_simps [simp]: "Requeue Result0 = False" "RequeueAfter Result0 = 0"
  by (simp_all add: Result0_def)

subsection \<open>Consequences of the hypotheses\<close>

lemma contains_finalizer [kube_laws]:
  "finalizer_laws e \<Longrightarrow> ContainsFinalizer e m f \<longleftrightarrow> f \<in> set (om_Finalizers m)"
  by (simp add: finalizer_laws_def)

lemma add_finalizer_set [kube_laws]:
  "finalizer_laws e \<Longrightarrow> set (om_Finalizers (AddFinalizer e m f)) = insert f (set (om_Finalizers m))"
  unfolding finalizer_laws_def by (metis ObjectMeta.select_convs(10) ObjectMeta.surjective ObjectMeta.update_convs(10))

lemma remove_finalizer_set [kube_laws]:
  "finalizer_laws e \<Longrightarrow> set (om_Finalizers (RemoveFinalizer e m f)) = set (om_Finalizers m) - {f}"
  unfolding finalizer_laws_def by (metis ObjectMeta.select_convs(10) ObjectMeta.surjective ObjectMeta.update_convs(10))

lemma pod_store_list [kube_laws]:
  "pod_store e pods \<Longrightarrow> api_ListPods e h ns sel = Inr (filter (selects ns sel) (pods h))"
  by (simp add: pod_store_def)

lemma pod_store_create_iff:
  "pod_store e pods \<Longrightarrow> api_CreatePod e h p = None \<longleftrightarrow> pod_key p \<notin> pod_key ` set (pods h)"
  by (auto simp: pod_store_def)

lemma pod_store_create_taken:
  "pod_store e pods \<Longrightarrow> pod_key p \<in> pod_key ` set (pods h) \<Longrightarrow>
   api_CreatePod e h p = Some (StatusError ReasonAlreadyExists ''already exists'')"
  by (auto simp: pod_store_def)

lemma pod_store_snoc_create [kube_laws]: "pod_store e pods \<Longrightarrow> pods (h @ [CCreatePod p None]) = pods h @ [p]"
  by (simp add: pod_store_def)

lemma pod_store_snoc_other:
  assumes "pod_store e pods"
  shows "pods (h @ [CGet k rg]) = pods h"
    and "pods (h @ [CListPods ns sel rl]) = pods h"
    and "pods (h @ [CCreatePod p (Some err)]) = pods h"
    and "pods (h @ [CDeletePod p (Some err)]) = pods h"
    and "pods (h @ [CUpdate x ru]) = pods h"
    and "pods (h @ [CStatusUpdate x ru]) = pods h"
    and "pods (h @ [CEvent a b c]) = pods h"
  using assms by (auto simp: pod_store_def)

lemma mem_env_finalizer_laws: "finalizer_laws (mem_env obj ps0)"
  unfolding finalizer_laws_def mem_env_def by (auto intro!: exI)

lemma mem_env_pod_store: "pod_store (mem_env obj ps0) (mem_pods ps0)"
proof -
  have other: "mem_step ps c = ps"
    if "\<forall>p. c \<noteq> CCreatePod p None" "\<forall>p. c \<noteq> CDeletePod p None" for ps and c :: "'a call"
    using that by (cases "(ps, c)" rule: mem_step.cases) auto
  show ?thesis
    by (auto simp: pod_store_def mem_env_def mem_pods_def other)
qed

lemma mem_env_prompt_delete: "prompt_delete (mem_env obj ps0) (mem_pods ps0)"
  by (simp add: prompt_delete_def mem_env_def mem_pods_def)

end
