(* ===== verification/Pod_Operator.thy ===== *)
theory Pod_Operator
  imports Kube_Api
begin

text \<open>
  The PodManager operator: the custom resource of \<open>src/pod-operator/api/v1/podmanager_types.go\<close>
  and the reconciler of \<open>src/pod-operator/controllers/podmanager_controller.go\<close>. A PodManager asks
  for a number of pods; \<open>Reconcile\<close> adds a finalizer, creates or deletes pods until the count
  matches, and writes a status with a Ready condition; \<open>handleFinalizer\<close> deletes the pods of a
  PodManager that is being deleted.
\<close>

section \<open>Definitions\<close>

subsection \<open>The custom resource\<close>

record PodCondition =
  cond_Type :: string
  cond_Status :: string
  cond_LastTransitionTime :: int
  cond_Message :: string

record PodManagerSpec =
  spec_Replicas :: int32
  spec_Image :: string

record PodManagerStatus =
  st_ReadyReplicas :: int32
  st_CurrentReplicas :: int32
  st_Conditions :: "PodCondition list"

record PodManager =
  pm_meta :: ObjectMeta
  pm_Spec :: PodManagerSpec
  pm_Status :: PodManagerStatus

text \<open>The loop of \<open>SetCondition\<close>: the first condition of the type is replaced if its status
  differs; a condition of a new type is appended.\<close>

fun set_condition :: "PodCondition list \<Rightarrow> PodCondition \<Rightarrow> PodCondition list" where
  "set_condition [] cond = [cond]"
| "set_condition (c # cs) cond =
     (if cond_Type c = cond_Type cond
      then (if cond_Status c \<noteq> cond_Status cond then cond # cs else c # cs)
      else c # set_condition cs cond)"

definition SetCondition :: "PodManagerStatus \<Rightarrow> PodCondition \<Rightarrow> PodManagerStatus" where
  "SetCondition m cond = m\<lparr>st_Conditions := set_condition (st_Conditions m) cond\<rparr>"

fun remove_condition :: "PodCondition list \<Rightarrow> string \<Rightarrow> PodCondition list" where
  "remove_condition [] ty = []"
| "remove_condition (c # cs) ty = (if cond_Type c = ty then cs else c # remove_condition cs ty)"

definition RemoveCondition :: "PodManagerStatus \<Rightarrow> string \<Rightarrow> PodManagerStatus" where
  "RemoveCondition m ty = m\<lparr>st_Conditions := remove_condition (st_Conditions m) ty\<rparr>"

subsection \<open>Pods of a PodManager\<close>

definition finalizerName :: string where
  "finalizerName = ''podmanager.mycompany.com/finalizer''"

definition ownerLabels :: "PodManager \<Rightarrow> entries" where
  "ownerLabels pm = [(''app'', ''my-app''), (''podmanager'', om_Name (pm_meta pm)),
     (''podmanager-uid'', om_UID (pm_meta pm))]"

definition PodManagerGVK :: GroupVersionKind where
  "PodManagerGVK = \<lparr>gvk_Group = ''apps.mycompany.com'', gvk_Version = ''v1'', gvk_Kind = ''PodManager''\<rparr>"

definition pod_name :: "PodManager \<Rightarrow> int32 \<Rightarrow> string" where
  "pod_name pm index = om_Name (pm_meta pm) @ ''-'' @ show_int (sint index)"

definition newPodForPodManager :: "PodManager kube_env \<Rightarrow> PodManager \<Rightarrow> int32 \<Rightarrow> Pod" where
  "newPodForPodManager e pm index = \<lparr>
     pod_meta = meta0\<lparr>om_Name := pod_name pm index,
       om_Namespace := om_Namespace (pm_meta pm),
       om_Labels := Some (ownerLabels pm),
       om_OwnerReferences := [NewControllerRef e (pm_meta pm) PodManagerGVK]\<rparr>,
     pod_spec = \<lparr>ps_Containers = [\<lparr>ct_Name = ''app'', ct_Image = spec_Image (pm_Spec pm), ct_Ports = [80]\<rparr>],
       ps_RestartPolicy = ''Always''\<rparr>,
     pod_status = \<lparr>pst_Phase = '''', pst_Conditions = []\<rparr>\<rparr>"

subsection \<open>Reconcile\<close>

text \<open>The scale-up loop; \<open>i\<close> runs from the current to the desired number.\<close>

function create_pods :: "PodManager kube_env \<Rightarrow> PodManager \<Rightarrow> int32 \<Rightarrow> int32 \<Rightarrow> (PodManager, go_error option) kube" where
  "create_pods e pm i d =
     (if sint i < sint d then do {
        let pod = newPodForPodManager e pm i;
        r \<leftarrow> k_CreatePod e pod;
        (case r of
           Some err \<Rightarrow> do {
             k_Eventf ''Warning'' ''Failed'' (''Failed to create pod '' @ om_Name (pod_meta pod) @ '': '' @ Error err);
             return (Some err)
           }
         | None \<Rightarrow> do {
             k_Eventf ''Normal'' ''Created'' (''Created pod '' @ om_Name (pod_meta pod));
             create_pods e pm (i + 1) d
           })
      } else return None)"
  by pat_completeness auto
termination
  by (relation "measure (\<lambda>(e, pm, i, d). nat (sint d - sint i))") (auto simp: sint32_Suc)

declare create_pods.simps [simp del]

text \<open>The scale-down loop; \<open>i\<close> runs from the desired to the current number and indexes the listed pods.\<close>

function delete_pods :: "PodManager kube_env \<Rightarrow> Pod list \<Rightarrow> int32 \<Rightarrow> int32 \<Rightarrow> (PodManager, go_error option outcome) kube" where
  "delete_pods e items i c =
     (if sint i < sint c then
        (case slice_at items (sint i) of
           Panic p \<Rightarrow> return (Panic p)
         | Ret pod \<Rightarrow> do {
             r \<leftarrow> k_DeletePod e pod;
             (case r of
                Some err \<Rightarrow> do {
                  k_Eventf ''Warning'' ''Failed'' (''Failed to delete pod '' @ om_Name (pod_meta pod) @ '': '' @ Error err);
                  return (Ret (Some err))
                }
              | None \<Rightarrow> do {
                  k_Eventf ''Normal'' ''Deleted'' (''Deleted pod '' @ om_Name (pod_meta pod));
                  delete_pods e items (i + 1) c
                })
           })
      else return (Ret None))"
  by pat_completeness auto
termination
  by (relation "measure (\<lambda>(e, items, i, c). nat (sint c - sint i))") (auto simp: sint32_Suc)

declare delete_pods.simps [simp del]

definition adjust_pods :: "PodManager kube_env \<Rightarrow> PodManager \<Rightarrow> Pod list \<Rightarrow> (PodManager, go_error option outcome) kube" where
  "adjust_pods e pm items =
     (let desired = spec_Replicas (pm_Spec pm); current = word_of_nat (length items) in
      if sint current < sint desired then do {
        r \<leftarrow> create_pods e pm current desired;
        return (Ret r)
      }
      else if sint desired < sint current then delete_pods e items desired current
      else return (Ret None))"

definition pod_ready :: "Pod \<Rightarrow> bool" where
  "pod_ready p \<longleftrightarrow> pst_Phase (pod_status p) = ''Running'' \<and>
     list_ex (\<lambda>c. pc_Type c = ''Ready'' \<and> pc_Status c = ''True'') (pst_Conditions (pod_status p))"

fun count_ready :: "int32 \<Rightarrow> Pod list \<Rightarrow> int32" where
  "count_ready n [] = n"
| "count_ready n (p # ps) = count_ready (if pod_ready p then n + 1 else n) ps"

definition ready_condition :: "int \<Rightarrow> int32 \<Rightarrow> int32 \<Rightarrow> PodCondition" where
  "ready_condition t ready desired =
     (if ready = desired \<and> 0 < sint desired
      then \<lparr>cond_Type = ''Ready'', cond_Status = ''True'', cond_LastTransitionTime = t,
            cond_Message = ''All Pods are ready''\<rparr>
      else \<lparr>cond_Type = ''Ready'', cond_Status = ''False'', cond_LastTransitionTime = t,
            cond_Message = show_int (sint ready) @ ''/'' @ show_int (sint desired) @ '' Pods are ready''\<rparr>)"

text \<open>The condition is built from the transition time of the first condition, which must exist.\<close>

definition status_of :: "PodManager \<Rightarrow> Pod list \<Rightarrow> PodManager outcome" where
  "status_of pm items =
     (let desired = spec_Replicas (pm_Spec pm); current = word_of_nat (length items);
          ready = count_ready 0 items;
          st = (pm_Status pm)\<lparr>st_ReadyReplicas := ready, st_CurrentReplicas := current\<rparr> in
      case slice_at (st_Conditions st) 0 of
        Panic p \<Rightarrow> Panic p
      | Ret c0 \<Rightarrow>
          Ret (pm\<lparr>pm_Status := SetCondition st
            (ready_condition (cond_LastTransitionTime c0) ready desired)\<rparr>))"

fun delete_owned :: "PodManager kube_env \<Rightarrow> Pod list \<Rightarrow> (PodManager, go_error option) kube" where
  "delete_owned e [] = return None"
| "delete_owned e (pod # pods) = do {
     r \<leftarrow> k_DeletePod e pod;
     (case r of
        Some err \<Rightarrow> if \<not> IsNotFound err then return (Some err) else delete_owned e pods
      | None \<Rightarrow> do {
          k_Eventf ''Normal'' ''Deleting'' (''Deleting pod '' @ om_Name (pod_meta pod));
          delete_owned e pods
        })
   }"

definition handleFinalizer :: "PodManager kube_env \<Rightarrow> PodManager \<Rightarrow> (PodManager, ctrl_result \<times> go_error option) kube" where
  "handleFinalizer e pm =
     (if ContainsFinalizer e (pm_meta pm) finalizerName then do {
        l \<leftarrow> k_ListPods e (om_Namespace (pm_meta pm)) (ownerLabels pm);
        (case l of
           Inl err \<Rightarrow> return (Result0, Some err)
         | Inr items \<Rightarrow> do {
             d \<leftarrow> delete_owned e items;
             (case d of
                Some err \<Rightarrow> return (Result0, Some err)
              | None \<Rightarrow> do {
                  u \<leftarrow> k_Update e (pm\<lparr>pm_meta := RemoveFinalizer e (pm_meta pm) finalizerName\<rparr>);
                  return (Result0, u)
                })
           })
      } else return (Result0, None))"

definition reconcile_replicas :: "PodManager kube_env \<Rightarrow> NamespacedName \<Rightarrow> PodManager \<Rightarrow>
    (PodManager, (ctrl_result \<times> go_error option) outcome) kube" where
  "reconcile_replicas e req pm = do {
     l \<leftarrow> k_ListPods e (nn_Namespace req) (ownerLabels pm);
     (case l of
        Inl err \<Rightarrow> return (Ret (Result0, Some err))
      | Inr items \<Rightarrow>
          obind (adjust_pods e pm items) (\<lambda>a.
            case a of
              Some err \<Rightarrow> return (Ret (Result0, Some err))
            | None \<Rightarrow>
                (case status_of pm items of
                   Panic p \<Rightarrow> return (Panic p)
                 | Ret pm' \<Rightarrow> do {
                     u \<leftarrow> k_StatusUpdate e pm';
                     (case u of
                        Some err \<Rightarrow> return (Ret (Result0, Some err))
                      | None \<Rightarrow> return (Ret (Result0\<lparr>RequeueAfter := Second * 30\<rparr>, None)))
                   })))
   }"

definition Reconcile :: "PodManager kube_env \<Rightarrow> NamespacedName \<Rightarrow>
    (PodManager, (ctrl_result \<times> go_error option) outcome) kube" where
  "Reconcile e req = do {
     g \<leftarrow> k_Get e req;
     (case g of
        Inl err \<Rightarrow> if IsNotFound err then return (Ret (Result0, None)) else return (Ret (Result0, Some err))
      | Inr pm \<Rightarrow>
          if \<not> Time_IsZero (om_DeletionTimestamp (pm_meta pm)) then do {
            r \<leftarrow> handleFinalizer e pm;
            return (Ret r)
          }
          else if \<not> ContainsFinalizer e (pm_meta pm) finalizerName then do {
            u \<leftarrow> k_Update e (pm\<lparr>pm_meta := AddFinalizer e (pm_meta pm) finalizerName\<rparr>);
            (case u of
               Some err \<Rightarrow> return (Ret (Result0, Some err))
             | None \<Rightarrow> return (Ret (Result0\<lparr>Requeue := True\<rparr>, None)))
          }
          else reconcile_replicas e req pm)
   }"

subsection \<open>The contract of a run\<close>

text \<open>A delete call is acknowledged when it succeeds or the pod is gone already.\<close>

definition acked :: "go_error option \<Rightarrow> bool" where
  "acked r = (case r of None \<Rightarrow> True | Some err \<Rightarrow> IsNotFound err)"

text \<open>
  What one run may do, whatever the server replies: it first reads the PodManager; it creates only
  that PodManager's pods, and only while the finalizer is in place; it deletes only pods it listed;
  it updates the PodManager only to add the finalizer, or to remove it as its last call after every
  listed pod's deletion has been acknowledged; a status update leaves metadata and spec alone.
\<close>

definition pm_calls_ok :: "PodManager kube_env \<Rightarrow> go_error + PodManager \<Rightarrow> PodManager call list \<Rightarrow> bool" where
  "pm_calls_ok e g rest \<longleftrightarrow>
     (\<forall>p r. CCreatePod p r \<in> set rest \<longrightarrow>
        (\<exists>pm j. g = Inr pm \<and> Time_IsZero (om_DeletionTimestamp (pm_meta pm)) \<and>
           ContainsFinalizer e (pm_meta pm) finalizerName \<and> p = newPodForPodManager e pm j)) \<and>
     (\<forall>p r. CDeletePod p r \<in> set rest \<longrightarrow>
        (\<exists>pm ns items. g = Inr pm \<and> ContainsFinalizer e (pm_meta pm) finalizerName \<and>
           CListPods ns (ownerLabels pm) (Inr items) \<in> set rest \<and> p \<in> set items)) \<and>
     (\<forall>pm' r. CUpdate pm' r \<in> set rest \<longrightarrow>
        (\<exists>pm. g = Inr pm \<and>
           (if Time_IsZero (om_DeletionTimestamp (pm_meta pm))
            then \<not> ContainsFinalizer e (pm_meta pm) finalizerName \<and> rest = [CUpdate pm' r] \<and>
              pm' = pm\<lparr>pm_meta := AddFinalizer e (pm_meta pm) finalizerName\<rparr>
            else ContainsFinalizer e (pm_meta pm) finalizerName \<and>
              pm' = pm\<lparr>pm_meta := RemoveFinalizer e (pm_meta pm) finalizerName\<rparr> \<and>
              (\<exists>items dels. rest =
                 CListPods (om_Namespace (pm_meta pm)) (ownerLabels pm) (Inr items) # dels @ [CUpdate pm' r] \<and>
                 (\<forall>x r'. CUpdate x r' \<notin> set dels) \<and>
                 (\<forall>p\<in>set items. \<exists>r'. CDeletePod p r' \<in> set dels \<and> acked r'))))) \<and>
     (\<forall>pm' r. CStatusUpdate pm' r \<in> set rest \<longrightarrow>
        (\<exists>pm. g = Inr pm \<and> pm_meta pm' = pm_meta pm \<and> pm_Spec pm' = pm_Spec pm \<and>
           st_Conditions (pm_Status pm) \<noteq> []))"

definition pm_contract :: "PodManager kube_env \<Rightarrow> NamespacedName \<Rightarrow> PodManager call list \<Rightarrow> bool" where
  "pm_contract e q seg \<longleftrightarrow>
     (\<exists>h rest. seg = CGet q (api_Get e h q) # rest \<and> pm_calls_ok e (api_Get e h q) rest)"

subsection \<open>An example resource\<close>

definition demo_pm :: "int32 \<Rightarrow> string list \<Rightarrow> int option \<Rightarrow> PodCondition list \<Rightarrow> PodManager" where
  "demo_pm n fins deleted conds = \<lparr>
     pm_meta = meta0\<lparr>om_Name := ''web'', om_Namespace := ''default'', om_UID := ''u1'',
       om_DeletionTimestamp := deleted, om_Finalizers := fins\<rparr>,
     pm_Spec = \<lparr>spec_Replicas = n, spec_Image = ''nginx''\<rparr>,
     pm_Status = \<lparr>st_ReadyReplicas = 0, st_CurrentReplicas = 0, st_Conditions = conds\<rparr>\<rparr>"

definition demo_req :: NamespacedName where
  "demo_req = \<lparr>nn_Namespace = ''default'', nn_Name = ''web''\<rparr>"

definition demo_pod :: "int32 \<Rightarrow> Pod" where
  "demo_pod i = newPodForPodManager (mem_env (\<lambda>_. demo_pm 0 [] None []) []) (demo_pm 0 [] None []) i"

section \<open>Lemmas\<close>

subsection \<open>Conditions\<close>

lemma set_condition_types:
  "map cond_Type (set_condition cs c) =
     (if cond_Type c \<in> cond_Type ` set cs then map cond_Type cs else map cond_Type cs @ [cond_Type c])"
  by (induction cs c rule: set_condition.induct) auto

lemma set_condition_find:
  "map_option cond_Status (find (\<lambda>x. cond_Type x = cond_Type c) (set_condition cs c)) = Some (cond_Status c)"
  by (induction cs c rule: set_condition.induct) auto

lemma set_condition_find_other:
  "ty \<noteq> cond_Type c \<Longrightarrow>
   find (\<lambda>x. cond_Type x = ty) (set_condition cs c) = find (\<lambda>x. cond_Type x = ty) cs"
  by (induction cs c rule: set_condition.induct) auto

lemma set_condition_idem: "set_condition (set_condition cs c) c = set_condition cs c"
  by (induction cs c rule: set_condition.induct) auto

lemma set_condition_same:
  "map_option cond_Status (find (\<lambda>x. cond_Type x = cond_Type c) cs) = Some (cond_Status c) \<Longrightarrow> set_condition cs c = cs"
  by (induction cs c rule: set_condition.induct) (auto split: if_splits)

lemma set_remove_condition:
  "cond_Type c \<notin> cond_Type ` set cs \<Longrightarrow> remove_condition (set_condition cs c) (cond_Type c) = cs"
  by (induction cs c rule: set_condition.induct) auto

lemma set_condition_nonempty: "set_condition cs c \<noteq> []"
  by (cases cs) auto

lemma remove_condition_distinct:
  "distinct (map cond_Type cs) \<Longrightarrow> remove_condition cs ty = filter (\<lambda>c. cond_Type c \<noteq> ty) cs"
proof (induction cs)
  case (Cons c cs)
  then show ?case by (auto simp: image_iff intro!: filter_True [symmetric])
qed simp

subsection \<open>Loops\<close>

lemma emits_create_pods:
  "emits (create_pods e pm i d) (\<lambda>r seg.
     \<forall>c\<in>set seg. (\<exists>a b m. c = CEvent a b m) \<or> (\<exists>j r. c = CCreatePod (newPodForPodManager e pm j) r))"
proof (induction e pm i d rule: create_pods.induct)
  case (1 e pm i d)
  show ?case
    by (subst create_pods.simps, unfold Let_def, intro emits_intros)
      (auto intro: emits_mono [OF "1"] simp: Let_def)
qed

lemma slice_at_in_set: "slice_at xs i = Ret x \<Longrightarrow> x \<in> set xs"
  by (auto simp: slice_at_Ret)

lemma emits_delete_pods:
  "emits (delete_pods e items i c) (\<lambda>r seg.
     \<forall>x\<in>set seg. (\<exists>a b m. x = CEvent a b m) \<or> (\<exists>p r. x = CDeletePod p r \<and> p \<in> set items))"
proof (induction e items i c rule: delete_pods.induct)
  case (1 e items i c)
  show ?case
    by (subst delete_pods.simps, intro emits_intros)
      (fastforce intro: emits_mono [OF "1"] dest: slice_at_in_set)+
qed

lemma emits_delete_owned:
  "emits (delete_owned e pods) (\<lambda>r seg.
     (\<forall>x\<in>set seg. (\<exists>a b m. x = CEvent a b m) \<or> (\<exists>p r. x = CDeletePod p r \<and> p \<in> set pods)) \<and>
     (r = None \<longrightarrow> (\<forall>p\<in>set pods. \<exists>r'. CDeletePod p r' \<in> set seg \<and> acked r')))"
proof (induction pods)
  case Nil
  show ?case by (auto intro: emits_return)
next
  case (Cons p ps)
  show ?case
    unfolding delete_owned.simps
    by (intro emits_intros) (force intro: emits_mono [OF Cons.IH] simp: acked_def)+
qed

lemma emits_adjust_pods:
  "emits (adjust_pods e pm items) (\<lambda>r seg.
     \<forall>x\<in>set seg. (\<exists>a b m. x = CEvent a b m) \<or>
       (\<exists>j r. x = CCreatePod (newPodForPodManager e pm j) r) \<or>
       (\<exists>p r. x = CDeletePod p r \<and> p \<in> set items))"
  unfolding adjust_pods_def Let_def
  by (intro emits_intros)
    (auto intro!: emits_mono [OF emits_create_pods] emits_mono [OF emits_delete_pods] emits_return)

lemma status_of_frame:
  "status_of pm items = Ret pm' \<Longrightarrow>
   pm_meta pm' = pm_meta pm \<and> pm_Spec pm' = pm_Spec pm \<and> st_Conditions (pm_Status pm) \<noteq> []"
  by (auto simp: status_of_def Let_def split: outcome.splits)

lemma emits_reconcile_replicas:
  assumes "Time_IsZero (om_DeletionTimestamp (pm_meta pm))" "ContainsFinalizer e (pm_meta pm) finalizerName"
  shows "emits (reconcile_replicas e q pm) (\<lambda>r rest. pm_calls_ok e (Inr pm) rest)"
  unfolding reconcile_replicas_def pm_calls_ok_def
  using assms
  by (intro emits_intros, simp_all)
    (force intro!: emits_mono [OF emits_adjust_pods] emits_intros dest: status_of_frame
      split: outcome.splits)

lemma emits_handleFinalizer:
  assumes "\<not> Time_IsZero (om_DeletionTimestamp (pm_meta pm))"
  shows "emits (handleFinalizer e pm) (\<lambda>r rest. pm_calls_ok e (Inr pm) rest)"
  unfolding handleFinalizer_def pm_calls_ok_def
  using assms
  by (intro emits_intros, simp_all)
    (force intro!: emits_mono [OF emits_delete_owned] emits_intros)

lemma pm_calls_ok_Nil [simp]: "pm_calls_ok e g []"
  by (simp add: pm_calls_ok_def)

lemma pm_calls_ok_createD:
  "pm_calls_ok e g rest \<Longrightarrow> CCreatePod p r \<in> set rest \<Longrightarrow>
   \<exists>pm j. g = Inr pm \<and> Time_IsZero (om_DeletionTimestamp (pm_meta pm)) \<and>
     ContainsFinalizer e (pm_meta pm) finalizerName \<and> p = newPodForPodManager e pm j"
  unfolding pm_calls_ok_def by blast

lemma pm_calls_ok_deleteD:
  "pm_calls_ok e g rest \<Longrightarrow> CDeletePod p r \<in> set rest \<Longrightarrow>
   \<exists>pm ns items. g = Inr pm \<and> ContainsFinalizer e (pm_meta pm) finalizerName \<and>
     CListPods ns (ownerLabels pm) (Inr items) \<in> set rest \<and> p \<in> set items"
  unfolding pm_calls_ok_def by blast

lemma pm_calls_ok_removeD:
  assumes "pm_calls_ok e (Inr pm) rest" "CUpdate pm' r \<in> set rest"
    "\<not> Time_IsZero (om_DeletionTimestamp (pm_meta pm))"
  obtains items dels where
    "rest = CListPods (om_Namespace (pm_meta pm)) (ownerLabels pm) (Inr items) # dels @ [CUpdate pm' r]"
    "\<forall>x r'. CUpdate x r' \<notin> set dels"
    "\<forall>p\<in>set items. \<exists>r'. CDeletePod p r' \<in> set dels \<and> acked r'"
proof -
  have "if Time_IsZero (om_DeletionTimestamp (pm_meta pm)) then True
      else \<exists>items dels. rest =
        CListPods (om_Namespace (pm_meta pm)) (ownerLabels pm) (Inr items) # dels @ [CUpdate pm' r] \<and>
        (\<forall>x r'. CUpdate x r' \<notin> set dels) \<and> (\<forall>p\<in>set items. \<exists>r'. CDeletePod p r' \<in> set dels \<and> acked r')"
    using assms(1,2) unfolding pm_calls_ok_def by (metis sum.inject(2))
  with assms(3) that show thesis by auto
qed

lemma pm_calls_ok_statusD:
  "pm_calls_ok e g rest \<Longrightarrow> CStatusUpdate pm' r \<in> set rest \<Longrightarrow>
   \<exists>pm. g = Inr pm \<and> pm_meta pm' = pm_meta pm \<and> pm_Spec pm' = pm_Spec pm \<and> st_Conditions (pm_Status pm) \<noteq> []"
  unfolding pm_calls_ok_def by blast

lemma pm_calls_ok_add_finalizer:
  assumes "Time_IsZero (om_DeletionTimestamp (pm_meta pm))" "\<not> ContainsFinalizer e (pm_meta pm) finalizerName"
  shows "pm_calls_ok e (Inr pm) [CUpdate (pm\<lparr>pm_meta := AddFinalizer e (pm_meta pm) finalizerName\<rparr>) r]"
  using assms by (simp add: pm_calls_ok_def)

lemma Reconcile_run:
  "\<exists>t. snd (run_state (Reconcile e q) h) = h @ CGet q (api_Get e h q) # t \<and> pm_calls_ok e (api_Get e h q) t"
  unfolding Reconcile_def k_Get_def
  by (rule emits_first_call [where Q = "\<lambda>g x t. pm_calls_ok e g t"], intro emits_intros)
    (simp_all add: pm_calls_ok_add_finalizer emits_reconcile_replicas emits_handleFinalizer)

lemma emits_Reconcile: "emits (Reconcile e q) (\<lambda>r seg. pm_contract e q seg)"
  unfolding emits_def pm_contract_def using Reconcile_run by metis

interpretation pmr: reconciler "Reconcile e" "pm_contract e" for e
  by unfold_locales (rule emits_Reconcile)

lemma Reconcile_drive_call:
  assumes "c \<in> set (drive (Reconcile e) qs [])" and "\<And>k g. c \<noteq> CGet k g"
  obtains q g rest where "q \<in> set qs" "pm_calls_ok e g rest" "c \<in> set rest"
    "set (CGet q g # rest) \<subseteq> set (drive (Reconcile e) qs [])"
  using pmr.drive_call [OF assms(1)] assms(2) that unfolding pm_contract_def by force

subsection \<open>Names and labels of new pods\<close>

lemma pod_key_new: "pod_key (newPodForPodManager e pm i) = (om_Namespace (pm_meta pm), pod_name pm i)"
  by (simp add: pod_key_def newPodForPodManager_def)

lemma pod_name_inj: "pod_name pm i = pod_name pm j \<Longrightarrow> i = j"
  unfolding pod_name_def by (metis append_Cons append_same_eq same_append_eq show_int_inj signed_word_eqI)

lemma selects_new: "selects (om_Namespace (pm_meta pm)) (ownerLabels pm) (newPodForPodManager e pm i)"
  by (simp add: selects_def newPodForPodManager_def ownerLabels_def)

subsection \<open>Scaling against a store of pods\<close>

lemma create_pods_store:
  assumes "pod_store e pods"
    and "\<forall>j. sint i \<le> sint j \<and> sint j < sint d \<longrightarrow>
           pod_key (newPodForPodManager e pm j) \<notin> pod_key ` set (pods h)"
  shows "fst (run_state (create_pods e pm i d) h) = None \<and>
    pods (snd (run_state (create_pods e pm i d) h)) =
      pods h @ map (\<lambda>j. newPodForPodManager e pm (word_of_int j)) [sint i .. sint d - 1]"
  using assms(2)
proof (induction "nat (sint d - sint i)" arbitrary: i h)
  case 0
  then show ?case by (subst (1 2) create_pods.simps) simp
next
  case (Suc n)
  let ?p = "newPodForPodManager e pm i"
  define h' where "h' = h @ [CCreatePod ?p None, CEvent ''Normal'' ''Created'' (''Created pod '' @ om_Name (pod_meta ?p))]"
  from Suc.hyps(2) have lt: "sint i < sint d" by simp
  have si: "sint (i + 1) = sint i + 1" by (rule sint32_Suc [OF lt])
  have ok: "api_CreatePod e h ?p = None"
    using Suc.prems lt by (simp add: pod_store_create_iff [OF assms(1)])
  have pods: "pods h' = pods h @ [?p]"
    using pod_store_snoc_other(7) [OF assms(1), of "h @ [CCreatePod ?p None]"]
      pod_store_snoc_create [OF assms(1), of h ?p] by (simp add: h'_def)
  have fresh: "\<forall>j. sint (i + 1) \<le> sint j \<and> sint j < sint d \<longrightarrow>
      pod_key (newPodForPodManager e pm j) \<notin> pod_key ` set (pods h')"
    using Suc.prems by (auto simp: pods si pod_key_new dest: pod_name_inj)
  have "n = nat (sint d - sint (i + 1))" using Suc.hyps(2) si by simp
  from Suc.hyps(1) [OF this fresh]
  have IH: "fst (run_state (create_pods e pm (i + 1) d) h') = None"
      "pods (snd (run_state (create_pods e pm (i + 1) d) h')) =
         pods h @ [?p] @ map (\<lambda>j. newPodForPodManager e pm (word_of_int j)) [sint i + 1 .. sint d - 1]"
    by (simp_all add: pods si)
  have run: "run_state (create_pods e pm i d) h = run_state (create_pods e pm (i + 1) d) h'"
    using lt ok by (subst create_pods.simps) (simp add: Let_def h'_def)
  have "[sint i .. sint d - 1] = sint i # [sint i + 1 .. sint d - 1]"
    using lt by (simp add: upto.simps)
  with IH show ?case by (simp add: run)
qed

lemma create_pods_taken:
  assumes "pod_store e pods" and "sint i < sint d"
    and "pod_key (newPodForPodManager e pm i) \<in> pod_key ` set (pods h)"
  shows "\<exists>err m. err = StatusError ReasonAlreadyExists ''already exists'' \<and>
    run_state (create_pods e pm i d) h =
      (Some err, h @ [CCreatePod (newPodForPodManager e pm i) (Some err), CEvent ''Warning'' ''Failed'' m])"
  using assms(2) pod_store_create_taken [OF assms(1,3)]
  by (subst create_pods.simps) (simp add: Let_def)

lemma delete_pods_store:
  assumes store: "pod_store e pods" and del: "prompt_delete e pods"
    and len: "length items < 2 ^ 31" and i: "0 \<le> sint i" "sint i \<le> int (length items)"
    and mem: "pod_key ` set (drop (nat (sint i)) items) \<subseteq> pod_key ` set (pods h)"
    and dist: "distinct (map pod_key items)"
  shows "fst (run_state (delete_pods e items i (word_of_nat (length items))) h) = Ret None \<and>
    pods (snd (run_state (delete_pods e items i (word_of_nat (length items))) h)) =
      filter (\<lambda>p. pod_key p \<notin> pod_key ` set (drop (nat (sint i)) items)) (pods h)"
  using i mem
proof (induction "nat (int (length items) - sint i)" arbitrary: i h)
  case 0
  then show ?case by (subst (1 2) delete_pods.simps) (simp add: sint32_of_nat [OF len])
next
  case (Suc n)
  let ?k = "nat (sint i)" and ?c = "word_of_nat (length items) :: int32"
  let ?p = "items ! ?k"
  define h' where "h' = h @ [CDeletePod ?p None, CEvent ''Normal'' ''Deleted'' (''Deleted pod '' @ om_Name (pod_meta ?p))]"
  from Suc.hyps(2) have lt: "sint i < int (length items)" by simp
  then have k: "?k < length items" using Suc.prems(1) by simp
  have dropk: "drop ?k items = ?p # drop (Suc ?k) items" by (rule Cons_nth_drop_Suc [OF k, symmetric])
  have ltc: "sint i < sint ?c" using lt by (simp add: sint32_of_nat [OF len])
  have si: "sint (i + 1) = sint i + 1" by (rule sint32_Suc [OF ltc])
  then have ki: "nat (sint (i + 1)) = Suc ?k" using Suc.prems(1) by simp
  have ok: "api_DeletePod e h ?p = None"
    using del Suc.prems(3) by (simp add: prompt_delete_def dropk)
  have pods: "pods h' = filter (\<lambda>q. pod_key q \<noteq> pod_key ?p) (pods h)"
    using pod_store_snoc_other(7) [OF store, of "h @ [CDeletePod ?p None]"] del
    by (simp add: prompt_delete_def h'_def)
  have new: "pod_key ?p \<notin> pod_key ` set (drop (Suc ?k) items)"
    using distinct_drop [OF dist, of ?k] by (simp add: drop_map dropk)
  have keys: "pod_key ` set (pods h') = pod_key ` set (pods h) - {pod_key ?p}"
    by (auto simp: pods)
  have mem': "pod_key ` set (drop (nat (sint (i + 1))) items) \<subseteq> pod_key ` set (pods h')"
    using Suc.prems(3) new unfolding keys ki dropk by auto
  have n: "n = nat (int (length items) - sint (i + 1))" using Suc.hyps(2) si by simp
  have b: "0 \<le> sint (i + 1)" "sint (i + 1) \<le> int (length items)" using Suc.prems(1) lt si by simp_all
  have IH: "fst (run_state (delete_pods e items (i + 1) ?c) h') = Ret None"
      "pods (snd (run_state (delete_pods e items (i + 1) ?c) h')) =
         filter (\<lambda>p. pod_key p \<notin> pod_key ` set (drop (Suc ?k) items)) (pods h')"
    using Suc.hyps(1) [OF n b mem'] unfolding ki by simp_all
  have run: "run_state (delete_pods e items i ?c) h = run_state (delete_pods e items (i + 1) ?c) h'"
    using ltc ok lt Suc.prems(1) by (subst delete_pods.simps) (simp add: slice_at_def h'_def)
  have "filter (\<lambda>p. pod_key p \<notin> pod_key ` set (drop (Suc ?k) items)) (pods h') =
      filter (\<lambda>p. pod_key p \<notin> pod_key ` set (drop ?k items)) (pods h)"
    by (simp add: pods dropk conj_commute)
  with IH show ?case by (simp add: run)
qed

lemma Reconcile_live:
  assumes "api_Get e h q = Inr pm" and "Time_IsZero (om_DeletionTimestamp (pm_meta pm))"
    and "ContainsFinalizer e (pm_meta pm) finalizerName"
  shows "run_state (Reconcile e q) h = run_state (reconcile_replicas e q pm) (h @ [CGet q (Inr pm)])"
  using assms by (simp add: Reconcile_def)

text \<open>After the pods have been adjusted, the rest of a run stores no pod and removes none.\<close>

lemma reconcile_replicas_pods:
  assumes store: "pod_store e pods"
    and list: "api_ListPods e h (nn_Namespace q) (ownerLabels pm) = Inr items"
    and adj: "run_state (adjust_pods e pm items) (h @ [CListPods (nn_Namespace q) (ownerLabels pm) (Inr items)]) = (a, h')"
  shows "pods (snd (run_state (reconcile_replicas e q pm) h)) = pods h'"
  using pod_store_snoc_other [OF store]
  by (simp add: reconcile_replicas_def list adj split: outcome.splits option.splits)

lemma count_ready_filter:
  "0 \<le> sint n \<and> sint n + int (length ps) < 2 ^ 31 \<Longrightarrow>
   sint (count_ready n ps) = sint n + int (length (filter pod_ready ps))"
proof (induction n ps rule: count_ready.induct)
  case (2 n p ps)
  then have "sint (n + 1) = sint n + 1"
    using sint32_of_int [of "sint n + 1"] by simp
  with 2 show ?case by auto
qed simp

lemma ready_condition_simps [simp]:
  "cond_Type (ready_condition t r d) = ''Ready''"
  "cond_Status (ready_condition t r d) = (if r = d \<and> 0 < sint d then ''True'' else ''False'')"
  by (simp_all add: ready_condition_def)

text \<open>Only a run that has sent its status asks to be called again after a delay.\<close>

lemma emits_Reconcile_requeue:
  "emits (Reconcile e q) (\<lambda>r seg. \<forall>res. r = Ret (res, None) \<longrightarrow>
     RequeueAfter res = 0 \<or> (\<exists>x. CStatusUpdate x None \<in> set seg))"
  unfolding Reconcile_def reconcile_replicas_def handleFinalizer_def
  by (intro emits_intros emits_mono [OF emits_adjust_pods] emits_mono [OF emits_delete_owned])
    (auto intro!: emits_intros split: outcome.splits)

lemma Reconcile_requeue:
  assumes "fst (run_state (Reconcile e q) h) = Ret (res, None)"
  shows "RequeueAfter res = 0 \<or> (\<exists>x. CStatusUpdate x None \<in> set (snd (run_state (Reconcile e q) h)))"
  using emits_Reconcile_requeue [of e q] assms unfolding emits_def by fastforce

lemma adjust_pods_up:
  assumes "length items < 2 ^ 31" "int (length items) < sint (spec_Replicas (pm_Spec pm))"
  shows "run_state (adjust_pods e pm items) h =
    (case run_state (create_pods e pm (word_of_nat (length items)) (spec_Replicas (pm_Spec pm))) h of
       (r, h') \<Rightarrow> (Ret r, h'))"
  using assms by (simp add: adjust_pods_def Let_def sint32_of_nat split: prod.splits)

lemma adjust_pods_down:
  assumes "length items < 2 ^ 31" "sint (spec_Replicas (pm_Spec pm)) < int (length items)"
  shows "adjust_pods e pm items =
    delete_pods e items (spec_Replicas (pm_Spec pm)) (word_of_nat (length items))"
  using assms by (simp add: adjust_pods_def Let_def sint32_of_nat)

lemma length_below_replicas:
  "int n < sint (d :: int32) \<Longrightarrow> n < 2 ^ 31"
  using sint32_bounds(2) [of d] by simp

lemma filter_keys_drop:
  assumes "distinct (map f xs)"
  shows "filter (\<lambda>x. f x \<notin> f ` set (drop n xs)) xs = take n xs"
proof -
  have "f ` set (take n xs) \<inter> f ` set (drop n xs) = {}"
    using assms distinct_append [of "map f (take n xs)" "map f (drop n xs)"]
    by (simp flip: map_append)
  then have "filter (\<lambda>x. f x \<notin> f ` set (drop n xs)) (take n xs) = take n xs"
    by (intro filter_True) auto
  moreover have "filter (\<lambda>x. f x \<notin> f ` set (drop n xs)) (drop n xs) = []"
    by (simp add: filter_empty_conv)
  ultimately show ?thesis
    using filter_append [of "\<lambda>x. f x \<notin> f ` set (drop n xs)" "take n xs" "drop n xs"] by simp
qed

lemma sint_upto_length: "int n \<le> b \<Longrightarrow> int (n + length [int n .. b - 1]) = b"
  by simp

lemma Reconcile_taken:
  assumes store: "pod_store e pods" and get: "api_Get e h q = Inr pm"
    and live: "Time_IsZero (om_DeletionTimestamp (pm_meta pm))"
    and fin: "ContainsFinalizer e (pm_meta pm) finalizerName"
    and ns: "nn_Namespace q = om_Namespace (pm_meta pm)"
    and cur: "cur = filter (selects (om_Namespace (pm_meta pm)) (ownerLabels pm)) (pods h)"
    and less: "int (length cur) < sint (spec_Replicas (pm_Spec pm))"
    and taken: "pod_key (newPodForPodManager e pm (word_of_nat (length cur))) \<in> pod_key ` set (pods h)"
  shows "fst (run_state (Reconcile e q) h) = Ret (Result0, Some (StatusError ReasonAlreadyExists ''already exists'')) \<and>
    pods (snd (run_state (Reconcile e q) h)) = pods h"
proof -
  define h1 where "h1 = h @ [CGet q (Inr pm)]"
  define h2 where "h2 = h1 @ [CListPods (nn_Namespace q) (ownerLabels pm) (Inr cur)]"
  have pods: "pods h1 = pods h" "pods h2 = pods h"
    unfolding h1_def h2_def by (simp_all only: pod_store_snoc_other(1,2) [OF store])
  have len: "length cur < 2 ^ 31" by (rule length_below_replicas [OF less])
  have list: "api_ListPods e h1 (nn_Namespace q) (ownerLabels pm) = Inr cur"
    by (simp add: pod_store_list [OF store] pods ns cur)
  obtain err m where err: "err = StatusError ReasonAlreadyExists ''already exists''"
    and run: "run_state (create_pods e pm (word_of_nat (length cur)) (spec_Replicas (pm_Spec pm))) h2 =
      (Some err, (h2 @ [CCreatePod (newPodForPodManager e pm (word_of_nat (length cur))) (Some err)]) @
        [CEvent ''Warning'' ''Failed'' m])"
    using create_pods_taken [OF store, of "word_of_nat (length cur)" "spec_Replicas (pm_Spec pm)" pm h2] less taken
    unfolding pods sint32_of_nat [OF len] by auto
  have adj: "run_state (adjust_pods e pm cur) h2 = (Ret (Some err),
      (h2 @ [CCreatePod (newPodForPodManager e pm (word_of_nat (length cur))) (Some err)]) @ [CEvent ''Warning'' ''Failed'' m])"
    by (simp add: adjust_pods_up [OF len less] run)
  have "run_state (Reconcile e q) h = run_state (reconcile_replicas e q pm) h1"
    by (simp add: Reconcile_live [OF get live fin] h1_def)
  moreover have "fst (run_state (reconcile_replicas e q pm) h1) = Ret (Result0, Some err)"
    using adj by (simp add: reconcile_replicas_def list h2_def)
  moreover have "pods (snd (run_state (reconcile_replicas e q pm) h1)) = pods h"
    unfolding reconcile_replicas_pods [OF store list adj [unfolded h2_def]]
    by (simp only: pod_store_snoc_other [OF store] pods h2_def [symmetric])
  ultimately show ?thesis by (simp add: err)
qed

section \<open>Properties\<close>

text \<open>C2. A PodManager that is being deleted gives up its finalizer only as the last call of a run,
  after the deletion of every pod listed in that run was acknowledged, whatever the server replies.\<close>

theorem pm_finalizer_removed_last:
  assumes "snd (run_state (Reconcile e q) h) = h @ pre @ CUpdate pm' r # post"
    and "api_Get e h q = Inr pm" and "\<not> Time_IsZero (om_DeletionTimestamp (pm_meta pm))"
  shows "post = [] \<and> (\<exists>items.
    CListPods (om_Namespace (pm_meta pm)) (ownerLabels pm) (Inr items) \<in> set pre \<and>
    (\<forall>p\<in>set items. \<exists>r'. CDeletePod p r' \<in> set pre \<and> acked r'))"
proof -
  obtain t where t: "snd (run_state (Reconcile e q) h) = h @ CGet q (Inr pm) # t" "pm_calls_ok e (Inr pm) t"
    using Reconcile_run [of e q h] assms(2) by auto
  with assms(1) obtain pre1 where pre: "pre = CGet q (Inr pm) # pre1" and t1: "t = pre1 @ CUpdate pm' r # post"
    by (cases pre) auto
  then have "CUpdate pm' r \<in> set t" by simp
  then obtain items dels where
    t2: "t = CListPods (om_Namespace (pm_meta pm)) (ownerLabels pm) (Inr items) # dels @ [CUpdate pm' r]"
    and no: "\<forall>x r'. CUpdate x r' \<notin> set dels"
    and ack: "\<forall>p\<in>set items. \<exists>r'. CDeletePod p r' \<in> set dels \<and> acked r'"
    by (rule pm_calls_ok_removeD [OF t(2) _ assms(3)])
  from t1 t2 have "pre1 @ CUpdate pm' r # post =
      (CListPods (om_Namespace (pm_meta pm)) (ownerLabels pm) (Inr items) # dels) @ [CUpdate pm' r]"
    by simp
  from split_before_last [OF this] no ack show ?thesis by (auto simp: pre)
qed

theorem pm_finalizer_removed_last_witness:
  "\<exists>pre pm' r. snd (run_state (Reconcile (mem_env (\<lambda>_. demo_pm 1 [finalizerName] (Some 7) []) [demo_pod 0]) demo_req) []) =
      pre @ [CUpdate pm' r] \<and>
    (\<exists>items. CListPods ''default'' (ownerLabels (demo_pm 1 [finalizerName] (Some 7) [])) (Inr items) \<in> set pre \<and>
      (\<forall>p\<in>set items. \<exists>r'. CDeletePod p r' \<in> set pre \<and> acked r') \<and> items = [demo_pod 0])"
proof -
  let ?pm = "demo_pm 1 [finalizerName] (Some 7) []"
  let ?e = "mem_env (\<lambda>_. ?pm) [demo_pod 0]"
  have sel: "selects ''default'' (ownerLabels ?pm) (demo_pod 0)"
    by (simp add: demo_pod_def selects_def newPodForPodManager_def ownerLabels_def demo_pm_def)
  have run: "snd (run_state (Reconcile ?e demo_req) []) =
     [] @ [CGet demo_req (Inr ?pm), CListPods ''default'' (ownerLabels ?pm) (Inr [demo_pod 0]),
       CDeletePod (demo_pod 0) None, CEvent ''Normal'' ''Deleting'' (''Deleting pod '' @ om_Name (pod_meta (demo_pod 0)))] @
     CUpdate (?pm\<lparr>pm_meta := RemoveFinalizer ?e (pm_meta ?pm) finalizerName\<rparr>) None # []"
    using sel by (simp add: Reconcile_def handleFinalizer_def mem_env_def demo_pm_def mem_pods_def Time_IsZero_def)
  have "api_Get ?e [] demo_req = Inr ?pm" "\<not> Time_IsZero (om_DeletionTimestamp (pm_meta ?pm))"
    by (simp_all add: mem_env_def demo_pm_def Time_IsZero_def)
  from pm_finalizer_removed_last [OF run this] run show ?thesis
    by (intro exI) (auto simp: demo_pm_def)
qed

text \<open>C3. In any history of runs, every pod the operator creates is built by
  \<open>newPodForPodManager\<close> for a PodManager that a run read as live and already holding the finalizer, and
  every pod it deletes was returned by a list call for the labels of a PodManager that a run read as holding the
  finalizer, be it live (when there are too many pods) or being deleted (when all of its pods are removed).\<close>

theorem pm_touches_only_own_pods:
  "(CCreatePod p r \<in> set (drive (Reconcile e) qs []) \<longrightarrow>
     (\<exists>q\<in>set qs. \<exists>pm j. CGet q (Inr pm) \<in> set (drive (Reconcile e) qs []) \<and>
        Time_IsZero (om_DeletionTimestamp (pm_meta pm)) \<and>
        ContainsFinalizer e (pm_meta pm) finalizerName \<and> p = newPodForPodManager e pm j)) \<and>
   (CDeletePod p r \<in> set (drive (Reconcile e) qs []) \<longrightarrow>
     (\<exists>q\<in>set qs. \<exists>pm ns items. CGet q (Inr pm) \<in> set (drive (Reconcile e) qs []) \<and>
        ContainsFinalizer e (pm_meta pm) finalizerName \<and>
        CListPods ns (ownerLabels pm) (Inr items) \<in> set (drive (Reconcile e) qs []) \<and> p \<in> set items))"
proof (intro conjI impI)
  assume "CCreatePod p r \<in> set (drive (Reconcile e) qs [])"
  then obtain q g rest where "q \<in> set qs" "pm_calls_ok e g rest" "CCreatePod p r \<in> set rest"
      "set (CGet q g # rest) \<subseteq> set (drive (Reconcile e) qs [])"
    by (rule Reconcile_drive_call) auto
  then show "\<exists>q\<in>set qs. \<exists>pm j. CGet q (Inr pm) \<in> set (drive (Reconcile e) qs []) \<and>
      Time_IsZero (om_DeletionTimestamp (pm_meta pm)) \<and>
      ContainsFinalizer e (pm_meta pm) finalizerName \<and> p = newPodForPodManager e pm j"
    using pm_calls_ok_createD [of e g rest p r] by auto
next
  assume "CDeletePod p r \<in> set (drive (Reconcile e) qs [])"
  then obtain q g rest where "q \<in> set qs" "pm_calls_ok e g rest" "CDeletePod p r \<in> set rest"
      and sub: "set (CGet q g # rest) \<subseteq> set (drive (Reconcile e) qs [])"
    by (rule Reconcile_drive_call) auto
  then show "\<exists>q\<in>set qs. \<exists>pm ns items. CGet q (Inr pm) \<in> set (drive (Reconcile e) qs []) \<and>
      ContainsFinalizer e (pm_meta pm) finalizerName \<and>
      CListPods ns (ownerLabels pm) (Inr items) \<in> set (drive (Reconcile e) qs []) \<and> p \<in> set items"
    using pm_calls_ok_deleteD [of e g rest p r] subsetD [OF sub] by (metis list.set_intros)
qed


theorem pm_touches_only_own_pods_witness:
  "CCreatePod (demo_pod 0) None \<in>
     set (drive (Reconcile (mem_env (\<lambda>_. demo_pm 1 [finalizerName] None []) [])) [demo_req] []) \<and>
   (\<exists>pm j. CGet demo_req (Inr pm) \<in>
        set (drive (Reconcile (mem_env (\<lambda>_. demo_pm 1 [finalizerName] None []) [])) [demo_req] []) \<and>
      demo_pod 0 = newPodForPodManager (mem_env (\<lambda>_. demo_pm 1 [finalizerName] None []) []) pm j)"
proof -
  let ?e = "mem_env (\<lambda>_. demo_pm 1 [finalizerName] None []) [] :: PodManager kube_env"
  have "newPodForPodManager ?e (demo_pm 1 [finalizerName] None []) 0 = demo_pod 0"
    by (simp add: demo_pod_def newPodForPodManager_def mem_env_def demo_pm_def pod_name_def ownerLabels_def)
  then have "CCreatePod (demo_pod 0) None \<in> set (drive (Reconcile ?e) [demo_req] [])"
    by (simp add: Reconcile_def reconcile_replicas_def adjust_pods_def create_pods.simps
        mem_env_def demo_pm_def mem_pods_def Time_IsZero_def Let_def status_of_def)
  with conjunct1 [OF pm_touches_only_own_pods, of "demo_pod 0" None ?e "[demo_req]"]
  show ?thesis by auto
qed

text \<open>C4. Scaling up converges in one run: against a consistent store of pods in which the names of
  the missing indices are free, a run creates exactly the pods \<open>length cur, ..., Replicas - 1\<close>,
  touches nothing else, and leaves exactly \<open>Replicas\<close> pods that carry the PodManager's labels.\<close>

theorem pm_scale_up_converges:
  assumes store: "pod_store e pods" and get: "api_Get e h q = Inr pm"
    and live: "Time_IsZero (om_DeletionTimestamp (pm_meta pm))"
    and fin: "ContainsFinalizer e (pm_meta pm) finalizerName"
    and ns: "nn_Namespace q = om_Namespace (pm_meta pm)"
    and cur: "cur = filter (selects (om_Namespace (pm_meta pm)) (ownerLabels pm)) (pods h)"
    and less: "int (length cur) < sint (spec_Replicas (pm_Spec pm))"
    and fresh: "\<forall>j. int (length cur) \<le> sint j \<and> sint j < sint (spec_Replicas (pm_Spec pm)) \<longrightarrow>
           pod_key (newPodForPodManager e pm j) \<notin> pod_key ` set (pods h)"
  shows "pods (snd (run_state (Reconcile e q) h)) = pods h @
      map (\<lambda>j. newPodForPodManager e pm (word_of_int j)) [int (length cur) .. sint (spec_Replicas (pm_Spec pm)) - 1] \<and>
    int (length (filter (selects (om_Namespace (pm_meta pm)) (ownerLabels pm))
      (pods (snd (run_state (Reconcile e q) h))))) = sint (spec_Replicas (pm_Spec pm))"
proof -
  let ?d = "spec_Replicas (pm_Spec pm)"
  define h1 where "h1 = h @ [CGet q (Inr pm)]"
  define h2 where "h2 = h1 @ [CListPods (nn_Namespace q) (ownerLabels pm) (Inr cur)]"
  have pods: "pods h1 = pods h" "pods h2 = pods h"
    unfolding h1_def h2_def by (simp_all only: pod_store_snoc_other(1,2) [OF store])
  have len: "length cur < 2 ^ 31" by (rule length_below_replicas [OF less])
  have list: "api_ListPods e h1 (nn_Namespace q) (ownerLabels pm) = Inr cur"
    by (simp add: pod_store_list [OF store] pods ns cur)
  have create: "fst (run_state (create_pods e pm (word_of_nat (length cur)) ?d) h2) = None"
      "pods (snd (run_state (create_pods e pm (word_of_nat (length cur)) ?d) h2)) =
       pods h @ map (\<lambda>j. newPodForPodManager e pm (word_of_int j)) [int (length cur) .. sint ?d - 1]"
    using create_pods_store [OF store, of "word_of_nat (length cur)" ?d pm h2] fresh
    unfolding sint32_of_nat [OF len] pods by simp_all
  obtain r h3 where run: "run_state (create_pods e pm (word_of_nat (length cur)) ?d) h2 = (r, h3)"
    by fastforce
  have "run_state (adjust_pods e pm cur) h2 = (Ret r, h3)"
    by (simp add: adjust_pods_up [OF len less] run)
  from reconcile_replicas_pods [OF store list this [unfolded h2_def]]
  have after: "pods (snd (run_state (Reconcile e q) h)) = pods h @
      map (\<lambda>j. newPodForPodManager e pm (word_of_int j)) [int (length cur) .. sint ?d - 1]"
    using create run by (simp add: Reconcile_live [OF get live fin] h1_def)
  then show ?thesis
    using less by (simp add: cur [symmetric] selects_new o_def)
qed

theorem pm_scale_up_converges_witness:
  "int (length (filter (selects ''default'' (ownerLabels (demo_pm 2 [finalizerName] None [])))
     (mem_pods [demo_pod 0] (snd (run_state
        (Reconcile (mem_env (\<lambda>_. demo_pm 2 [finalizerName] None []) [demo_pod 0]) demo_req) []))))) = 2"
proof -
  let ?pm = "demo_pm 2 [finalizerName] None []"
  let ?e = "mem_env (\<lambda>_. ?pm) [demo_pod 0] :: PodManager kube_env"
  have cur: "[demo_pod 0] = filter (selects (om_Namespace (pm_meta ?pm)) (ownerLabels ?pm)) (mem_pods [demo_pod 0] [])"
    by (simp add: mem_pods_def demo_pod_def selects_def newPodForPodManager_def ownerLabels_def demo_pm_def)
  have "pod_key (newPodForPodManager ?e ?pm j) \<notin> pod_key ` set (mem_pods [demo_pod 0] [])"
    if "int (length [demo_pod 0]) \<le> sint j" for j
  proof
    assume "pod_key (newPodForPodManager ?e ?pm j) \<in> pod_key ` set (mem_pods [demo_pod 0] [])"
    then have "pod_name ?pm j = pod_name ?pm 0"
      by (simp add: mem_pods_def demo_pod_def pod_key_new) (simp add: pod_name_def demo_pm_def)
    then show False using that by (auto dest: pod_name_inj)
  qed
  then have fresh: "\<forall>j. int (length [demo_pod 0]) \<le> sint j \<and> sint j < sint (spec_Replicas (pm_Spec ?pm)) \<longrightarrow>
      pod_key (newPodForPodManager ?e ?pm j) \<notin> pod_key ` set (mem_pods [demo_pod 0] [])"
    by blast
  have get: "api_Get ?e [] demo_req = Inr ?pm" and fin: "ContainsFinalizer ?e (pm_meta ?pm) finalizerName"
    by (simp_all add: mem_env_def demo_pm_def)
  have live: "Time_IsZero (om_DeletionTimestamp (pm_meta ?pm))"
    and ns: "nn_Namespace demo_req = om_Namespace (pm_meta ?pm)"
    and less: "int (length [demo_pod 0]) < sint (spec_Replicas (pm_Spec ?pm))"
    by (simp_all add: demo_pm_def Time_IsZero_def demo_req_def)
  have "om_Namespace (pm_meta ?pm) = ''default''" "sint (spec_Replicas (pm_Spec ?pm)) = 2"
    by (simp_all add: demo_pm_def)
  with conjunct2 [OF pm_scale_up_converges [OF mem_env_pod_store get live fin ns cur less fresh]]
  show ?thesis by simp
qed

text \<open>C5. Scaling down converges in one run: with prompt deletion and unique pod names, a run that
  lists more pods than \<open>Replicas\<close> deletes exactly the listed pods from index \<open>Replicas\<close> on and keeps every
  other pod of the store; the PodManager's pods are then the first \<open>Replicas\<close> listed ones.\<close>

theorem pm_scale_down_converges:
  assumes store: "pod_store e pods" and del: "prompt_delete e pods" and get: "api_Get e h q = Inr pm"
    and live: "Time_IsZero (om_DeletionTimestamp (pm_meta pm))"
    and fin: "ContainsFinalizer e (pm_meta pm) finalizerName"
    and ns: "nn_Namespace q = om_Namespace (pm_meta pm)"
    and dist: "distinct (map pod_key (pods h))"
    and cur: "cur = filter (selects (om_Namespace (pm_meta pm)) (ownerLabels pm)) (pods h)"
    and len: "length cur < 2 ^ 31" and d: "spec_Replicas (pm_Spec pm) = word_of_nat d" "d < length cur"
  shows "pods (snd (run_state (Reconcile e q) h)) =
      filter (\<lambda>p. pod_key p \<notin> pod_key ` set (drop d cur)) (pods h) \<and>
    filter (selects (om_Namespace (pm_meta pm)) (ownerLabels pm))
      (pods (snd (run_state (Reconcile e q) h))) = take d cur"
proof -
  let ?sel = "selects (om_Namespace (pm_meta pm)) (ownerLabels pm)"
  define h1 where "h1 = h @ [CGet q (Inr pm)]"
  define h2 where "h2 = h1 @ [CListPods (nn_Namespace q) (ownerLabels pm) (Inr cur)]"
  have pods: "pods h1 = pods h" "pods h2 = pods h"
    unfolding h1_def h2_def by (simp_all only: pod_store_snoc_other(1,2) [OF store])
  have list: "api_ListPods e h1 (nn_Namespace q) (ownerLabels pm) = Inr cur"
    by (simp add: pod_store_list [OF store] pods ns cur)
  have sd: "sint (spec_Replicas (pm_Spec pm)) = int d"
    using sint32_of_nat [of d] len d by simp
  have distc: "distinct (map pod_key cur)" using dist by (simp add: cur distinct_map_filter)
  obtain r h3 where run: "run_state (delete_pods e cur (spec_Replicas (pm_Spec pm)) (word_of_nat (length cur))) h2 = (r, h3)"
    by fastforce
  have "pod_key ` set (drop d cur) \<subseteq> pod_key ` set (pods h2)"
    using set_drop_subset [of d cur] by (auto simp: pods cur)
  with delete_pods_store [OF store del len, of "spec_Replicas (pm_Spec pm)" h2] distc d(2) sd run
  have h3: "pods h3 = filter (\<lambda>p. pod_key p \<notin> pod_key ` set (drop d cur)) (pods h)"
    by (simp add: pods)
  have "run_state (adjust_pods e pm cur) h2 = (r, h3)"
    using d(2) sd run by (simp add: adjust_pods_down [OF len])
  from reconcile_replicas_pods [OF store list this [unfolded h2_def]]
  have after: "pods (snd (run_state (Reconcile e q) h)) = filter (\<lambda>p. pod_key p \<notin> pod_key ` set (drop d cur)) (pods h)"
    by (simp add: h3 Reconcile_live [OF get live fin] h1_def)
  have "filter ?sel (filter (\<lambda>p. pod_key p \<notin> pod_key ` set (drop d cur)) (pods h)) =
      filter (\<lambda>p. pod_key p \<notin> pod_key ` set (drop d cur)) cur"
    by (simp add: cur conj_commute)
  also have "\<dots> = take d cur" by (rule filter_keys_drop [OF distc])
  finally show ?thesis using after by simp
qed



theorem pm_scale_down_converges_witness:
  "filter (selects ''default'' (ownerLabels (demo_pm 1 [finalizerName] None [])))
     (mem_pods [demo_pod 0, demo_pod 1] (snd (run_state
        (Reconcile (mem_env (\<lambda>_. demo_pm 1 [finalizerName] None []) [demo_pod 0, demo_pod 1]) demo_req) []))) =
   [demo_pod 0]"
proof -
  let ?pm = "demo_pm 1 [finalizerName] None []"
  let ?e = "mem_env (\<lambda>_. ?pm) [demo_pod 0, demo_pod 1] :: PodManager kube_env"
  have "pod_name ?pm 0 \<noteq> pod_name ?pm 1" by (auto dest: pod_name_inj)
  then have dist: "distinct (map pod_key (mem_pods [demo_pod 0, demo_pod 1] ([] :: PodManager call list)))"
    by (simp add: mem_pods_def demo_pod_def pod_key_new) (simp add: pod_name_def demo_pm_def)
  have cur: "[demo_pod 0, demo_pod 1] = filter (selects (om_Namespace (pm_meta ?pm)) (ownerLabels ?pm))
      (mem_pods [demo_pod 0, demo_pod 1] ([] :: PodManager call list))"
    by (simp add: mem_pods_def demo_pod_def selects_def newPodForPodManager_def ownerLabels_def demo_pm_def)
  have get: "api_Get ?e [] demo_req = Inr ?pm" and fin: "ContainsFinalizer ?e (pm_meta ?pm) finalizerName"
    by (simp_all add: mem_env_def demo_pm_def)
  have live: "Time_IsZero (om_DeletionTimestamp (pm_meta ?pm))"
    and ns: "nn_Namespace demo_req = om_Namespace (pm_meta ?pm)"
    and len: "length [demo_pod 0, demo_pod 1] < 2 ^ 31" "1 < length [demo_pod 0, demo_pod 1]"
    and d: "spec_Replicas (pm_Spec ?pm) = word_of_nat 1"
    by (simp_all add: demo_pm_def Time_IsZero_def demo_req_def)
  have "om_Namespace (pm_meta ?pm) = ''default''" by (simp add: demo_pm_def)
  with conjunct2 [OF pm_scale_down_converges
      [OF mem_env_pod_store mem_env_prompt_delete get live fin ns dist cur len(1) d len(2)]]
  show ?thesis by simp
qed

text \<open>C6. A PodManager whose status has no condition can never get one: the controller reads the
  transition time of \<open>Conditions[0]\<close> before it adds the first condition. If conditions appear only
  after a status update was sent, no history of runs contains a status update, and no run reaches its
  normal end, where it asks to be called again after thirty seconds.\<close>

theorem pm_status_never_bootstraps:
  assumes "\<forall>h q pm. api_Get e h q = Inr pm \<and> st_Conditions (pm_Status pm) \<noteq> [] \<longrightarrow>
      (\<exists>x r. CStatusUpdate x r \<in> set h)"
  shows "CStatusUpdate pm' r \<notin> set (drive (Reconcile e) qs []) \<and>
    (fst (run_state (Reconcile e q) (drive (Reconcile e) qs [])) = Ret (res, None) \<longrightarrow> RequeueAfter res = 0)"
proof -
  define none :: "PodManager call list \<Rightarrow> bool" where "none h \<longleftrightarrow> (\<forall>x r. CStatusUpdate x r \<notin> set h)" for h
  have step: "none (snd (run_state (Reconcile e q) h))" if "none h" for q h
  proof -
    obtain t where t: "snd (run_state (Reconcile e q) h) = h @ CGet q (api_Get e h q) # t"
        "pm_calls_ok e (api_Get e h q) t"
      using Reconcile_run by blast
    with that assms show ?thesis unfolding none_def
      by (metis (no_types, lifting) UnE call.distinct(9) pm_calls_ok_statusD set_ConsD set_append)
  qed
  have all: "none (drive (Reconcile e) qs h)" if "none h" for h
    using that by (induction qs arbitrary: h) (auto simp: step)
  then have now: "none (drive (Reconcile e) qs [])" by (simp add: none_def)
  have "RequeueAfter res = 0"
    if "fst (run_state (Reconcile e q) (drive (Reconcile e) qs [])) = Ret (res, None)"
    using Reconcile_requeue [OF that] step [OF now, of q] unfolding none_def by auto
  with now show ?thesis by (simp add: none_def)
qed


theorem pm_status_never_bootstraps_witness:
  "CStatusUpdate (demo_pm 1 [] None []) None \<notin>
     set (drive (Reconcile (mem_env (\<lambda>_. demo_pm 1 [finalizerName] None []) [])) [demo_req, demo_req] []) \<and>
   fst (run_state (Reconcile (mem_env (\<lambda>_. demo_pm 1 [finalizerName] None []) [])  demo_req) []) = Panic IndexOutOfRange"
proof -
  have "\<forall>h q pm. api_Get (mem_env (\<lambda>_. demo_pm 1 [finalizerName] None []) []) h q = Inr pm \<and>
      st_Conditions (pm_Status pm) \<noteq> [] \<longrightarrow> (\<exists>x r. CStatusUpdate x r \<in> set h)"
    by (auto simp: mem_env_def demo_pm_def)
  from conjunct1 [OF pm_status_never_bootstraps [OF this]] show ?thesis
    by (auto simp: Reconcile_def reconcile_replicas_def adjust_pods_def create_pods.simps
        mem_env_def demo_pm_def mem_pods_def Time_IsZero_def Let_def status_of_def)
qed

text \<open>C7. A gap in the pod indices blocks the operator for good: pods are named by the count of the
  listed pods, so when the name of the next index is taken (pod 0 of 0 and 1 was deleted, say), every run fails
  with AlreadyExists and the pods never change, however often the request is retried.\<close>

theorem pm_name_collision_stuck:
  assumes store: "pod_store e pods" and get: "\<forall>h. api_Get e h q = Inr pm"
    and live: "Time_IsZero (om_DeletionTimestamp (pm_meta pm))"
    and fin: "ContainsFinalizer e (pm_meta pm) finalizerName"
    and ns: "nn_Namespace q = om_Namespace (pm_meta pm)"
    and cur: "cur = filter (selects (om_Namespace (pm_meta pm)) (ownerLabels pm)) (pods h)"
    and less: "int (length cur) < sint (spec_Replicas (pm_Spec pm))"
    and taken: "pod_key (newPodForPodManager e pm (word_of_nat (length cur))) \<in> pod_key ` set (pods h)"
  shows "pods (drive (Reconcile e) (replicate n q) h) = pods h \<and>
    fst (run_state (Reconcile e q) (drive (Reconcile e) (replicate n q) h)) =
      Ret (Result0, Some (StatusError ReasonAlreadyExists ''already exists''))"
  using cur less taken
proof (induction n arbitrary: h)
  case 0
  then show ?case using Reconcile_taken [OF store spec [OF get] live fin ns] by simp
next
  case (Suc n)
  have same: "pods (snd (run_state (Reconcile e q) h)) = pods h"
    using Reconcile_taken [OF store spec [OF get] live fin ns Suc.prems] by simp
  from Suc.IH [of "snd (run_state (Reconcile e q) h)"] Suc.prems show ?case
    unfolding same by simp
qed

theorem pm_name_collision_stuck_witness:
  "mem_pods [demo_pod 1] (drive (Reconcile (mem_env (\<lambda>_. demo_pm 2 [finalizerName] None []) [demo_pod 1]))
     (replicate 1000 demo_req) []) = [demo_pod 1]"
proof -
  let ?pm = "demo_pm 2 [finalizerName] None []"
  let ?e = "mem_env (\<lambda>_. ?pm) [demo_pod 1] :: PodManager kube_env"
  have get: "\<forall>h. api_Get ?e h demo_req = Inr ?pm" and fin: "ContainsFinalizer ?e (pm_meta ?pm) finalizerName"
    by (simp_all add: mem_env_def demo_pm_def)
  have live: "Time_IsZero (om_DeletionTimestamp (pm_meta ?pm))"
    and ns: "nn_Namespace demo_req = om_Namespace (pm_meta ?pm)"
    and less: "int (length [demo_pod 1]) < sint (spec_Replicas (pm_Spec ?pm))"
    by (simp_all add: demo_pm_def Time_IsZero_def demo_req_def)
  have cur: "[demo_pod 1] = filter (selects (om_Namespace (pm_meta ?pm)) (ownerLabels ?pm)) (mem_pods [demo_pod 1] [])"
    by (simp add: mem_pods_def demo_pod_def selects_def newPodForPodManager_def ownerLabels_def demo_pm_def)
  have taken: "pod_key (newPodForPodManager ?e ?pm (word_of_nat (length [demo_pod 1]))) \<in>
      pod_key ` set (mem_pods [demo_pod 1] [])"
    by (simp add: mem_pods_def demo_pod_def pod_key_new) (simp add: pod_name_def demo_pm_def)
  have "mem_pods [demo_pod 1] ([] :: PodManager call list) = [demo_pod 1]" by (simp add: mem_pods_def)
  with conjunct1 [OF pm_name_collision_stuck [OF mem_env_pod_store get live fin ns cur less taken]]
  show ?thesis by simp
qed

text \<open>C8. The status a run writes: \<open>CurrentReplicas\<close> and \<open>ReadyReplicas\<close> are the number of listed
  pods and the number of those that run and are ready, and the status of the Ready condition is True
  exactly when all the (at least one) desired pods are ready; other conditions stay as they were.\<close>

theorem pm_status_counts:
  assumes "length items < 2 ^ 31" and "status_of pm items = Ret pm'"
  shows "sint (st_CurrentReplicas (pm_Status pm')) = int (length items) \<and>
    sint (st_ReadyReplicas (pm_Status pm')) = int (length (filter pod_ready items)) \<and>
    map_option cond_Status (find (\<lambda>c. cond_Type c = ''Ready'') (st_Conditions (pm_Status pm'))) =
      Some (if int (length (filter pod_ready items)) = sint (spec_Replicas (pm_Spec pm)) \<and>
               0 < sint (spec_Replicas (pm_Spec pm)) then ''True'' else ''False'') \<and>
    (\<forall>ty. ty \<noteq> ''Ready'' \<longrightarrow> find (\<lambda>c. cond_Type c = ty) (st_Conditions (pm_Status pm')) =
      find (\<lambda>c. cond_Type c = ty) (st_Conditions (pm_Status pm)))"
proof -
  obtain c0 :: PodCondition where pm': "pm' = pm\<lparr>pm_Status := SetCondition ((pm_Status pm)\<lparr>st_ReadyReplicas := count_ready 0 items,
      st_CurrentReplicas := word_of_nat (length items)\<rparr>)
      (ready_condition (cond_LastTransitionTime c0) (count_ready 0 items) (spec_Replicas (pm_Spec pm)))\<rparr>"
    using assms(2) by (auto simp: status_of_def Let_def split: outcome.splits)
  have ready: "sint (count_ready 0 items) = int (length (filter pod_ready items))"
    using count_ready_filter [of 0 items] assms(1) by simp
  have eq: "count_ready 0 items = spec_Replicas (pm_Spec pm) \<longleftrightarrow>
      int (length (filter pod_ready items)) = sint (spec_Replicas (pm_Spec pm))"
    by (metis ready signed_word_eqI)
  show ?thesis
    using set_condition_find [of "ready_condition (cond_LastTransitionTime c0) (count_ready 0 items)
        (spec_Replicas (pm_Spec pm))" "st_Conditions (pm_Status pm)"]
    unfolding pm' by (simp add: SetCondition_def ready sint32_of_nat [OF assms(1)] eq set_condition_find_other)
qed


theorem pm_status_counts_witness:
  "\<exists>pm'. status_of (demo_pm 0 [] None [ready_condition 5 0 0]) [demo_pod 0, demo_pod 1] = Ret pm' \<and>
     sint (st_CurrentReplicas (pm_Status pm')) = 2"
proof -
  have "\<exists>pm'. status_of (demo_pm 0 [] None [ready_condition 5 0 0]) [demo_pod 0, demo_pod 1] = Ret pm'"
    by (simp add: status_of_def demo_pm_def Let_def)
  then obtain pm' where run: "status_of (demo_pm 0 [] None [ready_condition 5 0 0]) [demo_pod 0, demo_pod 1] = Ret pm'" ..
  with pm_status_counts [OF _ run] show ?thesis by simp
qed

text \<open>C9. Setting a condition: types stay unique, the first condition of that type afterwards has the new
  status, every other type is untouched, setting it twice is setting it once; a condition whose status does not
  change keeps its old message and transition time. Removing a type from unique conditions leaves exactly the
  others, and removing a type that was just added restores the list.\<close>

theorem SetCondition_spec:
  "(distinct (map cond_Type (st_Conditions m)) \<longrightarrow> distinct (map cond_Type (st_Conditions (SetCondition m c)))) \<and>
   map_option cond_Status (find (\<lambda>x. cond_Type x = cond_Type c) (st_Conditions (SetCondition m c))) = Some (cond_Status c) \<and>
   (\<forall>ty. ty \<noteq> cond_Type c \<longrightarrow>
      find (\<lambda>x. cond_Type x = ty) (st_Conditions (SetCondition m c)) = find (\<lambda>x. cond_Type x = ty) (st_Conditions m)) \<and>
   SetCondition (SetCondition m c) c = SetCondition m c \<and>
   (map_option cond_Status (find (\<lambda>x. cond_Type x = cond_Type c) (st_Conditions m)) = Some (cond_Status c) \<longrightarrow>
      SetCondition m c = m) \<and>
   (distinct (map cond_Type (st_Conditions m)) \<longrightarrow>
      st_Conditions (RemoveCondition m ty') = filter (\<lambda>x. cond_Type x \<noteq> ty') (st_Conditions m)) \<and>
   (cond_Type c \<notin> cond_Type ` set (st_Conditions m) \<longrightarrow>
      RemoveCondition (SetCondition m c) (cond_Type c) = m)"
  by (simp add: SetCondition_def RemoveCondition_def set_condition_types set_condition_find
      set_condition_find_other set_condition_idem remove_condition_distinct set_condition_same set_remove_condition)

theorem SetCondition_spec_witness:
  "RemoveCondition (SetCondition (pm_Status (demo_pm 0 [] None [])) (ready_condition 5 0 0)) ''Ready'' =
     pm_Status (demo_pm 0 [] None [])"
  using SetCondition_spec [of "pm_Status (demo_pm 0 [] None [])" "ready_condition 5 0 0"]
  by (simp add: demo_pm_def)

end
