(* ===== verification/Finalizer_Example.thy ===== *)
theory Finalizer_Example
  imports Kube_Api
begin

text \<open>
  The SimpleApp controller of \<open>src/finalizer-example/finalizer.go\<close>: one pod per SimpleApp, and a
  finalizer that is removed only by a run that finds no pod left.

  The resource type \<open>SimpleApp\<close> and its group and version are declared in a package that is not part
  of the repository. The record below has the fields the controller uses; the other fields are the
  record's type parameter \<open>'x\<close>, and the group, version and kind are the argument \<open>gvk\<close>.
\<close>

section \<open>Definitions\<close>

record SimpleApp =
  sa_meta :: ObjectMeta
  sa_Image :: string
  sa_Ready :: bool
  sa_ObservedGeneration :: int64

definition sa_finalizerName :: string where
  "sa_finalizerName = ''simpleapp.example.com/finalizer''"

definition sa_labels :: "'x SimpleApp_scheme \<Rightarrow> entries" where
  "sa_labels app = [(''app'', om_Name (sa_meta app)), (''managed-by'', ''simpleapp-controller'')]"

definition sa_pod :: "'x SimpleApp_scheme kube_env \<Rightarrow> GroupVersionKind \<Rightarrow> 'x SimpleApp_scheme \<Rightarrow> Pod" where
  "sa_pod e gvk app = \<lparr>
     pod_meta = meta0\<lparr>om_Name := om_Name (sa_meta app) @ ''-pod'',
       om_Namespace := om_Namespace (sa_meta app),
       om_Labels := Some (sa_labels app),
       om_OwnerReferences := [NewControllerRef e (sa_meta app) gvk]\<rparr>,
     pod_spec = \<lparr>ps_Containers = [\<lparr>ct_Name = ''app'', ct_Image = sa_Image app, ct_Ports = []\<rparr>],
       ps_RestartPolicy = ''''\<rparr>,
     pod_status = \<lparr>pst_Phase = '''', pst_Conditions = []\<rparr>\<rparr>"

definition reconcilePods :: "'x SimpleApp_scheme kube_env \<Rightarrow> GroupVersionKind \<Rightarrow> 'x SimpleApp_scheme \<Rightarrow>
    ('x SimpleApp_scheme, go_error option) kube" where
  "reconcilePods e gvk app = do {
     l \<leftarrow> k_ListPods e (om_Namespace (sa_meta app)) (sa_labels app);
     (case l of
        Inl err \<Rightarrow> return (Some err)
      | Inr items \<Rightarrow>
          (let desired = 1 :: int32; current = word_of_nat (length items) :: int32 in
           if sint current < sint desired then k_CreatePod e (sa_pod e gvk app)
           else return None))
   }"

text \<open>The external clean-up is a log message; it never fails.\<close>

definition cleanupExternalResources :: "'x SimpleApp_scheme \<Rightarrow> ('x SimpleApp_scheme, go_error option) kube" where
  "cleanupExternalResources app = return None"

fun sa_delete_pods :: "'x SimpleApp_scheme kube_env \<Rightarrow> Pod list \<Rightarrow> ('x SimpleApp_scheme, go_error option) kube" where
  "sa_delete_pods e [] = return None"
| "sa_delete_pods e (pod # pods) = do {
     r \<leftarrow> k_DeletePod e pod;
     (case r of
        Some err \<Rightarrow> if \<not> IsNotFound err then return (Some err) else sa_delete_pods e pods
      | None \<Rightarrow> sa_delete_pods e pods)
   }"

definition handleDeletion :: "'x SimpleApp_scheme kube_env \<Rightarrow> 'x SimpleApp_scheme \<Rightarrow>
    ('x SimpleApp_scheme, ctrl_result \<times> go_error option) kube" where
  "handleDeletion e app =
     (if \<not> ContainsFinalizer e (sa_meta app) sa_finalizerName then return (Result0, None)
      else do {
        l \<leftarrow> k_ListPods e (om_Namespace (sa_meta app)) (sa_labels app);
        (case l of
           Inl err \<Rightarrow> return (Result0, Some err)
         | Inr items \<Rightarrow> do {
             d \<leftarrow> sa_delete_pods e items;
             (case d of
                Some err \<Rightarrow> return (Result0, Some err)
              | None \<Rightarrow>
                  if 0 < length items then return (Result0\<lparr>RequeueAfter := Second * 5\<rparr>, None)
                  else do {
                    c \<leftarrow> cleanupExternalResources app;
                    (case c of
                       Some err \<Rightarrow> return (Result0, Some err)
                     | None \<Rightarrow> do {
                         u \<leftarrow> k_Update e (app\<lparr>sa_meta := RemoveFinalizer e (sa_meta app) sa_finalizerName\<rparr>);
                         return (Result0, u)
                       })
                  })
           })
      })"

definition sa_Reconcile :: "'x SimpleApp_scheme kube_env \<Rightarrow> GroupVersionKind \<Rightarrow> NamespacedName \<Rightarrow>
    ('x SimpleApp_scheme, ctrl_result \<times> go_error option) kube" where
  "sa_Reconcile e gvk req = do {
     g \<leftarrow> k_Get e req;
     (case g of
        Inl err \<Rightarrow> if IsNotFound err then return (Result0, None) else return (Result0, Some err)
      | Inr app \<Rightarrow>
          if \<not> Time_IsZero (om_DeletionTimestamp (sa_meta app)) then handleDeletion e app
          else if \<not> ContainsFinalizer e (sa_meta app) sa_finalizerName then do {
            u \<leftarrow> k_Update e (app\<lparr>sa_meta := AddFinalizer e (sa_meta app) sa_finalizerName\<rparr>);
            (case u of
               Some err \<Rightarrow> return (Result0, Some err)
             | None \<Rightarrow> return (Result0\<lparr>Requeue := True\<rparr>, None))
          }
          else do {
            p \<leftarrow> reconcilePods e gvk app;
            (case p of
               Some err \<Rightarrow> return (Result0, Some err)
             | None \<Rightarrow> do {
                 u \<leftarrow> k_StatusUpdate e (app\<lparr>sa_Ready := True, sa_ObservedGeneration := om_Generation (sa_meta app)\<rparr>);
                 (case u of
                    Some err \<Rightarrow> return (Result0, Some err)
                  | None \<Rightarrow> return (Result0\<lparr>RequeueAfter := Minute * 5\<rparr>, None))
               })
          })
   }"

subsection \<open>The contract of a run\<close>

text \<open>
  Whatever the server replies, after reading the app a run makes one of four kinds of calls: none;
  one update that adds the finalizer to a live app; a list, at most one create of the app's own pod,
  and a status update, for a live app that holds the finalizer; or a list, deletes of listed pods and,
  only after an empty list, one update that removes the finalizer, for an app that is being deleted.
\<close>

definition sa_live_calls :: "Pod \<Rightarrow> 'o \<Rightarrow> 'o call list \<Rightarrow> bool" where
  "sa_live_calls pod st t \<longleftrightarrow> t = [] \<or> (\<exists>r. t = [CCreatePod pod r]) \<or> (\<exists>u. t = [CStatusUpdate st u]) \<or>
     (\<exists>u. t = [CCreatePod pod None, CStatusUpdate st u])"

definition sa_calls_ok :: "'x SimpleApp_scheme kube_env \<Rightarrow> GroupVersionKind \<Rightarrow> go_error + 'x SimpleApp_scheme \<Rightarrow>
    'x SimpleApp_scheme call list \<Rightarrow> bool" where
  "sa_calls_ok e gvk g rest \<longleftrightarrow> rest = [] \<or>
     (\<exists>app. g = Inr app \<and>
       (if Time_IsZero (om_DeletionTimestamp (sa_meta app)) then
          (if ContainsFinalizer e (sa_meta app) sa_finalizerName then
             (\<exists>l t. rest = CListPods (om_Namespace (sa_meta app)) (sa_labels app) l # t \<and>
                sa_live_calls (sa_pod e gvk app)
                  (app\<lparr>sa_Ready := True, sa_ObservedGeneration := om_Generation (sa_meta app)\<rparr>) t)
           else \<exists>r. rest = [CUpdate (app\<lparr>sa_meta := AddFinalizer e (sa_meta app) sa_finalizerName\<rparr>) r])
        else ContainsFinalizer e (sa_meta app) sa_finalizerName \<and>
          (\<exists>l dels us. rest = CListPods (om_Namespace (sa_meta app)) (sa_labels app) l # dels @ us \<and>
             (\<forall>c\<in>set dels. \<exists>p r items. c = CDeletePod p r \<and> l = Inr items \<and> p \<in> set items) \<and>
             (us = [] \<or> l = Inr [] \<and> dels = [] \<and>
                (\<exists>r. us = [CUpdate (app\<lparr>sa_meta := RemoveFinalizer e (sa_meta app) sa_finalizerName\<rparr>) r])))))"

definition sa_contract :: "'x SimpleApp_scheme kube_env \<Rightarrow> GroupVersionKind \<Rightarrow> NamespacedName \<Rightarrow>
    'x SimpleApp_scheme call list \<Rightarrow> bool" where
  "sa_contract e gvk q seg \<longleftrightarrow>
     (\<exists>h rest. seg = CGet q (api_Get e h q) # rest \<and> sa_calls_ok e gvk (api_Get e h q) rest)"

subsection \<open>An example resource\<close>

definition demo_app :: "int option \<Rightarrow> SimpleApp" where
  "demo_app deleted = \<lparr>sa_meta = meta0\<lparr>om_Name := ''web'', om_Namespace := ''default'',
     om_DeletionTimestamp := deleted, om_Finalizers := [sa_finalizerName]\<rparr>,
     sa_Image = ''nginx'', sa_Ready = False, sa_ObservedGeneration = 0\<rparr>"

definition demo_app_of :: "SimpleApp call list \<Rightarrow> SimpleApp" where
  "demo_app_of h = demo_app (Some 3)"

definition demo_gvk :: GroupVersionKind where
  "demo_gvk = \<lparr>gvk_Group = ''example.com'', gvk_Version = ''v1'', gvk_Kind = ''SimpleApp''\<rparr>"

definition demo_app_req :: NamespacedName where
  "demo_app_req = \<lparr>nn_Namespace = ''default'', nn_Name = ''web''\<rparr>"

section \<open>Lemmas\<close>

lemma emits_sa_delete_pods:
  "emits (sa_delete_pods e items) (\<lambda>r seg. (\<forall>c\<in>set seg. \<exists>p r. c = CDeletePod p r \<and> p \<in> set items) \<and>
     (items = [] \<longrightarrow> seg = []))"
proof (induction items)
  case (Cons p ps)
  show ?case unfolding sa_delete_pods.simps
    by (intro emits_intros) (force intro: emits_mono [OF Cons.IH])+
qed simp

lemma emits_handleDeletion:
  assumes "\<not> Time_IsZero (om_DeletionTimestamp (sa_meta app))"
  shows "emits (handleDeletion e app) (\<lambda>r rest. sa_calls_ok e gvk (Inr app) rest)"
  unfolding handleDeletion_def sa_calls_ok_def cleanupExternalResources_def
  using assms
  by (intro emits_intros, simp_all)
    (force intro!: emits_mono [OF emits_sa_delete_pods] emits_intros)

lemma emits_reconcilePods:
  "emits (reconcilePods e gvk app) (\<lambda>r seg. \<exists>l.
     seg = [CListPods (om_Namespace (sa_meta app)) (sa_labels app) l] \<or>
     seg = [CListPods (om_Namespace (sa_meta app)) (sa_labels app) l, CCreatePod (sa_pod e gvk app) r])"
  unfolding reconcilePods_def Let_def by (intro emits_intros) auto

lemma sa_Reconcile_run:
  "\<exists>t. snd (run_state (sa_Reconcile e gvk q) h) = h @ CGet q (api_Get e h q) # t \<and>
     sa_calls_ok e gvk (api_Get e h q) t"
  unfolding sa_Reconcile_def k_Get_def
  by (rule emits_first_call [where Q = "\<lambda>g x t. sa_calls_ok e gvk g t"],
      intro emits_intros emits_mono [OF emits_reconcilePods])
    (simp_all add: emits_handleDeletion,
      auto intro!: emits_intros simp: sa_calls_ok_def sa_live_calls_def)

lemma emits_sa_Reconcile: "emits (sa_Reconcile e gvk q) (\<lambda>r seg. sa_contract e gvk q seg)"
  unfolding emits_def sa_contract_def using sa_Reconcile_run by metis

interpretation sar: reconciler "sa_Reconcile e gvk" "sa_contract e gvk" for e gvk
  by unfold_locales (rule emits_sa_Reconcile)

lemma pods_delete_step:
  assumes "pod_store e pods" "prompt_delete e pods"
  shows "pods (h @ [CDeletePod p (api_DeletePod e h p)]) = filter (\<lambda>x. pod_key x \<noteq> pod_key p) (pods h) \<and>
    (\<forall>err. api_DeletePod e h p = Some err \<longrightarrow> IsNotFound err)"
proof (cases "pod_key p \<in> pod_key ` set (pods h)")
  case True
  with assms(2) show ?thesis by (simp add: prompt_delete_def)
next
  case False
  then have "filter (\<lambda>x. pod_key x \<noteq> pod_key p) (pods h) = pods h" by (intro filter_True) (metis imageI)
  with False assms(2) pod_store_snoc_other(4) [OF assms(1)] show ?thesis by (simp add: prompt_delete_def)
qed

lemma sa_delete_pods_store:
  assumes "pod_store e pods" "prompt_delete e pods"
  shows "fst (run_state (sa_delete_pods e items) h) = None \<and>
    pods (snd (run_state (sa_delete_pods e items) h)) = filter (\<lambda>p. pod_key p \<notin> pod_key ` set items) (pods h)"
proof (induction items arbitrary: h)
  case (Cons p ps)
  have "run_state (sa_delete_pods e (p # ps)) h =
      run_state (sa_delete_pods e ps) (h @ [CDeletePod p (api_DeletePod e h p)])"
    using pods_delete_step [OF assms, of h p] by (auto split: option.splits)
  with Cons.IH [of "h @ [CDeletePod p (api_DeletePod e h p)]"] pods_delete_step [OF assms, of h p]
  show ?case by (simp add: conj_commute)
qed simp

lemma sa_Reconcile_deleting:
  assumes "api_Get e h q = Inr app" "\<not> Time_IsZero (om_DeletionTimestamp (sa_meta app))"
    and "ContainsFinalizer e (sa_meta app) sa_finalizerName"
    and "api_ListPods e (h @ [CGet q (Inr app)]) (om_Namespace (sa_meta app)) (sa_labels app) = Inr items"
    and "run_state (sa_delete_pods e items) (h @ [CGet q (Inr app), CListPods (om_Namespace (sa_meta app)) (sa_labels app) (Inr items)]) = (None, h')"
  shows "run_state (sa_Reconcile e gvk q) h =
    (if items = [] then
       let x = app\<lparr>sa_meta := RemoveFinalizer e (sa_meta app) sa_finalizerName\<rparr> in
       ((Result0, api_Update e h' x), h' @ [CUpdate x (api_Update e h' x)])
     else ((Result0\<lparr>RequeueAfter := Second * 5\<rparr>, None), h'))"
  using assms by (simp add: sa_Reconcile_def handleDeletion_def cleanupExternalResources_def Let_def)

lemma sa_deleting_lists:
  assumes get: "api_Get e h q = Inr app" and del: "\<not> Time_IsZero (om_DeletionTimestamp (sa_meta app))"
    and fin: "ContainsFinalizer e (sa_meta app) sa_finalizerName"
  shows "\<exists>rest. snd (run_state (sa_Reconcile e gvk q) h) = h @ CGet q (Inr app) #
    CListPods (om_Namespace (sa_meta app)) (sa_labels app)
      (api_ListPods e (h @ [CGet q (Inr app)]) (om_Namespace (sa_meta app)) (sa_labels app)) # rest"
proof -
  have "run_state (sa_Reconcile e gvk q) h = run_state (handleDeletion e app) (h @ [CGet q (Inr app)])"
    using get del by (simp add: sa_Reconcile_def)
  moreover have "\<exists>t. snd (run_state (handleDeletion e app) h1) = h1 @
      CListPods (om_Namespace (sa_meta app)) (sa_labels app)
        (api_ListPods e h1 (om_Namespace (sa_meta app)) (sa_labels app)) # t \<and> True" for h1
    unfolding handleDeletion_def k_ListPods_def using fin
    by (simp only: not_True_eq_False if_False)
      (rule emits_first_call [where Q = "\<lambda>g x t. True"],
        intro emits_intros emits_mono [OF emits_sa_delete_pods], auto intro!: emits_intros simp: cleanupExternalResources_def)
  ultimately show ?thesis by (metis append.assoc append_Cons append_Nil)
qed

lemma sa_deletion_step:
  assumes store: "pod_store e pods" and pd: "prompt_delete e pods" and get: "api_Get e h q = Inr app"
    and del: "\<not> Time_IsZero (om_DeletionTimestamp (sa_meta app))"
    and fin: "ContainsFinalizer e (sa_meta app) sa_finalizerName"
  shows "if filter (selects (om_Namespace (sa_meta app)) (sa_labels app)) (pods h) = []
    then \<exists>h' r. snd (run_state (sa_Reconcile e gvk q) h) =
      h' @ [CUpdate (app\<lparr>sa_meta := RemoveFinalizer e (sa_meta app) sa_finalizerName\<rparr>) r]
    else \<exists>h'. run_state (sa_Reconcile e gvk q) h = ((Result0\<lparr>RequeueAfter := Second * 5\<rparr>, None), h') \<and>
      pods h' = filter (\<lambda>p. pod_key p \<notin>
        pod_key ` set (filter (selects (om_Namespace (sa_meta app)) (sa_labels app)) (pods h))) (pods h)"
proof -
  let ?cur = "filter (selects (om_Namespace (sa_meta app)) (sa_labels app)) (pods h)"
  define h1 where "h1 = h @ [CGet q (Inr app)]"
  define h2 where "h2 = h1 @ [CListPods (om_Namespace (sa_meta app)) (sa_labels app) (Inr ?cur)]"
  have pods: "pods h1 = pods h" "pods h2 = pods h"
    unfolding h1_def h2_def by (simp_all only: pod_store_snoc_other(1,2) [OF store])
  have list: "api_ListPods e h1 (om_Namespace (sa_meta app)) (sa_labels app) = Inr ?cur"
    by (simp add: pod_store_list [OF store] pods)
  obtain h3 where run: "run_state (sa_delete_pods e ?cur) h2 = (None, h3)"
    and p3: "pods h3 = filter (\<lambda>p. pod_key p \<notin> pod_key ` set ?cur) (pods h)"
    using sa_delete_pods_store [OF store pd, of ?cur h2] pods by (metis prod.collapse)
  have "h2 = h @ [CGet q (Inr app), CListPods (om_Namespace (sa_meta app)) (sa_labels app) (Inr ?cur)]"
    by (simp add: h1_def h2_def)
  from sa_Reconcile_deleting [OF get del fin list [unfolded h1_def] run [unfolded this], of gvk] p3
  show ?thesis by (simp add: Let_def)
qed

section \<open>Properties\<close>

text \<open>C10. A SimpleApp that is being deleted gives up its finalizer only in a run that found no pod of the
  app: the run reads the app, gets an empty list and updates the app, and does nothing else. With a
  consistent store of pods, no pod of the app is stored at that moment.\<close>

theorem sa_finalizer_needs_no_pods:
  assumes get: "api_Get e h q = Inr app" and del: "\<not> Time_IsZero (om_DeletionTimestamp (sa_meta app))"
    and upd: "CUpdate x r \<in> set (new_calls h (snd (run_state (sa_Reconcile e gvk q) h)))"
  shows "new_calls h (snd (run_state (sa_Reconcile e gvk q) h)) =
      [CGet q (Inr app), CListPods (om_Namespace (sa_meta app)) (sa_labels app) (Inr []), CUpdate x r] \<and>
    x = app\<lparr>sa_meta := RemoveFinalizer e (sa_meta app) sa_finalizerName\<rparr> \<and>
    (pod_store e pods \<longrightarrow> filter (selects (om_Namespace (sa_meta app)) (sa_labels app)) (pods h) = [])"
proof -
  obtain t where t: "snd (run_state (sa_Reconcile e gvk q) h) = h @ CGet q (Inr app) # t"
      "sa_calls_ok e gvk (Inr app) t"
    using sa_Reconcile_run [of e gvk q h] get by auto
  with upd have "CUpdate x r \<in> set t" by simp
  with t(2) del have t': "t = [CListPods (om_Namespace (sa_meta app)) (sa_labels app) (Inr []), CUpdate x r]"
      "x = app\<lparr>sa_meta := RemoveFinalizer e (sa_meta app) sa_finalizerName\<rparr>"
    by (auto simp: sa_calls_ok_def)
  moreover have "filter (selects (om_Namespace (sa_meta app)) (sa_labels app)) (pods h) = []" if store: "pod_store e pods"
  proof -
    have fin: "ContainsFinalizer e (sa_meta app) sa_finalizerName" using t(2) t' del by (auto simp: sa_calls_ok_def)
    have "api_ListPods e (h @ [CGet q (Inr app)]) (om_Namespace (sa_meta app)) (sa_labels app) =
        Inr (filter (selects (om_Namespace (sa_meta app)) (sa_labels app)) (pods h))"
      by (simp add: pod_store_list [OF store] pod_store_snoc_other(1) [OF store])
    moreover obtain rest where "snd (run_state (sa_Reconcile e gvk q) h) = h @ CGet q (Inr app) #
        CListPods (om_Namespace (sa_meta app)) (sa_labels app)
          (api_ListPods e (h @ [CGet q (Inr app)]) (om_Namespace (sa_meta app)) (sa_labels app)) # rest"
      using sa_deleting_lists [OF get del fin] by blast
    ultimately show ?thesis using t t' by simp
  qed
  ultimately show ?thesis using t(1) by simp
qed


theorem sa_finalizer_needs_no_pods_witness:
  "new_calls [] (snd (run_state (sa_Reconcile (mem_env (\<lambda>_. demo_app (Some 3)) []) demo_gvk demo_app_req) [])) =
     [CGet demo_app_req (Inr (demo_app (Some 3))), CListPods ''default'' (sa_labels (demo_app (Some 3))) (Inr []),
      CUpdate ((demo_app (Some 3))\<lparr>sa_meta := (sa_meta (demo_app (Some 3)))\<lparr>om_Finalizers := []\<rparr>\<rparr>) None]"
proof -
  let ?e = "mem_env (\<lambda>_. demo_app (Some 3)) []"
  have get: "api_Get ?e [] demo_app_req = Inr (demo_app (Some 3))"
    and del: "\<not> Time_IsZero (om_DeletionTimestamp (sa_meta (demo_app (Some 3))))"
    by (simp_all add: mem_env_def demo_app_def Time_IsZero_def)
  have "CUpdate ((demo_app (Some 3))\<lparr>sa_meta := (sa_meta (demo_app (Some 3)))\<lparr>om_Finalizers := []\<rparr>\<rparr>) None \<in>
      set (new_calls [] (snd (run_state (sa_Reconcile ?e demo_gvk demo_app_req) [])))"
    by (simp add: sa_Reconcile_def handleDeletion_def cleanupExternalResources_def mem_env_def demo_app_def
        mem_pods_def Time_IsZero_def new_calls_def sa_finalizerName_def)
  from sa_finalizer_needs_no_pods [OF get del this] show ?thesis by (simp add: demo_app_def)
qed

text \<open>C11. Deletion finishes: with a consistent store and prompt deletion, the first run on an app that is being
  deleted removes exactly its pods and, if there were any, asks to be called again after five seconds;
  the second run removes the finalizer as its last call.\<close>

theorem sa_deletion_finishes:
  assumes store: "pod_store e pods" and pd: "prompt_delete e pods" and get: "\<forall>h. api_Get e h q = Inr app"
    and del: "\<not> Time_IsZero (om_DeletionTimestamp (sa_meta app))"
    and fin: "ContainsFinalizer e (sa_meta app) sa_finalizerName"
    and cur: "cur = filter (selects (om_Namespace (sa_meta app)) (sa_labels app)) (pods h)"
    and some: "cur \<noteq> []"
  shows "fst (run_state (sa_Reconcile e gvk q) h) = (Result0\<lparr>RequeueAfter := Second * 5\<rparr>, None) \<and>
    pods (drive (sa_Reconcile e gvk) [q] h) = filter (\<lambda>p. pod_key p \<notin> pod_key ` set cur) (pods h) \<and>
    (\<exists>h' r. drive (sa_Reconcile e gvk) [q, q] h =
       h' @ [CUpdate (app\<lparr>sa_meta := RemoveFinalizer e (sa_meta app) sa_finalizerName\<rparr>) r])"
proof -
  let ?sel = "selects (om_Namespace (sa_meta app)) (sa_labels app)"
  have first: "run_state (sa_Reconcile e gvk q) h = ((Result0\<lparr>RequeueAfter := Second * 5\<rparr>, None), h') \<and>
      pods h' = filter (\<lambda>p. pod_key p \<notin> pod_key ` set cur) (pods h)"
    if "h' = snd (run_state (sa_Reconcile e gvk q) h)" for h'
    using sa_deletion_step [OF store pd spec [OF get] del fin, of h gvk] some that unfolding cur by auto
  let ?h1 = "snd (run_state (sa_Reconcile e gvk q) h)"
  have "filter ?sel (pods ?h1) = []"
    using first [OF refl] by (auto simp: cur filter_empty_conv)
  with sa_deletion_step [OF store pd spec [OF get] del fin, of ?h1 gvk]
  have "\<exists>h' r. snd (run_state (sa_Reconcile e gvk q) ?h1) =
      h' @ [CUpdate (app\<lparr>sa_meta := RemoveFinalizer e (sa_meta app) sa_finalizerName\<rparr>) r]"
    by (simp only: simp_thms if_True)
  moreover have "fst (run_state (sa_Reconcile e gvk q) h) = (Result0\<lparr>RequeueAfter := Second * 5\<rparr>, None)"
    using first [OF refl] by (metis fst_conv)
  moreover have "pods ?h1 = filter (\<lambda>p. pod_key p \<notin> pod_key ` set cur) (pods h)"
    using first [OF refl] by blast
  ultimately show ?thesis by (simp only: drive.simps simp_thms)
qed

theorem sa_deletion_finishes_witness:
  "mem_pods [sa_pod (mem_env demo_app_of []) demo_gvk (demo_app (Some 3))]
     (drive (sa_Reconcile (mem_env demo_app_of [sa_pod (mem_env demo_app_of []) demo_gvk (demo_app (Some 3))]) demo_gvk)
       [demo_app_req] []) = []"
proof -
  let ?p = "sa_pod (mem_env demo_app_of []) demo_gvk (demo_app (Some 3))"
  let ?e = "mem_env demo_app_of [?p]"
  have get: "\<forall>h. api_Get ?e h demo_app_req = Inr (demo_app (Some 3))"
    and fin: "ContainsFinalizer ?e (sa_meta (demo_app (Some 3))) sa_finalizerName"
    by (simp_all add: mem_env_def demo_app_def demo_app_of_def)
  have del: "\<not> Time_IsZero (om_DeletionTimestamp (sa_meta (demo_app (Some 3))))"
    by (simp add: demo_app_def Time_IsZero_def)
  have cur: "[?p] = filter (selects (om_Namespace (sa_meta (demo_app (Some 3)))) (sa_labels (demo_app (Some 3))))
      (mem_pods [?p] [])"
    by (simp add: mem_pods_def sa_pod_def selects_def sa_labels_def)
  have "mem_pods [?p] ([] :: SimpleApp call list) = [?p]" by (simp add: mem_pods_def)
  with sa_deletion_finishes [OF mem_env_pod_store mem_env_prompt_delete get del fin cur, of demo_gvk]
  show ?thesis by simp
qed

text \<open>A live app that holds the finalizer ends every run with at least one pod: if no pod carries its
  labels and its pod name is free, exactly that pod is created, otherwise the pods are left alone; then
  the status is written with Ready set and ObservedGeneration equal to the generation that was read.\<close>

theorem sa_ensures_one_pod:
  assumes store: "pod_store e pods" and get: "api_Get e h q = Inr app"
    and live: "Time_IsZero (om_DeletionTimestamp (sa_meta app))"
    and fin: "ContainsFinalizer e (sa_meta app) sa_finalizerName"
    and cur: "cur = filter (selects (om_Namespace (sa_meta app)) (sa_labels app)) (pods h)"
    and len: "length cur < 2 ^ 31"
    and free: "cur = [] \<longrightarrow> pod_key (sa_pod e gvk app) \<notin> pod_key ` set (pods h)"
  shows "pods (snd (run_state (sa_Reconcile e gvk q) h)) = pods h @ (if cur = [] then [sa_pod e gvk app] else []) \<and>
    filter (selects (om_Namespace (sa_meta app)) (sa_labels app)) (pods (snd (run_state (sa_Reconcile e gvk q) h))) \<noteq> [] \<and>
    (\<exists>h' u. snd (run_state (sa_Reconcile e gvk q) h) =
       h' @ [CStatusUpdate (app\<lparr>sa_Ready := True, sa_ObservedGeneration := om_Generation (sa_meta app)\<rparr>) u])"
proof -
  define h1 where "h1 = h @ [CGet q (Inr app)]"
  define h2 where "h2 = h1 @ [CListPods (om_Namespace (sa_meta app)) (sa_labels app) (Inr cur)]"
  define h3 where "h3 = h2 @ (if cur = [] then [CCreatePod (sa_pod e gvk app) None] else [])"
  let ?st = "app\<lparr>sa_Ready := True, sa_ObservedGeneration := om_Generation (sa_meta app)\<rparr>"
  have pods: "pods h1 = pods h" "pods h2 = pods h"
    unfolding h1_def h2_def by (simp_all only: pod_store_snoc_other(1,2) [OF store])
  have list: "api_ListPods e h1 (om_Namespace (sa_meta app)) (sa_labels app) = Inr cur"
    by (simp add: pod_store_list [OF store] pods cur)
  have create: "cur = [] \<Longrightarrow> api_CreatePod e h2 (sa_pod e gvk app) = None"
    using free by (simp add: pod_store_create_iff [OF store] pods)
  have "run_state (reconcilePods e gvk app) h1 = (None, h3)"
    using create sint32_of_nat [OF len]
    by (auto simp: reconcilePods_def list Let_def h3_def h2_def)
  then have run: "snd (run_state (sa_Reconcile e gvk q) h) = h3 @ [CStatusUpdate ?st (api_StatusUpdate e h3 ?st)]"
    using get live fin by (simp add: sa_Reconcile_def h1_def split: option.splits)
  have p3: "pods h3 = pods h @ (if cur = [] then [sa_pod e gvk app] else [])"
    by (simp add: h3_def pod_store_snoc_create [OF store] pods)
  have "selects (om_Namespace (sa_meta app)) (sa_labels app) (sa_pod e gvk app)"
    by (simp add: selects_def sa_pod_def sa_labels_def)
  with run p3 cur show ?thesis by (simp add: pod_store_snoc_other(6) [OF store])
qed

theorem sa_ensures_one_pod_witness:
  "mem_pods [] (snd (run_state (sa_Reconcile (mem_env (\<lambda>_. demo_app None) []) demo_gvk demo_app_req) [])) =
     [sa_pod (mem_env (\<lambda>_. demo_app None) []) demo_gvk (demo_app None)]"
proof -
  let ?e = "mem_env (\<lambda>_. demo_app None) []"
  have get: "api_Get ?e [] demo_app_req = Inr (demo_app None)"
    and fin: "ContainsFinalizer ?e (sa_meta (demo_app None)) sa_finalizerName"
    and live: "Time_IsZero (om_DeletionTimestamp (sa_meta (demo_app None)))"
    by (simp_all add: mem_env_def demo_app_def Time_IsZero_def)
  have none: "mem_pods [] ([] :: SimpleApp call list) = []" by (simp add: mem_pods_def)
  from sa_ensures_one_pod [OF mem_env_pod_store get live fin refl, of demo_gvk] show ?thesis
    by (simp add: none)
qed

end
