(* ===== verification/Finalizer_Protocol.thy ===== *)
theory Finalizer_Protocol
  imports Pod_Operator Finalizer_Example "HOL-Library.Sublist"
begin

text \<open>
  The two operators with finalizers (\<open>src/pod-operator/controllers/podmanager_controller.go\<close>,
  \<open>src/finalizer-example/finalizer.go\<close>) in a cluster that others change too: users delete the object and change its specification,
  nodes remove pods, and the reads of the operator come from a cache. The runs are those of \<open>Pod_Operator\<close> and
  \<open>Finalizer_Example\<close>; between any two of their calls the cluster may change.

  Of the platform the relations keep what its documentation says. Deleting a pod marks it, and it is gone some time later. An object
  with a finalizer stays until the finalizer is removed, and the finalizer of an operator is removed only by that operator. The object
  is followed from its creation to its end, not beyond under the same name, and pods with its labels come from its operator only. There is
  one run on a key at a time. A cache has the content that the store had at an earlier moment.
\<close>

section \<open>Definitions\<close>

record 'o world =
  w_obj :: "'o option"
  w_pods :: "Pod list"
  w_obj_cache :: "'o option"
  w_pod_cache :: "Pod list"

definition terminating :: "Pod \<Rightarrow> bool" where
  "terminating p \<longleftrightarrow> \<not> Time_IsZero (om_DeletionTimestamp (pod_meta p))"

definition stamp :: "int \<Rightarrow> Pod \<Rightarrow> Pod" where
  "stamp t p = (if terminating p then p else p\<lparr>pod_meta := (pod_meta p)\<lparr>om_DeletionTimestamp := Some t\<rparr>\<rparr>)"

text \<open>What the object is, apart from its content: namespace, name and UID, and the labels of its pods.\<close>

record ident =
  id_Namespace :: string
  id_Name :: string
  id_UID :: string

definition ident_of :: "ObjectMeta \<Rightarrow> ident" where
  "ident_of m = \<lparr>id_Namespace = om_Namespace m, id_Name = om_Name m, id_UID = om_UID m\<rparr>"

definition owned :: "(ident \<Rightarrow> entries) \<Rightarrow> ident \<Rightarrow> 'o world \<Rightarrow> Pod list" where
  "owned labels i w = filter (selects (id_Namespace i) (labels i)) (w_pods w)"

definition held :: "('o \<Rightarrow> ObjectMeta) \<Rightarrow> (ObjectMeta \<Rightarrow> bool) \<Rightarrow> 'o world \<Rightarrow> bool" where
  "held m fin w \<longleftrightarrow> (\<exists>x. w_obj w = Some x \<and> fin (m x))"

text \<open>What the rest of the cluster may do at a time.\<close>

definition others :: "('o \<Rightarrow> ObjectMeta) \<Rightarrow> (ObjectMeta \<Rightarrow> bool) \<Rightarrow> (ident \<Rightarrow> entries) \<Rightarrow> ident \<Rightarrow> 'o world \<Rightarrow> 'o world \<Rightarrow> bool" where
  "others m fin labels i w w' \<longleftrightarrow>
     (held m fin w \<longrightarrow> held m fin w') \<and> (w_obj w = None \<longrightarrow> w_obj w' = None) \<and>
     (\<forall>x. w_obj w' = Some x \<longrightarrow> ident_of (m x) = i) \<and>
     (\<forall>p' \<in> set (owned labels i w'). \<exists>p \<in> set (owned labels i w). pod_key p = pod_key p' \<and> (terminating p \<longrightarrow> terminating p')) \<and>
     w_obj_cache w' \<in> {w_obj_cache w, w_obj w'} \<and> w_pod_cache w' \<in> {w_pod_cache w, w_pods w'}"

text \<open>What the server answers to a call of the operator; \<open>fresh\<close> says that the caches are up to date when they are
  read. An update does not change what an object is.\<close>

fun answers :: "('o \<Rightarrow> ObjectMeta) \<Rightarrow> bool \<Rightarrow> 'o world \<Rightarrow> 'o call \<Rightarrow> bool" where
  "answers m fresh w (CGet k (Inr x)) = (w_obj_cache w = Some x \<and> (fresh \<longrightarrow> w_obj_cache w = w_obj w))"
| "answers m fresh w (CGet k (Inl err)) = (IsNotFound err \<longrightarrow> w_obj_cache w = None \<and> (fresh \<longrightarrow> w_obj_cache w = w_obj w))"
| "answers m fresh w (CListPods ns sel (Inr items)) =
     (items = filter (selects ns sel) (w_pod_cache w) \<and> (fresh \<longrightarrow> w_pod_cache w = w_pods w))"
| "answers m fresh w (CCreatePod p None) = (pod_key p \<notin> pod_key ` set (w_pods w))"
| "answers m fresh w (CDeletePod p (Some err)) = (IsNotFound err \<longrightarrow> pod_key p \<notin> pod_key ` set (w_pods w))"
| "answers m fresh w (CUpdate x None) = (\<exists>y. w_obj w = Some y \<and> ident_of (m x) = ident_of (m y))"
| "answers m fresh w c = True"

text \<open>What the server makes of a call at time \<open>t\<close>. An object that is being deleted goes with its last finalizer.\<close>

fun effect :: "('o \<Rightarrow> ObjectMeta) \<Rightarrow> int \<Rightarrow> 'o world \<Rightarrow> 'o call \<Rightarrow> 'o world" where
  "effect m t w (CCreatePod p None) = w\<lparr>w_pods := w_pods w @ [p]\<rparr>"
| "effect m t w (CDeletePod p None) = w\<lparr>w_pods := map (\<lambda>x. if pod_key x = pod_key p then stamp t x else x) (w_pods w)\<rparr>"
| "effect m t w (CUpdate x None) =
     w\<lparr>w_obj := (if \<not> Time_IsZero (om_DeletionTimestamp (m x)) \<and> om_Finalizers (m x) = [] then None else Some x)\<rparr>"
| "effect m t w c = w"

text \<open>A history of calls, and the cluster before and after it.\<close>

inductive served :: "bool \<Rightarrow> ('o \<Rightarrow> ObjectMeta) \<Rightarrow> (ObjectMeta \<Rightarrow> bool) \<Rightarrow> (ident \<Rightarrow> entries) \<Rightarrow> ident \<Rightarrow>
    'o world \<Rightarrow> 'o call list \<Rightarrow> 'o world \<Rightarrow> bool" for fresh m fin labels i where
  rest: "(others m fin labels i)\<^sup>*\<^sup>* w w' \<Longrightarrow> served fresh m fin labels i w [] w'"
| call: "\<lbrakk>(others m fin labels i)\<^sup>*\<^sup>* w w1; answers m fresh w1 c; t \<noteq> 0; served fresh m fin labels i (effect m t w1 c) h w'\<rbrakk> \<Longrightarrow>
    served fresh m fin labels i w (c # h) w'"

inductive_cases served_ConsE: "served fresh m fin labels i w (c # h) w'"

text \<open>
  The calls of a run, as far as the finalizer is concerned: none that matters; or those of a live object that has the finalizer, which
  is not updated then; or an update of an object without it; or, after a list and deletions of all that was listed, one that removes
  it. An operator that \<open>waits\<close> removes it only after an empty list.
\<close>

definition creates :: "'o call \<Rightarrow> bool" where
  "creates c \<longleftrightarrow> (\<exists>p. c = CCreatePod p None)"

definition updates :: "'o call \<Rightarrow> bool" where
  "updates c \<longleftrightarrow> (\<exists>x r. c = CUpdate x r)"

definition quiet :: "'o call list \<Rightarrow> bool" where
  "quiet h \<longleftrightarrow> (\<forall>c \<in> set h. \<not> creates c \<and> \<not> updates c)"

definition cleanup :: "('o \<Rightarrow> ObjectMeta) \<Rightarrow> (ident \<Rightarrow> entries) \<Rightarrow> bool \<Rightarrow> 'o \<Rightarrow> 'o call list \<Rightarrow> bool" where
  "cleanup m labels waits x rest \<longleftrightarrow>
     (\<exists>items dels u. rest = CListPods (om_Namespace (m x)) (labels (ident_of (m x))) (Inr items) # dels @ [u] \<and>
        updates u \<and> quiet dels \<and>
        (\<forall>p \<in> set items. \<exists>r. CDeletePod p r \<in> set dels \<and> acked r) \<and> (waits \<longrightarrow> items = []))"

definition after_read :: "('o \<Rightarrow> ObjectMeta) \<Rightarrow> (ObjectMeta \<Rightarrow> bool) \<Rightarrow> (ident \<Rightarrow> entries) \<Rightarrow> bool \<Rightarrow> 'o \<Rightarrow> 'o call list \<Rightarrow> bool" where
  "after_read m fin labels waits x rest \<longleftrightarrow>
     fin (m x) \<and> (\<forall>c \<in> set rest. \<not> updates c) \<or> \<not> fin (m x) \<and> (\<exists>u. updates u \<and> rest = [u]) \<or> cleanup m labels waits x rest"

definition run_shape :: "('o \<Rightarrow> ObjectMeta) \<Rightarrow> (ObjectMeta \<Rightarrow> bool) \<Rightarrow> (ident \<Rightarrow> entries) \<Rightarrow> bool \<Rightarrow> 'o call list \<Rightarrow> bool" where
  "run_shape m fin labels waits seg \<longleftrightarrow> quiet seg \<or>
     (\<exists>q x rest. seg = CGet q (Inr x) # rest \<and> after_read m fin labels waits x rest)"

text \<open>A pod that must not outlive the object.\<close>

definition lingers :: "bool \<Rightarrow> Pod \<Rightarrow> bool" where
  "lingers waits p \<longleftrightarrow> waits \<or> \<not> terminating p"

definition no_orphans :: "('o \<Rightarrow> ObjectMeta) \<Rightarrow> (ObjectMeta \<Rightarrow> bool) \<Rightarrow> (ident \<Rightarrow> entries) \<Rightarrow> bool \<Rightarrow> ident \<Rightarrow> 'o world \<Rightarrow> bool" where
  "no_orphans m fin labels waits i w \<longleftrightarrow> held m fin w \<or> (\<forall>p \<in> set (owned labels i w). \<not> lingers waits p)"

section \<open>Lemmas\<close>

lemma served_split:
  "served fresh m fin labels i w (h @ h') w' \<Longrightarrow>
   \<exists>w1. served fresh m fin labels i w h w1 \<and> served fresh m fin labels i w1 h' w'"
proof (induction h arbitrary: w)
  case Nil
  then show ?case by (auto intro: served.rest)
next
  case (Cons c h)
  then show ?case by (auto elim!: served_ConsE intro: served.call) (metis served.call)
qed

text \<open>The pods that linger, by their keys: others only take some away.\<close>

definition linger_keys :: "(ident \<Rightarrow> entries) \<Rightarrow> bool \<Rightarrow> ident \<Rightarrow> 'o world \<Rightarrow> (string \<times> string) set" where
  "linger_keys labels waits i w = pod_key ` {p \<in> set (owned labels i w). lingers waits p}"

lemma no_orphans_iff: "no_orphans m fin labels waits i w \<longleftrightarrow> held m fin w \<or> linger_keys labels waits i w = {}"
  by (auto simp: no_orphans_def linger_keys_def)

lemma linger_keys_iff: "k \<in> linger_keys labels waits i w \<longleftrightarrow>
    (\<exists>p \<in> set (w_pods w). selects (id_Namespace i) (labels i) p \<and> lingers waits p \<and> pod_key p = k)"
  by (auto simp: linger_keys_def owned_def)

lemma others_keys:
  assumes "others m fin labels i w w'"
  shows "linger_keys labels waits i w' \<subseteq> linger_keys labels waits i w"
proof
  fix k
  assume "k \<in> linger_keys labels waits i w'"
  then obtain p' where "p' \<in> set (owned labels i w')" "lingers waits p'" "pod_key p' = k" by (auto simp: linger_keys_def)
  moreover from this assms obtain p where "p \<in> set (owned labels i w)" "pod_key p = pod_key p'" "terminating p \<longrightarrow> terminating p'"
    unfolding others_def by blast
  ultimately show "k \<in> linger_keys labels waits i w" by (auto simp: linger_keys_def lingers_def image_iff)
qed

lemma others_star:
  assumes "(others m fin labels i)\<^sup>*\<^sup>* w w'"
  shows "linger_keys labels waits i w' \<subseteq> linger_keys labels waits i w \<and> (held m fin w \<longrightarrow> held m fin w')"
  using assms
proof (induction rule: rtranclp_induct)
  case (step y z)
  then show ?case using others_keys [of m fin labels i y z waits] by (auto simp: others_def)
qed simp

lemma terminating_stamp: "t \<noteq> 0 \<Longrightarrow> terminating (stamp t p)"
  by (simp add: stamp_def terminating_def Time_IsZero_def)

lemma stamp_simps [simp]: "pod_key (stamp t p) = pod_key p" "selects ns sel (stamp t p) = selects ns sel p"
  by (simp_all add: stamp_def pod_key_def selects_def)

lemma lingers_stamp: "t \<noteq> 0 \<Longrightarrow> lingers waits (stamp t p) \<Longrightarrow> waits \<and> lingers waits p"
  using terminating_stamp by (auto simp: lingers_def)

text \<open>A call other than a creation adds no pod that lingers; a deletion that was acknowledged takes one away.\<close>

lemma effect_keys:
  assumes "\<not> creates c" "t \<noteq> 0"
  shows "linger_keys labels waits i (effect m t w c) \<subseteq> linger_keys labels waits i w"
proof (cases "\<exists>p. c = CDeletePod p None")
  case True
  then show ?thesis
    by (auto simp: linger_keys_iff dest!: lingers_stamp [OF assms(2)] split: if_splits; blast)
next
  case False
  with assms(1) show ?thesis
    by (cases "(m, t, w, c)" rule: effect.cases) (auto simp: linger_keys_iff creates_def)
qed

lemma effect_delete_keys:
  assumes "answers m fresh w (CDeletePod p r)" "acked r" "t \<noteq> 0"
  shows "pod_key p \<notin> linger_keys labels False i (effect m t w (CDeletePod p r))"
proof (cases r)
  case None
  then show ?thesis using terminating_stamp [OF assms(3)]
    by (auto simp: linger_keys_iff lingers_def split: if_splits)
next
  case (Some err)
  with assms(1,2) show ?thesis by (auto simp: linger_keys_iff acked_def) (metis imageI)
qed

lemma effect_held: "\<not> updates c \<Longrightarrow> held m fin w \<Longrightarrow> held m fin (effect m t w c)"
  by (cases "(m, t, w, c)" rule: effect.cases) (auto simp: held_def updates_def)

text \<open>What the object is does not change.\<close>

definition identified :: "('o \<Rightarrow> ObjectMeta) \<Rightarrow> ident \<Rightarrow> 'o world \<Rightarrow> bool" where
  "identified m i w \<longleftrightarrow> (\<forall>x. w_obj w = Some x \<longrightarrow> ident_of (m x) = i)"

lemma others_identified: "(others m fin labels i)\<^sup>*\<^sup>* w w' \<Longrightarrow> identified m i w \<Longrightarrow> identified m i w'"
proof (induction rule: rtranclp_induct)
  case (step y z)
  then show ?case unfolding others_def identified_def by blast
qed

lemma effect_identified: "answers m fresh w c \<Longrightarrow> identified m i w \<Longrightarrow> identified m i (effect m t w c)"
  by (cases "(m, t, w, c)" rule: effect.cases) (auto simp: identified_def)

lemma served_identified: "served fresh m fin labels i w h w' \<Longrightarrow> identified m i w \<Longrightarrow> identified m i w'"
proof (induction rule: served.induct)
  case (call w w1 c t h w')
  then show ?case using others_identified [OF call(1)] effect_identified [OF call(2)] by blast
qed (use others_identified in blast)

text \<open>A run without creations, one without updates, and the deletions of a clean-up.\<close>

lemma served_quiet:
  "served fresh m fin labels i w h w' \<Longrightarrow> \<forall>c \<in> set h. \<not> creates c \<Longrightarrow>
   linger_keys labels waits i w' \<subseteq> linger_keys labels waits i w"
proof (induction rule: served.induct)
  case (call w w1 c t h w')
  then show ?case using others_star [OF call(1), of waits] effect_keys [of c t labels waits i m w1] by force
qed (simp add: others_star)

lemma served_held:
  "served fresh m fin labels i w h w' \<Longrightarrow> \<forall>c \<in> set h. \<not> updates c \<Longrightarrow> held m fin w \<Longrightarrow> held m fin w'"
proof (induction rule: served.induct)
  case (call w w1 c t h w')
  then show ?case using others_star [OF call(1)] effect_held [of c m fin w1 t] by force
qed (use others_star in blast)

lemma served_deletes:
  assumes "served fresh m fin labels i w h w'" "\<forall>c \<in> set h. \<not> creates c" "CDeletePod p r \<in> set h" "acked r"
  shows "pod_key p \<notin> linger_keys labels False i w'"
  using assms
proof (induction rule: served.induct)
  case (call w w1 c t h w')
  show ?case
  proof (cases "CDeletePod p r \<in> set h")
    case False
    with call have c: "c = CDeletePod p r" by simp
    have "pod_key p \<notin> linger_keys labels False i (effect m t w1 c)"
      using effect_delete_keys [of m fresh w1 p r t labels i] call(2,3,8) c by simp
    with served_quiet [OF call(4)] call.prems(1) show ?thesis by force
  qed (use call in auto)
qed simp

lemma quiet_simps [simp]: "quiet []" "quiet (h @ h') \<longleftrightarrow> quiet h \<and> quiet h'"
  "quiet (CGet q r # h) \<longleftrightarrow> quiet h" "quiet (CListPods ns sel l # h) \<longleftrightarrow> quiet h"
  by (auto simp: quiet_def creates_def updates_def)

lemma after_read_prefix:
  assumes "after_read m fin labels waits x rest" "prefix h rest"
  shows "quiet h \<or> after_read m fin labels waits x h"
proof (cases "h = rest \<or> h = []")
  case False
  with assms(2) obtain c t where rest: "rest = h @ c # t" by (metis append_Nil2 neq_Nil_conv prefix_def)
  from assms(1) consider "fin (m x)" "\<forall>c \<in> set rest. \<not> updates c" | u where "rest = [u]" | "cleanup m labels waits x rest"
    unfolding after_read_def by blast
  then show ?thesis
  proof cases
    case 1
    then show ?thesis by (simp add: rest after_read_def)
  next
    case 2
    then show ?thesis using False rest by (cases h) auto
  next
    case 3
    then obtain items dels u where r: "rest = CListPods (om_Namespace (m x)) (labels (ident_of (m x))) (Inr items) # dels @ [u]" and "quiet dels"
      unfolding cleanup_def by blast
    then have "quiet (butlast rest)" by (simp add: butlast_append)
    moreover have "butlast rest = h @ butlast (c # t)" by (simp add: rest butlast_append)
    ultimately show ?thesis by simp
  qed
qed (use assms in auto)

lemma run_shape_prefix:
  assumes "run_shape m fin labels waits seg" "prefix h seg"
  shows "run_shape m fin labels waits h"
proof (cases "quiet seg \<or> h = []")
  case True
  then show ?thesis using assms(2) by (auto simp: run_shape_def prefix_def)
next
  case False
  with assms obtain q x rest hs where "h = CGet q (Inr x) # hs" "prefix hs rest" "after_read m fin labels waits x rest"
    unfolding run_shape_def by (cases h) auto
  then show ?thesis using after_read_prefix [of m fin labels waits x rest hs] by (auto simp: run_shape_def)
qed

text \<open>The runs of an operator whose calls have that shape, one at a time, leave no pod that lingers without the finalizer.\<close>

locale finalizer_operator = reconciler run ok
  for run :: "NamespacedName \<Rightarrow> ('o call list, 'r) state" and ok :: "NamespacedName \<Rightarrow> 'o call list \<Rightarrow> bool" +
  fixes m :: "'o \<Rightarrow> ObjectMeta" and fin :: "ObjectMeta \<Rightarrow> bool" and labels :: "ident \<Rightarrow> entries" and waits :: bool
  assumes shape: "ok q seg \<Longrightarrow> run_shape m fin labels waits seg"
begin

lemma read_keeps:
  assumes "served True m fin labels i w (CGet q (Inr x) # rest) w'"
  obtains w1 where "(others m fin labels i)\<^sup>*\<^sup>* w w1" "served True m fin labels i w1 rest w'" "w_obj w1 = Some x" "linger_keys labels waits i w1 \<subseteq> linger_keys labels waits i w"
    "held m fin w \<Longrightarrow> held m fin w1"
proof -
  from assms obtain w1 where "(others m fin labels i)\<^sup>*\<^sup>* w w1" "answers m True w1 (CGet q (Inr x))" "served True m fin labels i w1 rest w'"
    by (auto elim!: served_ConsE)
  then show thesis using others_star [of m fin labels i w w1 waits] by (intro that [of w1]) auto
qed

lemma cleanup_no_orphans:
  assumes "served True m fin labels i w rest w'" "cleanup m labels waits x rest" "ident_of (m x) = i"
  shows "linger_keys labels waits i w' = {}"
proof -
  from assms(2,3) obtain items dels u where rest: "rest = CListPods (id_Namespace i) (labels i) (Inr items) # dels @ [u]"
    and u: "updates u" and q: "quiet dels" and acks: "\<forall>p \<in> set items. \<exists>r. CDeletePod p r \<in> set dels \<and> acked r"
    and w: "waits \<Longrightarrow> items = []"
    unfolding cleanup_def by (auto simp: ident_of_def)
  from assms(1) obtain w1 w2 where w1: "items = owned labels i w1" "served True m fin labels i w1 dels w2" "served True m fin labels i w2 [u] w'"
    unfolding rest by (auto elim!: served_ConsE [of _ _ _ _ _ _ "CListPods _ _ _"] simp: owned_def dest!: served_split)
  have nc: "\<forall>c \<in> set dels. \<not> creates c" "\<forall>c \<in> set [u]. \<not> creates c" using q u by (auto simp: quiet_def updates_def creates_def)
  have "linger_keys labels waits i w2 = {}"
  proof (cases waits)
    case True
    then have "linger_keys labels waits i w1 = {}" using w w1(1) by (simp add: linger_keys_def)
    then show ?thesis using served_quiet [OF w1(2) nc(1)] by blast
  next
    case False
    have "k \<notin> linger_keys labels False i w2" if "k \<in> linger_keys labels False i w1" for k
    proof -
      from that obtain p where "p \<in> set items" "pod_key p = k" by (auto simp: w1(1) linger_keys_def)
      with acks served_deletes [OF w1(2) nc(1)] show ?thesis by blast
    qed
    then show ?thesis using served_quiet [OF w1(2) nc(1), of False] False by auto
  qed
  then show ?thesis using served_quiet [OF w1(3) nc(2)] by blast
qed

lemma segment_no_orphans:
  assumes "served True m fin labels i w seg w'" "run_shape m fin labels waits seg" "no_orphans m fin labels waits i w"
    and i: "identified m i w"
  shows "no_orphans m fin labels waits i w'"
proof (cases "quiet seg")
  case True
  then have "\<forall>c \<in> set seg. \<not> creates c" "\<forall>c \<in> set seg. \<not> updates c" by (auto simp: quiet_def)
  with served_quiet [OF assms(1)] served_held [OF assms(1)] assms(3) show ?thesis unfolding no_orphans_iff by blast
next
  case False
  with assms(2) obtain q x rest where seg: "seg = CGet q (Inr x) # rest" "after_read m fin labels waits x rest" by (auto simp: run_shape_def)
  from read_keeps [OF assms(1) [unfolded seg]] obtain w1 where w0: "(others m fin labels i)\<^sup>*\<^sup>* w w1" and w1: "served True m fin labels i w1 rest w'" "w_obj w1 = Some x"
    "linger_keys labels waits i w1 \<subseteq> linger_keys labels waits i w" "held m fin w \<Longrightarrow> held m fin w1" by metis
  from seg(2) consider "fin (m x)" "\<forall>c \<in> set rest. \<not> updates c" | u where "\<not> fin (m x)" "updates u" "rest = [u]" | "cleanup m labels waits x rest"
    unfolding after_read_def by blast
  then show ?thesis
  proof cases
    case 1
    then have "held m fin w1" using w1(2) by (simp add: held_def)
    with served_held [OF w1(1) 1(2)] show ?thesis by (simp add: no_orphans_def)
  next
    case 2
    then have "\<not> held m fin w1" using w1(2) by (simp add: held_def)
    with w1(3,4) assms(3) have "linger_keys labels waits i w1 = {}" by (auto simp: no_orphans_iff)
    moreover have "\<forall>c \<in> set rest. \<not> creates c" using 2 by (auto simp: updates_def creates_def)
    ultimately show ?thesis using served_quiet [OF w1(1)] by (auto simp: no_orphans_iff)
  next
    case 3
    have "ident_of (m x) = i" using others_identified [OF w0 i] w1(2) by (simp add: identified_def)
    from cleanup_no_orphans [OF w1(1) 3 this] show ?thesis by (simp add: no_orphans_iff)
  qed
qed

lemma history_no_orphans:
  assumes "served True m fin labels i w h w'" "prefix h (drive run qs [])"
    and w: "no_orphans m fin labels waits i w" "identified m i w"
  shows "no_orphans m fin labels waits i w'"
proof -
  obtain segs where segs: "drive run qs [] = concat segs" "list_all2 ok qs segs" using drive_segments [of qs "[]"] by auto
  have "\<forall>seg \<in> set segs. run_shape m fin labels waits seg"
    using segs(2) by (induction rule: list_all2_induct) (auto intro: shape)
  with assms(1,2) [unfolded segs(1)] w show ?thesis
  proof (induction segs arbitrary: w h)
    case Nil
    then show ?case using segment_no_orphans [of i w "[]" w'] by (simp add: run_shape_def)
  next
    case (Cons seg segs)
    from Cons.prems(2) consider "prefix h seg" | t where "h = seg @ t" "prefix t (concat segs)"
      by (auto simp: prefix_append)
    then show ?case
    proof cases
      case 1
      with Cons.prems show ?thesis using segment_no_orphans [of i w h w'] run_shape_prefix by (metis list.set_intros(1))
    next
      case 2
      obtain w1 where w1: "served True m fin labels i w seg w1" "served True m fin labels i w1 t w'"
        using served_split Cons.prems(1) 2(1) by blast
      have "no_orphans m fin labels waits i w1" using segment_no_orphans [OF w1(1)] Cons.prems by simp
      moreover have "identified m i w1" using served_identified [OF w1(1)] Cons.prems(4) .
      ultimately show ?thesis using Cons.IH [OF w1(2) 2(2)] Cons.prems(5) by simp
    qed
  qed
qed

end

subsection \<open>The two operators\<close>

definition pm_labels :: "ident \<Rightarrow> entries" where
  "pm_labels i = [(''app'', ''my-app''), (''podmanager'', id_Name i), (''podmanager-uid'', id_UID i)]"

definition app_labels :: "ident \<Rightarrow> entries" where
  "app_labels i = [(''app'', id_Name i), (''managed-by'', ''simpleapp-controller'')]"

lemma label_simps: "pm_labels (ident_of (pm_meta pm)) = ownerLabels pm" "app_labels (ident_of (sa_meta app)) = sa_labels app"
  by (simp_all add: pm_labels_def app_labels_def ident_of_def ownerLabels_def sa_labels_def)

lemma pm_shape:
  assumes "pm_contract e q seg"
  shows "run_shape pm_meta (\<lambda>m. ContainsFinalizer e m finalizerName) pm_labels False seg"
proof -
  from assms obtain g rest where seg: "seg = CGet q g # rest" and ok: "pm_calls_ok e g rest" unfolding pm_contract_def by blast
  show ?thesis
  proof (cases "quiet rest")
    case False
    then obtain c where "c \<in> set rest" "creates c \<or> updates c" by (auto simp: quiet_def)
    then obtain pm where g: "g = Inr pm" using ok unfolding pm_calls_ok_def creates_def updates_def by blast
    have "after_read pm_meta (\<lambda>m. ContainsFinalizer e m finalizerName) pm_labels False pm rest"
    proof (cases "\<exists>u \<in> set rest. updates u")
      case True
      then obtain x r where u: "CUpdate x r \<in> set rest" by (auto simp: updates_def)
      show ?thesis
      proof (cases "Time_IsZero (om_DeletionTimestamp (pm_meta pm))")
        case True
        then have "\<not> ContainsFinalizer e (pm_meta pm) finalizerName \<and> rest = [CUpdate x r]"
          using ok u g unfolding pm_calls_ok_def by (metis sum.inject(2))
        then show ?thesis by (auto simp: after_read_def updates_def)
      next
        case del: False
        from pm_calls_ok_removeD [OF ok [unfolded g] u del] obtain items dels where
          rest: "rest = CListPods (om_Namespace (pm_meta pm)) (ownerLabels pm) (Inr items) # dels @ [CUpdate x r]"
          and dels: "\<forall>x r'. CUpdate x r' \<notin> set dels" "\<forall>p\<in>set items. \<exists>r'. CDeletePod p r' \<in> set dels \<and> acked r'" by metis
        have "CCreatePod p None \<notin> set rest" for p using pm_calls_ok_createD [OF ok, of p None] g del by auto
        with dels(1) have "quiet dels" by (auto simp: quiet_def creates_def updates_def rest)
        with rest dels(2) have "cleanup pm_meta pm_labels False pm rest" by (auto simp: cleanup_def updates_def label_simps)
        then show ?thesis by (simp add: after_read_def)
      qed
    next
      case no: False
      then obtain p r where "CCreatePod p r \<in> set rest" using False by (auto simp: quiet_def creates_def)
      with pm_calls_ok_createD [OF ok] g have "ContainsFinalizer e (pm_meta pm) finalizerName" by blast
      with no show ?thesis by (simp add: after_read_def)
    qed
    then show ?thesis by (auto simp: run_shape_def seg g)
  qed (simp add: run_shape_def seg)
qed

lemma sa_shape:
  assumes "sa_contract e gvk q seg"
  shows "run_shape sa_meta (\<lambda>m. ContainsFinalizer e m sa_finalizerName) app_labels True seg"
proof -
  from assms obtain g rest where seg: "seg = CGet q g # rest" and ok: "sa_calls_ok e gvk g rest" unfolding sa_contract_def by blast
  show ?thesis
  proof (cases "quiet rest")
    case False
    with ok obtain app where g: "g = Inr app" unfolding sa_calls_ok_def by auto
    have "after_read sa_meta (\<lambda>m. ContainsFinalizer e m sa_finalizerName) app_labels True app rest"
    proof (cases "Time_IsZero (om_DeletionTimestamp (sa_meta app))")
      case True
      then show ?thesis using ok g False
        by (auto simp: sa_calls_ok_def sa_live_calls_def after_read_def updates_def split: if_splits)
    next
      case del: False
      with ok g False obtain l dels us where rest: "rest = CListPods (om_Namespace (sa_meta app)) (sa_labels app) l # dels @ us"
        and dels: "\<forall>c\<in>set dels. \<exists>p r items. c = CDeletePod p r \<and> l = Inr items \<and> p \<in> set items"
        and us: "us = [] \<or> l = Inr [] \<and> dels = [] \<and> (\<exists>x r. us = [CUpdate x r])"
        unfolding sa_calls_ok_def by auto
      have "quiet dels" using dels by (auto simp: quiet_def creates_def updates_def)
      with False rest us have "cleanup sa_meta app_labels True app rest" by (auto simp: cleanup_def updates_def label_simps)
      then show ?thesis by (simp add: after_read_def)
    qed
    then show ?thesis by (auto simp: run_shape_def seg g)
  qed (simp add: run_shape_def seg)
qed

interpretation pmo: finalizer_operator "Reconcile e" "pm_contract e" pm_meta "\<lambda>m. ContainsFinalizer e m finalizerName" pm_labels False for e
  by unfold_locales (rule pm_shape)

interpretation sao: finalizer_operator "sa_Reconcile e gvk" "sa_contract e gvk" sa_meta
    "\<lambda>m. ContainsFinalizer e m sa_finalizerName" app_labels True for e gvk
  by unfold_locales (rule sa_shape)

subsection \<open>Histories\<close>

text \<open>A history of runs from a cluster in which every pod of the object is kept by its finalizer, seen up to any moment.\<close>

definition pm_history :: "bool \<Rightarrow> PodManager kube_env \<Rightarrow> ident \<Rightarrow> NamespacedName list \<Rightarrow> PodManager world \<Rightarrow> PodManager call list \<Rightarrow>
    PodManager world \<Rightarrow> bool" where
  "pm_history fresh e i qs w h w' \<longleftrightarrow>
     served fresh pm_meta (\<lambda>m. ContainsFinalizer e m finalizerName) pm_labels i w h w' \<and> prefix h (drive (Reconcile e) qs []) \<and>
     no_orphans pm_meta (\<lambda>m. ContainsFinalizer e m finalizerName) pm_labels False i w \<and>
     identified pm_meta i w \<and> w_obj_cache w = w_obj w \<and> w_pod_cache w = w_pods w"

definition sa_history :: "bool \<Rightarrow> 'x SimpleApp_scheme kube_env \<Rightarrow> GroupVersionKind \<Rightarrow> ident \<Rightarrow> NamespacedName list \<Rightarrow>
    'x SimpleApp_scheme world \<Rightarrow> 'x SimpleApp_scheme call list \<Rightarrow> 'x SimpleApp_scheme world \<Rightarrow> bool" where
  "sa_history fresh e gvk i qs w h w' \<longleftrightarrow>
     served fresh sa_meta (\<lambda>m. ContainsFinalizer e m sa_finalizerName) app_labels i w h w' \<and> prefix h (drive (sa_Reconcile e gvk) qs []) \<and>
     no_orphans sa_meta (\<lambda>m. ContainsFinalizer e m sa_finalizerName) app_labels True i w \<and>
     identified sa_meta i w \<and> w_obj_cache w = w_obj w \<and> w_pod_cache w = w_pods w"

text \<open>A PodManager that is being deleted, with one pod: one run, after which the pod is still terminating.\<close>

definition gone_pm :: PodManager where
  "gone_pm = demo_pm 1 [finalizerName] (Some 3) []"

definition gone_env :: "PodManager kube_env" where
  "gone_env = mem_env (\<lambda>_. gone_pm) [demo_pod 0]"

definition gone_world :: "PodManager world" where
  "gone_world = \<lparr>w_obj = Some gone_pm, w_pods = [demo_pod 0], w_obj_cache = Some gone_pm, w_pod_cache = [demo_pod 0]\<rparr>"

lemma serve_call: "answers m fresh w c \<Longrightarrow> served fresh m fin labels i (effect m 1 w c) h w' \<Longrightarrow> served fresh m fin labels i w (c # h) w'"
  by (rule served.call [of _ _ _ _ _ w _ _ 1]) auto

lemma gone_run:
  "drive (Reconcile gone_env) [demo_req] [] = [CGet demo_req (Inr gone_pm), CListPods ''default'' (ownerLabels gone_pm) (Inr [demo_pod 0]),
     CDeletePod (demo_pod 0) None, CEvent ''Normal'' ''Deleting'' (''Deleting pod '' @ om_Name (pod_meta (demo_pod 0))),
     CUpdate (demo_pm 1 [] (Some 3) []) None]"
  by (simp add: gone_env_def gone_pm_def mem_env_def Reconcile_def handleFinalizer_def Time_IsZero_def demo_pm_def demo_pod_def mem_pods_def
      ownerLabels_def selects_def newPodForPodManager_def)

lemma gone_served: "pm_history True gone_env (ident_of (pm_meta gone_pm)) [demo_req] gone_world (drive (Reconcile gone_env) [demo_req] [])
    (gone_world\<lparr>w_obj := None, w_pods := [stamp 1 (demo_pod 0)]\<rparr>)"
  unfolding pm_history_def gone_run
  by (intro conjI serve_call served.rest)
    (simp_all add: gone_world_def gone_env_def mem_env_def gone_pm_def demo_pm_def identified_def no_orphans_def held_def
      demo_pod_def selects_def newPodForPodManager_def ownerLabels_def pod_key_def Time_IsZero_def ident_of_def)

lemma gone_owned: "owned pm_labels (ident_of (pm_meta gone_pm)) (gone_world\<lparr>w_obj := None, w_pods := [stamp 1 (demo_pod 0)]\<rparr>) =
    [stamp 1 (demo_pod 0)]"
proof -
  have "selects ''default'' (ownerLabels gone_pm) (demo_pod 0)"
    by (simp add: selects_def gone_pm_def demo_pm_def demo_pod_def newPodForPodManager_def ownerLabels_def)
  moreover have "id_Namespace (ident_of (pm_meta gone_pm)) = ''default''" by (simp add: ident_of_def gone_pm_def demo_pm_def)
  ultimately show ?thesis by (simp add: owned_def label_simps)
qed

text \<open>The same operator, and the other one, with a cache of pods that has not seen the pod of the first run when the object is deleted.\<close>

definition lag_cond :: PodCondition where
  "lag_cond = \<lparr>cond_Type = ''Ready'', cond_Status = ''False'', cond_LastTransitionTime = 0, cond_Message = ''0/1 Pods are ready''\<rparr>"

definition lag_pm :: "int option \<Rightarrow> PodManager" where
  "lag_pm deleted = demo_pm 1 [finalizerName] deleted [lag_cond]"

definition lag_env :: "'o \<Rightarrow> 'o \<Rightarrow> 'o kube_env" where
  "lag_env live deleted = (mem_env (\<lambda>h. if h = [] then live else deleted) [])\<lparr>api_ListPods := \<lambda>_ _ _. Inr []\<rparr>"

definition start_world :: "'o \<Rightarrow> 'o world" where
  "start_world x = \<lparr>w_obj = Some x, w_pods = [], w_obj_cache = Some x, w_pod_cache = []\<rparr>"

lemma sa_lag_run:
  "drive (sa_Reconcile (lag_env (demo_app None) (demo_app (Some 3))) demo_gvk) [demo_app_req, demo_app_req] [] =
     (let e = lag_env (demo_app None) (demo_app (Some 3)) in
     [CGet demo_app_req (Inr (demo_app None)), CListPods ''default'' (sa_labels (demo_app None)) (Inr []),
      CCreatePod (sa_pod e demo_gvk (demo_app None)) None, CStatusUpdate ((demo_app None)\<lparr>sa_Ready := True\<rparr>) None,
      CGet demo_app_req (Inr (demo_app (Some 3))), CListPods ''default'' (sa_labels (demo_app None)) (Inr []),
      CUpdate ((demo_app (Some 3))\<lparr>sa_meta := (sa_meta (demo_app (Some 3)))\<lparr>om_Finalizers := []\<rparr>\<rparr>) None])"
  by (simp add: lag_env_def mem_env_def sa_Reconcile_def handleDeletion_def reconcilePods_def cleanupExternalResources_def Time_IsZero_def
      demo_app_def mem_pods_def sa_labels_def meta0_def Let_def)

lemma pm_lag_run:
  "drive (Reconcile (lag_env (lag_pm None) (lag_pm (Some 3)))) [demo_req, demo_req] [] =
     (let pod = newPodForPodManager (lag_env (lag_pm None) (lag_pm (Some 3))) (lag_pm None) 0 in
     [CGet demo_req (Inr (lag_pm None)), CListPods ''default'' (ownerLabels (lag_pm None)) (Inr []),
      CCreatePod pod None, CEvent ''Normal'' ''Created'' (''Created pod '' @ om_Name (pod_meta pod)), CStatusUpdate (lag_pm None) None,
      CGet demo_req (Inr (lag_pm (Some 3))), CListPods ''default'' (ownerLabels (lag_pm None)) (Inr []),
      CUpdate ((lag_pm (Some 3))\<lparr>pm_meta := (pm_meta (lag_pm (Some 3)))\<lparr>om_Finalizers := []\<rparr>\<rparr>) None])"
  by (simp add: lag_env_def mem_env_def Reconcile_def handleFinalizer_def reconcile_replicas_def adjust_pods_def create_pods.simps
      status_of_def SetCondition_def ready_condition_def slice_at_def lag_cond_def Time_IsZero_def lag_pm_def demo_pm_def demo_req_def mem_pods_def
      ownerLabels_def Let_def)

lemma serve_after:
  "others m fin labels i w w1 \<Longrightarrow> answers m fresh w1 c \<Longrightarrow> served fresh m fin labels i (effect m 1 w1 c) h w' \<Longrightarrow>
   served fresh m fin labels i w (c # h) w'"
  by (rule served.call [of _ _ _ _ _ w1 _ _ 1]) auto

lemma serve_mid:
  "\<forall>c \<in> set mid. (\<exists>x. c = CStatusUpdate x None) \<or> (\<exists>a b d. c = CEvent a b d) \<Longrightarrow> served fresh m fin labels i w h w' \<Longrightarrow>
   served fresh m fin labels i w (mid @ h) w'"
  by (induction mid) (auto intro!: serve_call)

lemma lag_served:
  assumes i: "ident_of (m x) = i" "ident_of (m y) = i" "ident_of (m z) = i" and fin: "fin (m y)"
    and z: "\<not> Time_IsZero (om_DeletionTimestamp (m z))" "om_Finalizers (m z) = []"
    and mid: "\<forall>c \<in> set mid. (\<exists>x. c = CStatusUpdate x None) \<or> (\<exists>a b d. c = CEvent a b d)"
  shows "served False m fin labels i (start_world x)
    (CGet q (Inr x) # CListPods ns sel (Inr []) # CCreatePod p None # mid @ [CGet q (Inr y), CListPods ns sel (Inr []), CUpdate z None])
    \<lparr>w_obj = None, w_pods = [p], w_obj_cache = Some y, w_pod_cache = []\<rparr>"
proof -
  let ?w = "\<lambda>o' c. \<lparr>w_obj = o', w_pods = [p], w_obj_cache = Some c, w_pod_cache = []\<rparr>"
  have "served False m fin labels i (?w (Some y) y) [CListPods ns sel (Inr []), CUpdate z None] (?w None y)"
    by (intro serve_call served.rest) (use i z in simp_all)
  moreover have "others m fin labels i (?w (Some x) x) (?w (Some y) y)"
    using i fin by (auto simp: others_def held_def owned_def)
  ultimately have "served False m fin labels i (?w (Some x) x) [CGet q (Inr y), CListPods ns sel (Inr []), CUpdate z None] (?w None y)"
    using serve_after [of m fin labels i "?w (Some x) x" "?w (Some y) y" False "CGet q (Inr y)"] by simp
  from serve_mid [OF mid this] show ?thesis by (intro serve_call) (simp_all add: start_world_def)
qed

lemma lag_env_simps [simp]: "ContainsFinalizer (lag_env x y) m f \<longleftrightarrow> f \<in> set (om_Finalizers m)"
  by (simp add: lag_env_def mem_env_def)

lemma sa_lag_served:
  defines "e \<equiv> lag_env (demo_app None) (demo_app (Some 3))"
  shows "sa_history False e demo_gvk (ident_of (sa_meta (demo_app None))) [demo_app_req, demo_app_req] (start_world (demo_app None))
    (drive (sa_Reconcile e demo_gvk) [demo_app_req, demo_app_req] [])
    \<lparr>w_obj = None, w_pods = [sa_pod e demo_gvk (demo_app None)], w_obj_cache = Some (demo_app (Some 3)), w_pod_cache = []\<rparr>"
  unfolding sa_history_def e_def sa_lag_run Let_def
  using lag_served [where mid = "[CStatusUpdate ((demo_app None)\<lparr>sa_Ready := True\<rparr>) None]"]
  by (simp add: start_world_def no_orphans_def owned_def identified_def demo_app_def ident_of_def Time_IsZero_def)

lemma pm_lag_served:
  defines "e \<equiv> lag_env (lag_pm None) (lag_pm (Some 3))"
  shows "pm_history False e (ident_of (pm_meta (lag_pm None))) [demo_req, demo_req] (start_world (lag_pm None))
    (drive (Reconcile e) [demo_req, demo_req] [])
    \<lparr>w_obj = None, w_pods = [newPodForPodManager e (lag_pm None) 0], w_obj_cache = Some (lag_pm (Some 3)), w_pod_cache = []\<rparr>"
  unfolding pm_history_def e_def pm_lag_run Let_def
  using lag_served [where mid = "[CEvent ''Normal'' ''Created'' (''Created pod '' @ om_Name (pod_meta (newPodForPodManager
    (lag_env (lag_pm None) (lag_pm (Some 3))) (lag_pm None) 0))), CStatusUpdate (lag_pm None) None]"]
  by (simp add: start_world_def no_orphans_def owned_def identified_def lag_pm_def demo_pm_def ident_of_def Time_IsZero_def)

section \<open>Properties\<close>

text \<open>C1. No pod outlives its object, in every interleaving of the runs with users who delete the object, with nodes and with failures,
  seen at any moment: if the caches are up to date when they are read, then while the finalizer is missing, in particular when the
  object is gone, every pod of a PodManager that is still stored is terminating, and a SimpleApp has no pod at all. The difference is
  real: the PodManager operator does not wait for its pods, and there is a history that ends with the PodManager gone and its pod
  still there. And the reads matter: with caches that lag behind, either operator can lose a pod, which is then neither terminating
  nor kept by a finalizer.\<close>

theorem pods_do_not_outlive:
  "(\<forall>e i qs w h w'. pm_history True e i qs w h w' \<longrightarrow>
      held pm_meta (\<lambda>m. ContainsFinalizer e m finalizerName) w' \<or> (\<forall>p \<in> set (owned pm_labels i w'). terminating p)) \<and>
   (\<forall>e gvk i qs w h w'. sa_history True (e :: SimpleApp kube_env) gvk i qs w h w' \<longrightarrow>
      held sa_meta (\<lambda>m. ContainsFinalizer e m sa_finalizerName) w' \<or> owned app_labels i w' = []) \<and>
   (\<exists>e i qs w h w'. pm_history True e i qs w h w' \<and> w_obj w' = None \<and> owned pm_labels i w' \<noteq> []) \<and>
   (\<exists>e i qs w h w'. pm_history False e i qs w h w' \<and> w_obj w' = None \<and> (\<exists>p \<in> set (owned pm_labels i w'). \<not> terminating p)) \<and>
   (\<exists>(e :: SimpleApp kube_env) gvk i qs w h w'. sa_history False e gvk i qs w h w' \<and> w_obj w' = None \<and>
      (\<exists>p \<in> set (owned app_labels i w'). \<not> terminating p))"
proof (intro conjI)
  show "\<forall>e i qs w h w'. pm_history True e i qs w h w' \<longrightarrow>
      held pm_meta (\<lambda>m. ContainsFinalizer e m finalizerName) w' \<or> (\<forall>p \<in> set (owned pm_labels i w'). terminating p)"
    using pmo.history_no_orphans by (fastforce simp: pm_history_def no_orphans_def lingers_def)
  show "\<forall>e gvk i qs w h w'. sa_history True (e :: SimpleApp kube_env) gvk i qs w h w' \<longrightarrow>
      held sa_meta (\<lambda>m. ContainsFinalizer e m sa_finalizerName) w' \<or> owned app_labels i w' = []"
  proof (intro allI impI)
    fix e :: "SimpleApp kube_env" and gvk i qs w h w'
    assume "sa_history True e gvk i qs w h w'"
    then have "no_orphans sa_meta (\<lambda>m. ContainsFinalizer e m sa_finalizerName) app_labels True i w'"
      unfolding sa_history_def by (elim conjE) (rule sao.history_no_orphans)
    then show "held sa_meta (\<lambda>m. ContainsFinalizer e m sa_finalizerName) w' \<or> owned app_labels i w' = []"
      by (auto simp: no_orphans_def lingers_def)
  qed
  show "\<exists>e i qs w h w'. pm_history True e i qs w h w' \<and> w_obj w' = None \<and> owned pm_labels i w' \<noteq> []"
    by (intro exI conjI, rule gone_served) (simp_all add: gone_owned)
  show "\<exists>e i qs w h w'. pm_history False e i qs w h w' \<and> w_obj w' = None \<and> (\<exists>p \<in> set (owned pm_labels i w'). \<not> terminating p)"
    by (intro exI conjI, rule pm_lag_served)
      (simp_all add: owned_def selects_def pm_labels_def ident_of_def lag_pm_def demo_pm_def newPodForPodManager_def ownerLabels_def terminating_def Time_IsZero_def meta0_def)
  show "\<exists>(e :: SimpleApp kube_env) gvk i qs w h w'. sa_history False e gvk i qs w h w' \<and> w_obj w' = None \<and>
      (\<exists>p \<in> set (owned app_labels i w'). \<not> terminating p)"
    by (intro exI conjI, rule sa_lag_served)
      (simp_all add: owned_def selects_def app_labels_def ident_of_def demo_app_def sa_pod_def sa_labels_def terminating_def Time_IsZero_def meta0_def)
qed

theorem pods_do_not_outlive_witness:
  "owned pm_labels (ident_of (pm_meta gone_pm)) (gone_world\<lparr>w_obj := None, w_pods := [stamp 1 (demo_pod 0)]\<rparr>) = [stamp 1 (demo_pod 0)] \<and>
   terminating (stamp 1 (demo_pod 0))"
proof -
  have "\<not> held pm_meta (\<lambda>m. ContainsFinalizer gone_env m finalizerName) (gone_world\<lparr>w_obj := None, w_pods := [stamp 1 (demo_pod 0)]\<rparr>)"
    by (simp add: held_def)
  then show ?thesis using pods_do_not_outlive [THEN conjunct1, rule_format, OF gone_served] by (simp add: gone_owned)
qed

end
