(* ===== verification/Conflict_Retry.thy ===== *)
theory Conflict_Retry
  imports Kube_Api
begin

text \<open>
  What the two programs under
  \<open>src/client-go/examples-from-other-repo/client-go-official-examples/\<close> that create, update, list and delete a Deployment
  have in common: the calls they make, the library function \<open>RetryOnConflict\<close>, the prompt between the parts, and the
  interface \<open>lifecycle\<close>, which states what such a program does and derives what its log looks like. One program works on
  typed objects (\<open>Deployment_Lifecycle\<close>), the other on untyped ones (\<open>Dynamic_Deployment\<close>); \<open>'d\<close> is the type of object.

  The calls are logged, as in the controllers; what the server answers may depend on the whole log, so other clients may
  write at any moment. \<open>RetryOnConflict\<close> is a parameter; \<open>retried\<close> is what its documentation promises. Of what is
  printed only the lines of the list are logged; progress messages are not.
\<close>

section \<open>Definitions\<close>

datatype 'd dcall =
    DCreate 'd "go_error + 'd"
  | DGet string "go_error + 'd"
  | DUpdate 'd "go_error + 'd"
  | DList "go_error + 'd list"
  | DDelete string string "go_error option"
  | DPrompt "go_error option"
  | DPrint string

record ('d, 'cfg) deploy_env =
  de_BuildConfigFromFlags :: "string \<Rightarrow> go_error + 'cfg"
  de_NewForConfig :: "'cfg \<Rightarrow> go_error option"
  de_zero :: 'd
  de_Create :: "'d dcall list \<Rightarrow> 'd \<Rightarrow> go_error + 'd"
  de_Get :: "'d dcall list \<Rightarrow> string \<Rightarrow> go_error + 'd"
  de_Update :: "'d dcall list \<Rightarrow> 'd \<Rightarrow> go_error + 'd"
  de_List :: "'d dcall list \<Rightarrow> go_error + 'd list"
  de_Delete :: "'d dcall list \<Rightarrow> string \<Rightarrow> string \<Rightarrow> go_error option"
  de_Scan :: "'d dcall list \<Rightarrow> go_error option"
  de_RetryOnConflict :: "('d dcall list, go_error option outcome) state \<Rightarrow> ('d dcall list, go_error option outcome) state"

type_synonym ('d, 'a) dprog = "('d dcall list, 'a outcome) state"

definition d_print :: "string \<Rightarrow> ('d, unit) dprog" where
  "d_print s = do { note_call (DPrint s); return (Ret ()) }"

definition prompt :: "('d, 'cfg) deploy_env \<Rightarrow> ('d, unit) dprog" where
  "prompt e = do {
     err \<leftarrow> perform (de_Scan e) DPrompt;
     return (case err of None \<Rightarrow> Ret () | Some er \<Rightarrow> Panic (PanicErr (Error er)))
   }"

subsection \<open>What the library and the server promise\<close>

text \<open>
  \<open>RetryOnConflict\<close> runs the function; when it reports a conflict it runs it again or gives up with that error; any other
  result, and a panic, is final.
\<close>

definition is_conflict :: "go_error option outcome \<Rightarrow> bool" where
  "is_conflict r \<longleftrightarrow> (case r of Ret (Some (StatusError ReasonConflict m)) \<Rightarrow> True | _ \<Rightarrow> False)"

inductive retried :: "('w, go_error option outcome) state \<Rightarrow> 'w \<Rightarrow> go_error option outcome \<times> 'w \<Rightarrow> bool"
  for f where
  Final: "run_state f h = (r, h') \<Longrightarrow> retried f h (r, h')"
| Again: "run_state f h = (r, h') \<Longrightarrow> is_conflict r \<Longrightarrow> retried f h' x \<Longrightarrow> retried f h x"

definition retry_law :: "('d, 'cfg) deploy_env \<Rightarrow> bool" where
  "retry_law e \<longleftrightarrow> (\<forall>f h. retried f h (run_state (de_RetryOnConflict e f) h))"

text \<open>
  Optimistic concurrency: \<open>cur h\<close> is the stored Deployment when the call after the log \<open>h\<close> is served. A read returns it, an
  update is accepted only with its resource version, and the version changes with every write.
\<close>

definition occ_server :: "('d \<Rightarrow> string) \<Rightarrow> ('d, 'cfg) deploy_env \<Rightarrow> ('d dcall list \<Rightarrow> 'd) \<Rightarrow> bool" where
  "occ_server version e cur \<longleftrightarrow>
     (\<forall>h d. de_Get e h ''demo-deployment'' = Inr d \<longrightarrow> d = cur h) \<and>
     (\<forall>h d d'. de_Update e h d = Inr d' \<longrightarrow> version d = version (cur h)) \<and>
     (\<forall>h t. version (cur (h @ t)) = version (cur h) \<longrightarrow> cur (h @ t) = cur h)"

subsection \<open>Invariants of a log\<close>

text \<open>Every accepted update in a log is the edit of what was stored right then.\<close>

definition accepted_edits :: "('d \<Rightarrow> 'd outcome) \<Rightarrow> ('d dcall list \<Rightarrow> 'd) \<Rightarrow> 'd dcall list \<Rightarrow> bool" where
  "accepted_edits edit cur h \<longleftrightarrow>
     (\<forall>pre d d' post. h = pre @ DUpdate d (Inr d') # post \<longrightarrow> edit (cur pre) = Ret d)"

text \<open>A part of the program keeps an invariant of the log; the log so far acknowledges no deletion.\<close>

definition keeps :: "('h \<Rightarrow> bool) \<Rightarrow> ('h, 'a outcome) state \<Rightarrow> bool" where
  "keeps P m \<longleftrightarrow> (\<forall>h r h'. P h \<longrightarrow> run_state m h = (r, h') \<longrightarrow> P h')"

definition undeleted :: "'d dcall list \<Rightarrow> bool" where
  "undeleted h \<longleftrightarrow> (\<forall>n p. DDelete n p None \<notin> set h)"

text \<open>The log of a run that returns.\<close>

definition lifecycle_log :: "'d \<Rightarrow> ('d \<Rightarrow> string) \<Rightarrow> 'd dcall list \<Rightarrow> bool" where
  "lifecycle_log obj line h \<longleftrightarrow>
     (\<exists>d0 t d d' ds. h = [DCreate obj (Inr d0), DPrompt None] @ t @
        [DUpdate d (Inr d'), DPrompt None, DList (Inr ds)] @ map (DPrint \<circ> line) ds @
        [DPrompt None, DDelete ''demo-deployment'' ''Foreground'' None])"

section \<open>Lemmas\<close>

subsection \<open>Logs\<close>

lemma accepted_edits_Nil [simp]: "accepted_edits edit cur []"
  by (simp add: accepted_edits_def)

lemma accepted_edits_snoc:
  "accepted_edits edit cur (h @ [c]) \<longleftrightarrow>
     accepted_edits edit cur h \<and> (\<forall>d d'. c = DUpdate d (Inr d') \<longrightarrow> edit (cur h) = Ret d)"
  unfolding accepted_edits_def snoc_eq_mid by blast

lemma undeleted_Nil [simp]: "undeleted []"
  by (simp add: undeleted_def)

lemma undeleted_snoc [simp]: "undeleted (h @ [c]) \<longleftrightarrow> undeleted h \<and> (\<forall>n p. c \<noteq> DDelete n p None)"
  by (auto simp: undeleted_def)

subsection \<open>Parts that keep an invariant\<close>

lemma keeps_return: "keeps P (return x)"
  by (simp add: keeps_def)

lemma keeps_then:
  assumes "keeps P m" and "P h" and "run_state (obind m f) h = (r, h')"
    and "\<And>p. r = Panic p \<Longrightarrow> P h' \<Longrightarrow> Q" and "\<And>a h1. P h1 \<Longrightarrow> run_state (f a) h1 = (r, h') \<Longrightarrow> Q"
  shows Q
proof -
  obtain x h1 where x: "run_state m h = (x, h1)" by fastforce
  then have "P h1" using assms(1,2) unfolding keeps_def by blast
  then show ?thesis using assms(3-5) x by (cases x) auto
qed

lemma keeps_obind:
  assumes "keeps P m" and "\<And>a. keeps P (f a)"
  shows "keeps P (obind m f)"
  unfolding keeps_def
proof (intro allI impI)
  fix h r h'
  assume "P h" and "run_state (obind m f) h = (r, h')"
  from assms(1) this show "P h'"
  proof (rule keeps_then)
    fix a h1
    assume "P h1" and "run_state (f a) h1 = (r, h')"
    then show "P h'" using assms(2) [of a] unfolding keeps_def by blast
  qed
qed

lemma obind_RetE:
  assumes "run_state (obind m f) h = (Ret b, h')"
  obtains a h1 where "run_state m h = (Ret a, h1)" and "run_state (f a) h1 = (Ret b, h')"
  using assms by (auto split: prod.splits outcome.splits)

lemma prompt_Ret: "run_state (prompt e) h = (Ret u, h') \<Longrightarrow> h' = h @ [DPrompt None]"
  by (auto simp: prompt_def split: option.splits)

lemma prompt_run: "run_state (prompt e) h = (r, h') \<Longrightarrow> h' = h @ [DPrompt (de_Scan e h)]"
  by (auto simp: prompt_def)

subsection \<open>Retrying\<close>

lemma retried_keeps:
  assumes "retried f h x" and "keeps P f" and "P h"
  shows "P (snd x)"
  using assms(1,3)
proof induction
  case (Final h r h')
  then show ?case using assms(2) by (auto simp: keeps_def)
next
  case (Again h r h' x)
  then show ?case using assms(2) by (auto simp: keeps_def)
qed

lemma retried_last:
  assumes "retried f h x" and "emits f (\<lambda>_ _. True)"
  shows "\<exists>t. run_state f (h @ t) = x"
  using assms(1)
proof induction
  case (Final h r h')
  then show ?case by (metis append_Nil2)
next
  case (Again h r h' x)
  obtain seg t where "h' = h @ seg" "run_state f (h' @ t) = x" using emitsD [OF assms(2) Again(1)] Again.IH by blast
  then show ?case by (metis append.assoc)
qed

lemma keeps_retry:
  assumes "retry_law e" and "keeps P f"
  shows "keeps P (de_RetryOnConflict e f)"
  unfolding keeps_def
proof (intro allI impI)
  fix h r h'
  assume "P h" and "run_state (de_RetryOnConflict e f) h = (r, h')"
  moreover have "retried f h (run_state (de_RetryOnConflict e f) h)" using assms(1) by (simp add: retry_law_def)
  ultimately show "P h'" using retried_keeps [OF _ assms(2), of h "(r, h')"] by simp
qed

lemma retry_once_law: "(\<And>f. de_RetryOnConflict e f = f) \<Longrightarrow> retry_law e"
  unfolding retry_law_def by (metis prod.collapse retried.Final)

section \<open>The interface of a lifecycle program\<close>

text \<open>
  \<open>edit\<close> changes an object that was read, \<open>version\<close> is its resource version, \<open>obj\<close> the object the program creates,
  \<open>line\<close> what it prints for a listed object; the others are the parts of the program and its body.
\<close>

locale lifecycle =
  fixes edit :: "'d \<Rightarrow> 'd outcome" and version :: "'d \<Rightarrow> string" and obj :: "('d, 'cfg) deploy_env \<Rightarrow> 'd"
    and line :: "'d \<Rightarrow> string" and attempt :: "('d, 'cfg) deploy_env \<Rightarrow> ('d, go_error option) dprog"
    and create update listing delete body :: "('d, 'cfg) deploy_env \<Rightarrow> ('d, unit) dprog"
  assumes edit_version: "edit d = Ret d' \<Longrightarrow> version d' = version d"
    and create_step: "run_state (create e) h = (r, h') \<Longrightarrow>
      h' = h @ [DCreate (obj e) (de_Create e h (obj e))] \<and> (\<forall>u. r = Ret u \<longrightarrow> (\<exists>d. de_Create e h (obj e) = Inr d))"
    and attempt_step: "run_state (attempt e) h = (q, h') \<Longrightarrow>
      (\<exists>g. h' = h @ [DGet ''demo-deployment'' g] \<and> q \<noteq> Ret None) \<or>
      (\<exists>d d1. de_Get e h ''demo-deployment'' = Inr d \<and> edit d = Ret d1 \<and>
         h' = h @ [DGet ''demo-deployment'' (Inr d)] @ [DUpdate d1 (de_Update e (h @ [DGet ''demo-deployment'' (Inr d)]) d1)] \<and>
         (q = Ret None \<longrightarrow> (\<exists>d2. de_Update e (h @ [DGet ''demo-deployment'' (Inr d)]) d1 = Inr d2)))"
    and update_step: "\<exists>f. update e = obind (de_RetryOnConflict e (attempt e)) f \<and> f None = return (Ret ()) \<and>
      (\<forall>err. \<exists>p. f (Some err) = return (Panic p))"
    and listing_step: "run_state (listing e) h = (r, h') \<Longrightarrow>
      (\<exists>err. h' = h @ [DList (Inl err)] \<and> (\<forall>u. r \<noteq> Ret u)) \<or>
      (\<exists>ds k. h' = h @ DList (Inr ds) # map (DPrint \<circ> line) (take k ds) \<and> ((\<exists>u. r = Ret u) \<longrightarrow> k = length ds))"
    and delete_step: "run_state (delete e) h = (r, h') \<Longrightarrow>
      h' = h @ [DDelete ''demo-deployment'' ''Foreground'' (de_Delete e h ''demo-deployment'' ''Foreground'')] \<and>
      ((\<exists>u. r = Ret u) \<longleftrightarrow> de_Delete e h ''demo-deployment'' ''Foreground'' = None)"
    and body_parts: "body e =
      obind (create e) (\<lambda>_. obind (prompt e) (\<lambda>_. obind (update e) (\<lambda>_. obind (prompt e) (\<lambda>_.
      obind (listing e) (\<lambda>_. obind (prompt e) (\<lambda>_. delete e))))))"
begin

lemma attempt_keeps:
  assumes "occ_server version e cur"
  shows "keeps (\<lambda>h. accepted_edits edit cur h \<and> undeleted h) (attempt e)"
  unfolding keeps_def
proof (intro allI impI)
  fix h r h'
  assume h: "accepted_edits edit cur h \<and> undeleted h" and "run_state (attempt e) h = (r, h')"
  from attempt_step [OF this(2)] show "accepted_edits edit cur h' \<and> undeleted h'"
  proof (elim disjE exE conjE)
    fix d d1
    let ?h1 = "h @ [DGet ''demo-deployment'' (Inr d)]"
    assume g: "de_Get e h ''demo-deployment'' = Inr d" and d1: "edit d = Ret d1"
      and h': "h' = h @ [DGet ''demo-deployment'' (Inr d)] @ [DUpdate d1 (de_Update e ?h1 d1)]"
    have d: "d = cur h" using assms g by (auto simp: occ_server_def)
    have "edit (cur ?h1) = Ret d1" if "de_Update e ?h1 d1 = Inr d2" for d2
    proof -
      have "version (cur ?h1) = version d1" using assms that unfolding occ_server_def by metis
      then have "cur ?h1 = cur h" using assms edit_version [OF d1] unfolding occ_server_def d by metis
      then show ?thesis using d1 d by simp
    qed
    moreover have "accepted_edits edit cur ?h1 \<and> undeleted ?h1" using h by (simp add: accepted_edits_snoc)
    ultimately show ?thesis unfolding h' append.assoc [symmetric] accepted_edits_snoc undeleted_snoc by auto
  qed (use h in \<open>simp add: accepted_edits_snoc\<close>)
qed

lemma attempt_emits: "emits (attempt e) (\<lambda>_ _. True)"
  unfolding emits_def
proof
  fix h
  show "\<exists>seg. snd (run_state (attempt e) h) = h @ seg \<and> True"
    using attempt_step [of e h "fst (run_state (attempt e) h)" "snd (run_state (attempt e) h)"] by auto
qed

lemma update_keeps:
  assumes "retry_law e" and "occ_server version e cur"
  shows "keeps (\<lambda>h. accepted_edits edit cur h \<and> undeleted h) (update e)"
proof -
  obtain f where f: "update e = obind (de_RetryOnConflict e (attempt e)) f" "f None = return (Ret ())"
    "\<And>err. \<exists>p. f (Some err) = return (Panic p)" using update_step by blast
  have "keeps P (f a)" for P :: "'d dcall list \<Rightarrow> bool" and a
    using f(2,3) by (cases a) (auto simp: keeps_return, metis keeps_return)
  then show ?thesis unfolding f(1) by (intro keeps_obind keeps_retry [OF assms(1)] attempt_keeps [OF assms(2)])
qed

lemma update_Ret:
  assumes "retry_law e" and "run_state (update e) h = (Ret u, h')"
  shows "\<exists>t d d'. h' = h @ t @ [DUpdate d (Inr d')]"
proof -
  obtain f where f: "update e = obind (de_RetryOnConflict e (attempt e)) f" "f None = return (Ret ())"
    "\<And>err. \<exists>p. f (Some err) = return (Panic p)" using update_step by blast
  obtain a where a: "run_state (de_RetryOnConflict e (attempt e)) h = (Ret a, h')" "a = None"
    using assms(2) unfolding f(1)
  proof (rule obind_RetE)
    fix a h1
    assume r: "run_state (de_RetryOnConflict e (attempt e)) h = (Ret a, h1)" and b: "run_state (f a) h1 = (Ret u, h')"
    show ?thesis
    proof (cases a)
      case None
      then show ?thesis using that r b f(2) by simp
    next
      case (Some err)
      then show ?thesis using b f(3) [of err] by auto
    qed
  qed
  have "retried (attempt e) h (Ret None, h')" using assms(1) a unfolding retry_law_def by metis
  then obtain t where "run_state (attempt e) (h @ t) = (Ret None, h')" using retried_last [OF _ attempt_emits] by blast
  from attempt_step [OF this] show ?thesis by auto
qed

lemma simple_keeps:
  "keeps (\<lambda>h. accepted_edits edit cur h \<and> undeleted h) (create e)"
  "keeps (\<lambda>h. accepted_edits edit cur h \<and> undeleted h) (prompt e)"
  by (auto simp: keeps_def accepted_edits_snoc dest!: create_step prompt_run)

lemma printed_keeps:
  "accepted_edits edit cur (h @ map (DPrint \<circ> l) xs) \<and> undeleted (h @ map (DPrint \<circ> l) xs) \<longleftrightarrow>
   accepted_edits edit cur h \<and> undeleted h"
proof (induction xs rule: rev_induct)
  case (snoc x xs)
  have eq: "h @ map (DPrint \<circ> l) (xs @ [x]) = (h @ map (DPrint \<circ> l) xs) @ [DPrint (l x)]" by simp
  show ?case unfolding eq accepted_edits_snoc undeleted_snoc using snoc.IH by blast
qed simp

lemma listing_keeps: "keeps (\<lambda>h. accepted_edits edit cur h \<and> undeleted h) (listing e)"
  unfolding keeps_def
proof (intro allI impI)
  fix h r h'
  assume h: "accepted_edits edit cur h \<and> undeleted h" and "run_state (listing e) h = (r, h')"
  have l: "accepted_edits edit cur (h @ [DList x]) \<and> undeleted (h @ [DList x])" for x
    using h by (simp add: accepted_edits_snoc)
  from listing_step [OF \<open>run_state (listing e) h = (r, h')\<close>] show "accepted_edits edit cur h' \<and> undeleted h'"
  proof (elim disjE exE conjE)
    fix ds k
    assume "h' = h @ DList (Inr ds) # map (DPrint \<circ> line) (take k ds)"
    then have "h' = (h @ [DList (Inr ds)]) @ map (DPrint \<circ> line) (take k ds)" by simp
    then show ?thesis using l [of "Inr ds"] by (simp only: printed_keeps)
  qed (use l in simp)
qed

lemma body_log:
  assumes laws: "retry_law e" "occ_server version e cur" and run: "run_state (body e) h = (r, h')"
    and start: "accepted_edits edit cur h \<and> undeleted h"
  shows "accepted_edits edit cur h' \<and> ((\<exists>u. r = Ret u) \<or> undeleted h')"
proof -
  let ?P = "\<lambda>h. accepted_edits edit cur h \<and> undeleted h"
  have final: ?thesis if "?P h1" "run_state (delete e) h1 = (r, h')" for h1
    using delete_step [OF that(2)] that(1) by (auto simp: accepted_edits_snoc)
  note part = keeps_then [where P = ?P and r = r and h' = h' and Q = ?thesis]
  show ?thesis
    using run unfolding body_parts
    by (rule part [OF simple_keeps(1) start], simp)
      (rule part [OF simple_keeps(2)], assumption, assumption, simp,
       rule part [OF update_keeps [OF laws]], assumption, assumption, simp,
       rule part [OF simple_keeps(2)], assumption, assumption, simp,
       rule part [OF listing_keeps], assumption, assumption, simp,
       rule part [OF simple_keeps(2)], assumption, assumption, simp, rule final)
qed

lemma body_shape:
  assumes "retry_law e" and "run_state (body e) [] = (Ret u, h')"
  shows "lifecycle_log (obj e) line h'"
proof -
  obtain u1 u2 u3 u4 u5 u6 h1 h2 h3 h4 h5 h6 where r: "run_state (create e) [] = (Ret u1, h1)"
    "run_state (prompt e) h1 = (Ret u2, h2)" "run_state (update e) h2 = (Ret u3, h3)"
    "run_state (prompt e) h3 = (Ret u4, h4)" "run_state (listing e) h4 = (Ret u5, h5)"
    "run_state (prompt e) h5 = (Ret u6, h6)" "run_state (delete e) h6 = (Ret u, h')"
    using assms(2) unfolding body_parts by (elim obind_RetE) blast
  obtain d0 where "h1 = [DCreate (obj e) (Inr d0)]" using create_step [OF r(1)] by auto
  moreover obtain t d d' where "h3 = h2 @ t @ [DUpdate d (Inr d')]" using update_Ret [OF assms(1) r(3)] by blast
  moreover obtain ds where "h5 = h4 @ DList (Inr ds) # map (DPrint \<circ> line) ds" using listing_step [OF r(5)] by auto
  moreover have "h' = h6 @ [DDelete ''demo-deployment'' ''Foreground'' None]" using delete_step [OF r(7)] by auto
  ultimately show ?thesis using prompt_Ret [OF r(2)] prompt_Ret [OF r(4)] prompt_Ret [OF r(6)]
    unfolding lifecycle_log_def by (intro exI [of _ d0] exI [of _ t] exI [of _ d] exI [of _ d'] exI [of _ ds]) simp
qed

end


end
