(* ===== verification/Deployment_Lifecycle.thy ===== *)
theory Deployment_Lifecycle
  imports Conflict_Retry
begin

text \<open>
  The program \<open>src/client-go/examples-from-other-repo/client-go-official-examples/create-update-delete-deployment/main.go\<close>:
  it creates a Deployment, updates it under \<open>retry.RetryOnConflict\<close>, lists and deletes it, and waits for a key in between.
  It is an interpretation of the interface \<open>lifecycle\<close>.

  Only the fields the program sets or reads are spelt out; what else a Deployment holds is the type parameter of the
  record. A nil pointer to the number of replicas is read while the list is printed.
\<close>

section \<open>Definitions\<close>

subsection \<open>Deployments and the calls on them\<close>

record ContainerPort =
  cp_Name :: string
  cp_Protocol :: string
  cp_ContainerPort :: int32

record WebContainer =
  wc_Name :: string
  wc_Image :: string
  wc_Ports :: "ContainerPort list"

record Deployment =
  dp_Name :: string
  dp_ResourceVersion :: string
  dp_Replicas :: "int32 option"
  dp_MatchLabels :: entries
  dp_TemplateLabels :: entries
  dp_Containers :: "WebContainer list"

subsection \<open>The program\<close>

definition demo_deployment :: "('x Deployment_scheme, 'cfg) deploy_env \<Rightarrow> 'x Deployment_scheme" where
  "demo_deployment e = (de_zero e)\<lparr>dp_Name := ''demo-deployment'', dp_Replicas := Some 2,
     dp_MatchLabels := [(''app'', ''demo'')], dp_TemplateLabels := [(''app'', ''demo'')],
     dp_Containers := [\<lparr>wc_Name = ''web'', wc_Image = ''nginx:1.12'',
       wc_Ports = [\<lparr>cp_Name = ''http'', cp_Protocol = ''TCP'', cp_ContainerPort = 80\<rparr>]\<rparr>]\<rparr>"

definition edit_deployment :: "'x Deployment_scheme \<Rightarrow> 'x Deployment_scheme outcome" where
  "edit_deployment result =
     (let result1 = result\<lparr>dp_Replicas := Some 1\<rparr> in
      (case dp_Containers result1 of
         [] \<Rightarrow> Panic IndexOutOfRange
       | c # cs \<Rightarrow> Ret (result1\<lparr>dp_Containers := c\<lparr>wc_Image := ''nginx:1.13''\<rparr> # cs\<rparr>)))"

definition try_update :: "('x Deployment_scheme, 'cfg) deploy_env \<Rightarrow> ('x Deployment_scheme, go_error option) dprog" where
  "try_update e = do {
     g \<leftarrow> perform (\<lambda>h. de_Get e h ''demo-deployment'') (DGet ''demo-deployment'');
     (case g of
        Inl getErr \<Rightarrow> return (Panic (PanicErr (''Failed to get latest version of Deployment: '' @ Error getErr)))
      | Inr result \<Rightarrow>
          (case edit_deployment result of
             Panic p \<Rightarrow> return (Panic p)
           | Ret result1 \<Rightarrow> do {
               u \<leftarrow> perform (\<lambda>h. de_Update e h result1) (DUpdate result1);
               return (Ret (case u of Inl updateErr \<Rightarrow> Some updateErr | Inr _ \<Rightarrow> None))
             }))
   }"

fun print_deployments :: "'x Deployment_scheme list \<Rightarrow> ('x Deployment_scheme, unit) dprog" where
  "print_deployments [] = return (Ret ())"
| "print_deployments (d # ds) =
     (case dp_Replicas d of
        None \<Rightarrow> return (Panic NilDereference)
      | Some n \<Rightarrow> obind (d_print ('' * '' @ dp_Name d @ '' ('' @ show_int (sint n) @ '' replicas)''))
          (\<lambda>_. print_deployments ds))"

definition create_deployment :: "('x Deployment_scheme, 'cfg) deploy_env \<Rightarrow> ('x Deployment_scheme, unit) dprog" where
  "create_deployment e = do {
     c \<leftarrow> perform (\<lambda>h. de_Create e h (demo_deployment e)) (DCreate (demo_deployment e));
     (case c of Inl err \<Rightarrow> return (Panic (PanicErr (Error err))) | Inr result \<Rightarrow> return (Ret ()))
   }"

definition update_deployment :: "('x Deployment_scheme, 'cfg) deploy_env \<Rightarrow> ('x Deployment_scheme, unit) dprog" where
  "update_deployment e = obind (de_RetryOnConflict e (try_update e)) (\<lambda>retryErr.
     case retryErr of
       Some err \<Rightarrow> return (Panic (PanicErr (''Update failed: '' @ Error err)))
     | None \<Rightarrow> return (Ret ()))"

definition list_deployments :: "('x Deployment_scheme, 'cfg) deploy_env \<Rightarrow> ('x Deployment_scheme, unit) dprog" where
  "list_deployments e = do {
     l \<leftarrow> perform (de_List e) DList;
     (case l of Inl err \<Rightarrow> return (Panic (PanicErr (Error err))) | Inr items \<Rightarrow> print_deployments items)
   }"

definition delete_deployment :: "('x Deployment_scheme, 'cfg) deploy_env \<Rightarrow> ('x Deployment_scheme, unit) dprog" where
  "delete_deployment e = do {
     r \<leftarrow> perform (\<lambda>h. de_Delete e h ''demo-deployment'' ''Foreground'') (DDelete ''demo-deployment'' ''Foreground'');
     (case r of Some err \<Rightarrow> return (Panic (PanicErr (Error err))) | None \<Rightarrow> return (Ret ()))
   }"

definition main_body :: "('x Deployment_scheme, 'cfg) deploy_env \<Rightarrow> ('x Deployment_scheme, unit) dprog" where
  "main_body e =
     obind (create_deployment e) (\<lambda>_.
     obind (prompt e) (\<lambda>_.
     obind (update_deployment e) (\<lambda>_.
     obind (prompt e) (\<lambda>_.
     obind (list_deployments e) (\<lambda>_.
     obind (prompt e) (\<lambda>_.
     delete_deployment e))))))"

definition deployment_main :: "('x Deployment_scheme, 'cfg) deploy_env \<Rightarrow> string \<Rightarrow> ('x Deployment_scheme, unit) dprog" where
  "deployment_main e kubeconfig =
     (case de_BuildConfigFromFlags e kubeconfig of
        Inl err \<Rightarrow> return (Panic (PanicErr (Error err)))
      | Inr config \<Rightarrow>
          (case de_NewForConfig e config of
             Some err \<Rightarrow> return (Panic (PanicErr (Error err)))
           | None \<Rightarrow> main_body e))"

subsection \<open>What a log shows\<close>

text \<open>Every accepted update in a log changes nothing but the replicas and the first image of what was stored right then.\<close>

definition no_lost_write :: "('x Deployment_scheme dcall list \<Rightarrow> 'x Deployment_scheme) \<Rightarrow> 'x Deployment_scheme dcall list \<Rightarrow> bool" where
  "no_lost_write cur h \<longleftrightarrow>
     (\<forall>pre d d' post. h = pre @ DUpdate d (Inr d') # post \<longrightarrow>
        dp_Containers (cur pre) \<noteq> [] \<and>
        d = (cur pre)\<lparr>dp_Replicas := Some 1,
          dp_Containers := (hd (dp_Containers (cur pre)))\<lparr>wc_Image := ''nginx:1.13''\<rparr> # tl (dp_Containers (cur pre))\<rparr>)"

definition listed_line :: "'x Deployment_scheme \<Rightarrow> string" where
  "listed_line d = '' * '' @ dp_Name d @ '' ('' @ show_int (sint (the (dp_Replicas d))) @ '' replicas)''"

text \<open>A server in memory: versions are strings that grow with every accepted write.\<close>

fun mem_write :: "Deployment \<Rightarrow> Deployment dcall \<Rightarrow> Deployment" where
  "mem_write d (DCreate x (Inr y)) = x\<lparr>dp_ResourceVersion := CHR ''v'' # dp_ResourceVersion d\<rparr>"
| "mem_write d (DUpdate x (Inr y)) = x\<lparr>dp_ResourceVersion := CHR ''v'' # dp_ResourceVersion d\<rparr>"
| "mem_write d _ = d"

definition mem_cur :: "Deployment dcall list \<Rightarrow> Deployment" where
  "mem_cur h = foldl mem_write \<lparr>dp_Name = '''', dp_ResourceVersion = '''', dp_Replicas = None, dp_MatchLabels = [],
     dp_TemplateLabels = [], dp_Containers = []\<rparr> h"

definition mem_deploy :: "(Deployment, unit) deploy_env" where
  "mem_deploy = \<lparr>de_BuildConfigFromFlags = (\<lambda>_. Inr ()), de_NewForConfig = (\<lambda>_. None), de_zero = mem_cur [],
     de_Create = (\<lambda>h d. Inr d), de_Get = (\<lambda>h n. Inr (mem_cur h)),
     de_Update = (\<lambda>h d. if dp_ResourceVersion d = dp_ResourceVersion (mem_cur h) then Inr d
        else Inl (StatusError ReasonConflict ''conflict'')),
     de_List = (\<lambda>h. Inr [mem_cur h]), de_Delete = (\<lambda>h n p. None), de_Scan = (\<lambda>_. None), de_RetryOnConflict = (\<lambda>f. f)\<rparr>"

section \<open>Lemmas\<close>

lemma edit_deployment_Ret:
  "edit_deployment d = Ret d' \<longleftrightarrow> dp_Containers d \<noteq> [] \<and>
     d' = d\<lparr>dp_Replicas := Some 1, dp_Containers := (hd (dp_Containers d))\<lparr>wc_Image := ''nginx:1.13''\<rparr> # tl (dp_Containers d)\<rparr>"
  by (cases "dp_Containers d") (auto simp: edit_deployment_def Let_def)

lemma no_lost_write_alt: "no_lost_write cur h \<longleftrightarrow> accepted_edits edit_deployment cur h"
  by (simp add: no_lost_write_def accepted_edits_def edit_deployment_Ret)

lemma print_deployments_run:
  assumes "run_state (print_deployments ds) h = (r, h')"
  shows "\<exists>k. h' = h @ map (DPrint \<circ> listed_line) (take k ds) \<and> ((\<exists>u. r = Ret u) \<longrightarrow> k = length ds)"
  using assms
proof (induction ds arbitrary: h)
  case (Cons d ds)
  show ?case
  proof (cases "dp_Replicas d")
    case None
    then show ?thesis using Cons.prems by (intro exI [of _ 0]) auto
  next
    case (Some n)
    with Cons.prems have "run_state (print_deployments ds) (h @ [DPrint (listed_line d)]) = (r, h')"
      by (simp add: d_print_def listed_line_def)
    from Cons.IH [OF this] obtain k where
      "h' = (h @ [DPrint (listed_line d)]) @ map (DPrint \<circ> listed_line) (take k ds)" "(\<exists>u. r = Ret u) \<longrightarrow> k = length ds"
      by blast
    then show ?thesis by (intro exI [of _ "Suc k"]) simp
  qed
qed simp

lemma list_deployments_run:
  assumes "run_state (list_deployments e) h = (r, h')"
  shows "(\<exists>err. h' = h @ [DList (Inl err)] \<and> (\<forall>u. r \<noteq> Ret u)) \<or>
    (\<exists>ds k. h' = h @ DList (Inr ds) # map (DPrint \<circ> listed_line) (take k ds) \<and> ((\<exists>u. r = Ret u) \<longrightarrow> k = length ds))"
proof (cases "de_List e h")
  case (Inl err)
  then show ?thesis using assms by (auto simp: list_deployments_def)
next
  case (Inr ds)
  then have "run_state (print_deployments ds) (h @ [DList (Inr ds)]) = (r, h')" using assms by (simp add: list_deployments_def)
  from print_deployments_run [OF this] show ?thesis by auto
qed

lemma try_update_run:
  assumes "run_state (try_update e) h = (r, h')"
  shows "(\<exists>g. h' = h @ [DGet ''demo-deployment'' g] \<and> r \<noteq> Ret None) \<or>
    (\<exists>d d1. de_Get e h ''demo-deployment'' = Inr d \<and> edit_deployment d = Ret d1 \<and>
       h' = h @ [DGet ''demo-deployment'' (Inr d)] @ [DUpdate d1 (de_Update e (h @ [DGet ''demo-deployment'' (Inr d)]) d1)] \<and>
       (r = Ret None \<longrightarrow> (\<exists>d2. de_Update e (h @ [DGet ''demo-deployment'' (Inr d)]) d1 = Inr d2)))"
proof (cases "de_Get e h ''demo-deployment''")
  case (Inl err)
  then show ?thesis using assms by (auto simp: try_update_def)
next
  case (Inr d)
  then show ?thesis using assms by (cases "edit_deployment d") (auto simp: try_update_def split: sum.splits)
qed

interpretation typed: lifecycle edit_deployment dp_ResourceVersion demo_deployment listed_line try_update create_deployment
  update_deployment list_deployments delete_deployment main_body
proof (unfold_locales, goal_cases)
  case 1 then show ?case by (auto simp: edit_deployment_Ret)
next
  case 2 then show ?case by (auto simp: create_deployment_def split: sum.splits)
next
  case 3 then show ?case by (rule try_update_run)
next
  case 4 show ?case by (intro exI conjI allI, rule update_deployment_def) simp_all
next
  case 5 then show ?case by (rule list_deployments_run)
next
  case 6 then show ?case by (auto simp: delete_deployment_def split: option.splits)
next
  case 7 show ?case by (rule main_body_def)
qed

lemma mem_write_version:
  "length (dp_ResourceVersion (mem_write d c)) \<ge> length (dp_ResourceVersion d) \<and>
   (length (dp_ResourceVersion (mem_write d c)) = length (dp_ResourceVersion d) \<longrightarrow> mem_write d c = d)"
  by (cases "(d, c)" rule: mem_write.cases) auto

lemma mem_write_versions:
  "length (dp_ResourceVersion (foldl mem_write d t)) \<ge> length (dp_ResourceVersion d) \<and>
   (length (dp_ResourceVersion (foldl mem_write d t)) = length (dp_ResourceVersion d) \<longrightarrow> foldl mem_write d t = d)"
proof (induction t arbitrary: d)
  case (Cons c t)
  show ?case using Cons.IH [of "mem_write d c"] mem_write_version [of d c] by auto
qed simp

lemma mem_deploy_laws: "retry_law mem_deploy" "occ_server dp_ResourceVersion mem_deploy mem_cur"
proof -
  show "retry_law mem_deploy" by (rule retry_once_law) (simp add: mem_deploy_def)
  have "mem_cur (h @ t) = mem_cur h" if "dp_ResourceVersion (mem_cur (h @ t)) = dp_ResourceVersion (mem_cur h)" for h t
    using mem_write_versions [of "mem_cur h" t] that by (simp add: mem_cur_def)
  then show "occ_server dp_ResourceVersion mem_deploy mem_cur"
    by (auto simp: occ_server_def mem_deploy_def split: if_splits)
qed

section \<open>Properties\<close>

text \<open>C12. The update under \<open>RetryOnConflict\<close> loses no write of another client. Whatever other clients do between the calls of
  the program, every update the server accepts equals the Deployment stored at that very moment, with the replicas set to one
  and the first image changed and nothing else. A run that returns has created the Deployment, updated it at least once,
  listed and then deleted it, in this order; a run that panics has deleted nothing.\<close>

theorem deployment_no_lost_write:
  assumes "retry_law e" and "occ_server dp_ResourceVersion e cur"
    and "run_state (deployment_main e kubeconfig) [] = (r, h)"
  shows "no_lost_write cur h \<and>
    (case r of
       Panic p \<Rightarrow> \<forall>n policy. DDelete n policy None \<notin> set h
     | Ret _ \<Rightarrow> \<exists>d0 t d d' ds. h = [DCreate (demo_deployment e) (Inr d0), DPrompt None] @ t @
         [DUpdate d (Inr d'), DPrompt None, DList (Inr ds)] @ map (DPrint \<circ> listed_line) ds @
         [DPrompt None, DDelete ''demo-deployment'' ''Foreground'' None])"
proof -
  consider p where "r = Panic p" "h = []" | "run_state (main_body e) [] = (r, h)"
    using assms(3) by (auto simp: deployment_main_def split: sum.splits option.splits)
  then show ?thesis
  proof cases
    case 2
    have "accepted_edits edit_deployment cur h \<and> ((\<exists>u. r = Ret u) \<or> undeleted h)"
      by (rule typed.body_log [OF assms(1,2) 2]) simp
    then show ?thesis using typed.body_shape [OF assms(1)] 2
      by (cases r) (simp_all add: no_lost_write_alt undeleted_def lifecycle_log_def)
  qed (simp add: no_lost_write_alt)
qed

theorem deployment_no_lost_write_witness:
  "fst (run_state (deployment_main mem_deploy ''cfg'') []) = Ret () \<and>
   no_lost_write mem_cur (snd (run_state (deployment_main mem_deploy ''cfg'') []))"
proof
  show "no_lost_write mem_cur (snd (run_state (deployment_main mem_deploy ''cfg'') []))"
    using deployment_no_lost_write [OF mem_deploy_laws prod.collapse [symmetric]] by blast
  show "fst (run_state (deployment_main mem_deploy ''cfg'') []) = Ret ()"
    by (simp add: deployment_main_def main_body_def mem_deploy_def create_deployment_def prompt_def update_deployment_def
        try_update_def edit_deployment_def demo_deployment_def list_deployments_def delete_deployment_def mem_cur_def d_print_def
        Let_def)
qed

end
