(* ===== verification/Unstructured.thy ===== *)
theory Unstructured
  imports Complex_Main Kube_Api "HOL-Library.AList" "HOL-Library.Sublist"
begin

text \<open>
  Untyped objects, as the programs on the dynamic client hold them: JSON values. The accessors of the package
  \<open>unstructured\<close> (\<open>SetNestedField\<close>, \<open>NestedSlice\<close>, \<open>NestedInt64\<close>, \<open>GetName\<close>, \<open>GetNamespace\<close>) belong to the API
  machinery and are parameters; \<open>nested_laws\<close> is what their documentation promises, in terms of the value at a path, and
  the locale \<open>nested_library\<close> derives what the programs use. An implementation over association lists satisfies it.
\<close>

section \<open>Definitions\<close>

datatype json =
    JNull
  | JBool bool
  | JInt int64
  | JFloat rat
  | JStr string
  | JList "json list"
  | JObj "(string \<times> json) list"

fun val_at :: "string list \<Rightarrow> json \<Rightarrow> json option" where
  "val_at [] j = Some j"
| "val_at (k # ks) (JObj m) = (case map_of m k of None \<Rightarrow> None | Some j \<Rightarrow> val_at ks j)"
| "val_at (k # ks) _ = None"

fun is_obj :: "json \<Rightarrow> bool" where
  "is_obj (JObj m) = True"
| "is_obj _ = False"

record nested_env =
  SetNestedField :: "json \<Rightarrow> json \<Rightarrow> string list \<Rightarrow> go_error + json"
  NestedSlice :: "json \<Rightarrow> string list \<Rightarrow> json list option \<times> bool \<times> go_error option"
  NestedInt64 :: "json \<Rightarrow> string list \<Rightarrow> int64 \<times> bool \<times> go_error option"
  GetName :: "json \<Rightarrow> string"
  GetNamespace :: "json \<Rightarrow> string"

text \<open>Two paths lead to different places when neither is a prefix of the other.\<close>

definition apart :: "string list \<Rightarrow> string list \<Rightarrow> bool" where
  "apart p q \<longleftrightarrow> \<not> prefix p q \<and> \<not> prefix q p"

definition str_at :: "string list \<Rightarrow> json \<Rightarrow> string" where
  "str_at p j = (case val_at p j of Some (JStr s) \<Rightarrow> s | _ \<Rightarrow> '''')"

text \<open>
  Setting a field puts the value at the path and leaves the places apart from it alone; it fails exactly when a level on
  the way exists and is not a map. A slice or an integer is found when there is one at the path; it is not found otherwise,
  with an error when there is something else at the path.
\<close>

definition blocked :: "json \<Rightarrow> string list \<Rightarrow> bool" where
  "blocked j p \<longleftrightarrow> (\<exists>q x. strict_prefix q p \<and> val_at q j = Some x \<and> \<not> is_obj x)"

definition set_law :: "nested_env \<Rightarrow> bool" where
  "set_law N \<longleftrightarrow>
     (\<forall>j v p j'. p \<noteq> [] \<longrightarrow> SetNestedField N j v p = Inr j' \<longrightarrow>
        val_at p j' = Some v \<and> (\<forall>q. apart p q \<longrightarrow> val_at q j' = val_at q j)) \<and>
     (\<forall>j v p. p \<noteq> [] \<longrightarrow> ((\<exists>err. SetNestedField N j v p = Inl err) \<longleftrightarrow> blocked j p))"

definition slice_law :: "nested_env \<Rightarrow> bool" where
  "slice_law N \<longleftrightarrow>
     (\<forall>j p xs. val_at p j = Some (JList xs) \<longrightarrow> NestedSlice N j p = (Some xs, True, None)) \<and>
     (\<forall>j p. (\<forall>xs. val_at p j \<noteq> Some (JList xs)) \<longrightarrow>
        (\<exists>err. NestedSlice N j p = (None, False, err) \<and> (val_at p j \<noteq> None \<longrightarrow> err \<noteq> None)))"

definition int_law :: "nested_env \<Rightarrow> bool" where
  "int_law N \<longleftrightarrow>
     (\<forall>j p n. val_at p j = Some (JInt n) \<longrightarrow> NestedInt64 N j p = (n, True, None)) \<and>
     (\<forall>j p. (\<forall>n. val_at p j \<noteq> Some (JInt n)) \<longrightarrow>
        (\<exists>err. NestedInt64 N j p = (0, False, err) \<and> (val_at p j \<noteq> None \<longrightarrow> err \<noteq> None)))"

definition nested_laws :: "nested_env \<Rightarrow> bool" where
  "nested_laws N \<longleftrightarrow> set_law N \<and> slice_law N \<and> int_law N \<and>
     (\<forall>j. GetName N j = str_at [''metadata'', ''name''] j) \<and>
     (\<forall>j. GetNamespace N j = str_at [''metadata'', ''namespace''] j)"

text \<open>An implementation over association lists.\<close>

fun nested_at :: "string list \<Rightarrow> json \<Rightarrow> go_error + json option" where
  "nested_at [] j = Inr (Some j)"
| "nested_at (k # ks) (JObj m) = (case map_of m k of None \<Rightarrow> Inr None | Some j \<Rightarrow> nested_at ks j)"
| "nested_at (k # ks) JNull = Inr None"
| "nested_at (k # ks) _ = Inl (PlainError ''accessor error: not a map'')"

fun set_at :: "json \<Rightarrow> json \<Rightarrow> string list \<Rightarrow> go_error + json" where
  "set_at j v [] = Inr v"
| "set_at (JObj m) v (k # ks) =
     (case set_at (case map_of m k of None \<Rightarrow> JObj [] | Some j \<Rightarrow> j) v ks of
        Inl err \<Rightarrow> Inl err
      | Inr j \<Rightarrow> Inr (JObj (AList.update k j m)))"
| "set_at _ v (k # ks) = Inl (PlainError ''value cannot be set: not a map'')"

definition std_nested :: nested_env where
  "std_nested = \<lparr>SetNestedField = set_at,
     NestedSlice = (\<lambda>j p. case nested_at p j of
          Inl err \<Rightarrow> (None, False, Some err)
        | Inr None \<Rightarrow> (None, False, None)
        | Inr (Some (JList xs)) \<Rightarrow> (Some xs, True, None)
        | Inr (Some _) \<Rightarrow> (None, False, Some (PlainError ''accessor error: not a slice''))),
     NestedInt64 = (\<lambda>j p. case nested_at p j of
          Inl err \<Rightarrow> (0, False, Some err)
        | Inr None \<Rightarrow> (0, False, None)
        | Inr (Some (JInt n)) \<Rightarrow> (n, True, None)
        | Inr (Some _) \<Rightarrow> (0, False, Some (PlainError ''accessor error: not an int64''))),
     GetName = str_at [''metadata'', ''name''], GetNamespace = str_at [''metadata'', ''namespace'']\<rparr>"

section \<open>Lemmas\<close>

lemma at_append: "val_at (p @ q) j = (case val_at p j of None \<Rightarrow> None | Some x \<Rightarrow> val_at q x)"
  by (induction p j rule: val_at.induct) (auto split: option.splits)

lemma at_Cons_Some: "val_at (k # ks) j = Some x \<Longrightarrow> \<exists>m. j = JObj m"
  by (cases j) auto

lemma at_is_obj: "val_at (p @ k # ks) j = Some x \<Longrightarrow> \<exists>m. val_at p j = Some (JObj m)"
  by (auto simp: at_append split: option.splits dest: at_Cons_Some)

lemma at_strict_prefix:
  assumes "val_at p j = Some x" and "strict_prefix q p" and "val_at q j = Some y"
  shows "is_obj y"
proof -
  obtain k ks where "p = q @ k # ks" using assms(2) by (rule strict_prefixE')
  then show ?thesis using at_is_obj [of q k ks j x] assms(1,3) by auto
qed

lemma apart_Cons [simp]: "apart (k # p) (l # q) \<longleftrightarrow> k \<noteq> l \<or> apart p q"
  by (auto simp: apart_def)

lemma apart_Nil [simp]: "\<not> apart [] q" "\<not> apart p []"
  by (simp_all add: apart_def)

lemma at_set_at: "set_at j v p = Inr j' \<Longrightarrow> val_at p j' = Some v"
  by (induction j v p arbitrary: j' rule: set_at.induct) (auto simp: update_conv split: sum.splits)

lemma at_JObj_Nil [simp]: "val_at (k # ks) (JObj []) = None"
  by simp

lemma at_set_at_apart: "set_at j v p = Inr j' \<Longrightarrow> apart p q \<Longrightarrow> val_at q j' = val_at q j"
proof (induction j v p arbitrary: j' q rule: set_at.induct)
  case (2 m v k ks)
  let ?sub = "case map_of m k of None \<Rightarrow> JObj [] | Some j \<Rightarrow> j"
  from 2(2) obtain j1 where j1: "set_at ?sub v ks = Inr j1" "j' = JObj (AList.update k j1 m)"
    by (auto split: sum.splits)
  obtain l q' where q: "q = l # q'" using 2(3) by (cases q) auto
  show ?case
  proof (cases "l = k")
    case True
    then have "apart ks q'" using 2(3) q by simp
    then have "val_at q' j1 = val_at q' ?sub" using 2(1) j1(1) by blast
    moreover obtain r rs where "q' = r # rs" using \<open>apart ks q'\<close> by (cases q') auto
    ultimately show ?thesis using j1(2) q True by (auto simp: update_conv split: option.splits)
  next
    case False
    then show ?thesis using j1(2) q by (auto simp: update_conv)
  qed
qed auto

lemma blocked_at: "val_at p j = Some x \<Longrightarrow> \<not> blocked j p"
  using at_strict_prefix unfolding blocked_def by blast

lemma blocked_Nil [simp]: "\<not> blocked j []"
  by (simp add: blocked_def)

lemma blocked_Cons_JObj: "blocked (JObj m) (k # ks) \<longleftrightarrow> (\<exists>j. map_of m k = Some j \<and> blocked j ks)"
proof
  assume "blocked (JObj m) (k # ks)"
  then obtain q x where q: "strict_prefix q (k # ks)" "val_at q (JObj m) = Some x" "\<not> is_obj x" by (auto simp: blocked_def)
  obtain l r where "q = l # r" using q by (cases q) auto
  then show "\<exists>j. map_of m k = Some j \<and> blocked j ks" using q by (auto simp: blocked_def split: option.splits)
next
  assume "\<exists>j. map_of m k = Some j \<and> blocked j ks"
  then obtain j q x where q: "map_of m k = Some j" "strict_prefix q ks" "val_at q j = Some x" "\<not> is_obj x"
    by (auto simp: blocked_def)
  then show "blocked (JObj m) (k # ks)" unfolding blocked_def by (intro exI [of _ "k # q"] exI [of _ x]) simp
qed

lemma blocked_not_obj: "\<not> is_obj j \<Longrightarrow> blocked j (k # ks)"
  unfolding blocked_def by (intro exI [of _ "[]"] exI [of _ j]) simp

lemma nested_at_spec: "nested_at p j = Inr (val_at p j) \<or> (val_at p j = None \<and> (\<exists>err. nested_at p j = Inl err))"
  by (induction p j rule: nested_at.induct) (auto split: option.splits)

lemma set_at_blocked: "(\<exists>err. set_at j v p = Inl err) \<longleftrightarrow> blocked j p"
proof (induction j v p rule: set_at.induct)
  case (2 m v k ks)
  let ?sub = "case map_of m k of None \<Rightarrow> JObj [] | Some j \<Rightarrow> j"
  have "(\<exists>err. set_at (JObj m) v (k # ks) = Inl err) \<longleftrightarrow> (\<exists>err. set_at ?sub v ks = Inl err)"
    by (auto split: sum.splits)
  also have "\<dots> \<longleftrightarrow> blocked ?sub ks" by (rule 2)
  also have "\<dots> \<longleftrightarrow> blocked (JObj m) (k # ks)"
    by (cases ks) (auto simp: blocked_Cons_JObj split: option.splits)
  finally show ?case .
qed (simp_all add: blocked_not_obj)

lemma std_nested_slice:
  "NestedSlice std_nested j p = (case val_at p j of Some (JList xs) \<Rightarrow> (Some xs, True, None)
     | None \<Rightarrow> (None, False, case nested_at p j of Inl err \<Rightarrow> Some err | Inr _ \<Rightarrow> None)
     | Some _ \<Rightarrow> (None, False, Some (PlainError ''accessor error: not a slice'')))"
  using nested_at_spec [of p j] by (auto simp: std_nested_def split: option.splits json.splits)

lemma std_nested_int:
  "NestedInt64 std_nested j p = (case val_at p j of Some (JInt n) \<Rightarrow> (n, True, None)
     | None \<Rightarrow> (0, False, case nested_at p j of Inl err \<Rightarrow> Some err | Inr _ \<Rightarrow> None)
     | Some _ \<Rightarrow> (0, False, Some (PlainError ''accessor error: not an int64'')))"
  using nested_at_spec [of p j] by (auto simp: std_nested_def split: option.splits json.splits)

lemma std_set_law: "set_law std_nested"
proof -
  have "SetNestedField std_nested = set_at" by (simp add: std_nested_def)
  then show ?thesis unfolding set_law_def set_at_blocked using at_set_at at_set_at_apart set_at_blocked by metis
qed

lemma std_nested_laws: "nested_laws std_nested"
proof -
  have "slice_law std_nested" by (auto simp: slice_law_def std_nested_slice split: option.split json.split)
  moreover have "int_law std_nested" by (auto simp: int_law_def std_nested_int split: option.split json.split)
  moreover have "GetName std_nested = str_at [''metadata'', ''name'']"
    "GetNamespace std_nested = str_at [''metadata'', ''namespace'']" by (simp_all add: std_nested_def)
  ultimately show ?thesis using std_set_law by (simp add: nested_laws_def)
qed

section \<open>What programs use of the library\<close>

locale nested_library =
  fixes N :: nested_env
  assumes laws: "nested_laws N"
begin

lemma laws_parts: "set_law N" "slice_law N" "int_law N"
  using laws by (simp_all add: nested_laws_def)

lemma set_here: "SetNestedField N j v p = Inr j' \<Longrightarrow> p \<noteq> [] \<Longrightarrow> val_at p j' = Some v"
  using laws_parts(1) unfolding set_law_def by metis

lemma set_apart: "SetNestedField N j v p = Inr j' \<Longrightarrow> p \<noteq> [] \<Longrightarrow> apart p q \<Longrightarrow> val_at q j' = val_at q j"
  using laws_parts(1) unfolding set_law_def by metis

lemma set_succeeds:
  assumes "p \<noteq> []" and "\<not> blocked j p"
  obtains j' where "SetNestedField N j v p = Inr j'"
proof (cases "SetNestedField N j v p")
  case (Inl err)
  have "(\<exists>err. SetNestedField N j v p = Inl err) \<longleftrightarrow> blocked j p" using laws_parts(1) assms(1) unfolding set_law_def by metis
  then show ?thesis using Inl assms(2) by blast
qed (rule that)

lemma slice_found: "val_at p j = Some (JList xs) \<Longrightarrow> NestedSlice N j p = (Some xs, True, None)"
  using laws_parts(2) unfolding slice_law_def by metis

lemma slice_missing:
  assumes "\<And>xs. val_at p j \<noteq> Some (JList xs)"
  obtains err where "NestedSlice N j p = (None, False, err)" and "val_at p j \<noteq> None \<longrightarrow> err \<noteq> None"
  using laws_parts(2) assms unfolding slice_law_def by metis

lemma slice_Some: "NestedSlice N j p = (Some xs, found, err) \<Longrightarrow> val_at p j = Some (JList xs)"
  using slice_found slice_missing by (metis option.distinct(1) option.inject prod.inject)

lemma int_found: "val_at p j = Some (JInt n) \<Longrightarrow> NestedInt64 N j p = (n, True, None)"
  using laws_parts(3) unfolding int_law_def by metis

lemma int_missing:
  assumes "\<And>n. val_at p j \<noteq> Some (JInt n)"
  obtains err where "NestedInt64 N j p = (0, False, err)" and "val_at p j \<noteq> None \<longrightarrow> err \<noteq> None"
  using laws_parts(3) assms unfolding int_law_def by metis

lemma names: "GetName N j = str_at [''metadata'', ''name''] j" "GetNamespace N j = str_at [''metadata'', ''namespace''] j"
  using laws unfolding nested_laws_def by simp_all

end

interpretation std: nested_library std_nested
  by unfold_locales (rule std_nested_laws)

end
