(* ===== verification/Dynamic_Deployment.thy ===== *)
theory Dynamic_Deployment
  imports Deployment_Lifecycle Unstructured
begin

text \<open>
  The program \<open>dynamic-create-update-delete-deployment/main.go\<close> of the official examples, which does with the dynamic
  client what \<open>Deployment_Lifecycle\<close> does with the typed one: its objects are JSON values. For every accessor library it
  is an instance of the interface \<open>lifecycle\<close>. \<open>decode_deployment\<close> reads a JSON object as a typed Deployment; through it
  the two programs are compared.
\<close>

section \<open>Definitions\<close>

subsection \<open>The program\<close>

abbreviation replicas_path :: "string list" where
  "replicas_path \<equiv> [''spec'', ''replicas'']"

abbreviation containers_path :: "string list" where
  "containers_path \<equiv> [''spec'', ''template'', ''spec'', ''containers'']"

definition dyn_deployment :: json where
  "dyn_deployment = JObj
    [(''apiVersion'', JStr ''apps/v1''),
     (''kind'', JStr ''Deployment''),
     (''metadata'', JObj [(''name'', JStr ''demo-deployment'')]),
     (''spec'', JObj
       [(''replicas'', JInt 2),
        (''selector'', JObj [(''matchLabels'', JObj [(''app'', JStr ''demo'')])]),
        (''template'', JObj
          [(''metadata'', JObj [(''labels'', JObj [(''app'', JStr ''demo'')])]),
           (''spec'', JObj
             [(''containers'', JList
               [JObj [(''name'', JStr ''web''), (''image'', JStr ''nginx:1.12''),
                  (''ports'', JList [JObj [(''name'', JStr ''http''), (''protocol'', JStr ''TCP''), (''containerPort'', JInt 80)]])]])])])])]"

text \<open>The verbs \<open>%v\<close> and \<open>%s\<close> on an error that may be nil.\<close>

definition show_err_v :: "go_error option \<Rightarrow> string" where
  "show_err_v err = (case err of None \<Rightarrow> ''<nil>'' | Some e \<Rightarrow> Error e)"

definition show_err_s :: "go_error option \<Rightarrow> string" where
  "show_err_s err = (case err of None \<Rightarrow> ''%!s(<nil>)'' | Some e \<Rightarrow> Error e)"

definition dyn_edit :: "nested_env \<Rightarrow> json \<Rightarrow> json outcome" where
  "dyn_edit N result =
     (case SetNestedField N result (JInt 1) replicas_path of
        Inl err \<Rightarrow> Panic (PanicErr (''failed to set replica value: '' @ Error err))
      | Inr result1 \<Rightarrow>
          (case NestedSlice N result1 containers_path of (conts, found, err) \<Rightarrow>
             if err \<noteq> None \<or> \<not> found \<or> conts = None
             then Panic (PanicErr (''deployment containers not found or error in spec: '' @ show_err_v err))
             else
               (case the conts of
                  [] \<Rightarrow> Panic IndexOutOfRange
                | c # cs \<Rightarrow>
                    if \<not> is_obj c then Panic TypeAssertion
                    else
                      (case SetNestedField N c (JStr ''nginx:1.13'') [''image''] of
                         Inl err \<Rightarrow> Panic (PanicErr (Error err))
                       | Inr c1 \<Rightarrow>
                           (case SetNestedField N result1 (JList (c1 # cs)) containers_path of
                              Inl err \<Rightarrow> Panic (PanicErr (Error err))
                            | Inr result2 \<Rightarrow> Ret result2)))))"

definition dyn_try_update :: "nested_env \<Rightarrow> (json, 'cfg) deploy_env \<Rightarrow> (json, go_error option) dprog" where
  "dyn_try_update N e = do {
     g \<leftarrow> perform (\<lambda>h. de_Get e h ''demo-deployment'') (DGet ''demo-deployment'');
     (case g of
        Inl getErr \<Rightarrow> return (Panic (PanicErr (''failed to get latest version of Deployment: '' @ Error getErr)))
      | Inr result \<Rightarrow>
          (case dyn_edit N result of
             Panic p \<Rightarrow> return (Panic p)
           | Ret result1 \<Rightarrow> do {
               u \<leftarrow> perform (\<lambda>h. de_Update e h result1) (DUpdate result1);
               return (Ret (case u of Inl updateErr \<Rightarrow> Some updateErr | Inr _ \<Rightarrow> None))
             }))
   }"

definition dyn_create :: "(json, 'cfg) deploy_env \<Rightarrow> (json, unit) dprog" where
  "dyn_create e = do {
     c \<leftarrow> perform (\<lambda>h. de_Create e h dyn_deployment) (DCreate dyn_deployment);
     (case c of Inl err \<Rightarrow> return (Panic (PanicErr (Error err))) | Inr result \<Rightarrow> return (Ret ()))
   }"

definition dyn_update :: "nested_env \<Rightarrow> (json, 'cfg) deploy_env \<Rightarrow> (json, unit) dprog" where
  "dyn_update N e = obind (de_RetryOnConflict e (dyn_try_update N e)) (\<lambda>retryErr.
     case retryErr of
       Some err \<Rightarrow> return (Panic (PanicErr (''update failed: '' @ Error err)))
     | None \<Rightarrow> return (Ret ()))"

definition dyn_line :: "nested_env \<Rightarrow> json \<Rightarrow> string" where
  "dyn_line N d =
     (case NestedInt64 N d replicas_path of (replicas, found, err) \<Rightarrow>
        if err \<noteq> None \<or> \<not> found
        then ''Replicas not found for deployment '' @ GetName N d @ '': error='' @ show_err_s err
        else '' * '' @ GetName N d @ '' ('' @ show_int (sint replicas) @ '' replicas)'')"

fun dyn_print :: "nested_env \<Rightarrow> json list \<Rightarrow> (json, unit) dprog" where
  "dyn_print N [] = return (Ret ())"
| "dyn_print N (d # ds) = obind (d_print (dyn_line N d)) (\<lambda>_. dyn_print N ds)"

definition dyn_list :: "nested_env \<Rightarrow> (json, 'cfg) deploy_env \<Rightarrow> (json, unit) dprog" where
  "dyn_list N e = do {
     l \<leftarrow> perform (de_List e) DList;
     (case l of Inl err \<Rightarrow> return (Panic (PanicErr (Error err))) | Inr items \<Rightarrow> dyn_print N items)
   }"

definition dyn_delete :: "(json, 'cfg) deploy_env \<Rightarrow> (json, unit) dprog" where
  "dyn_delete e = do {
     r \<leftarrow> perform (\<lambda>h. de_Delete e h ''demo-deployment'' ''Foreground'') (DDelete ''demo-deployment'' ''Foreground'');
     (case r of Some err \<Rightarrow> return (Panic (PanicErr (Error err))) | None \<Rightarrow> return (Ret ()))
   }"

definition dyn_body :: "nested_env \<Rightarrow> (json, 'cfg) deploy_env \<Rightarrow> (json, unit) dprog" where
  "dyn_body N e =
     obind (dyn_create e) (\<lambda>_.
     obind (prompt e) (\<lambda>_.
     obind (dyn_update N e) (\<lambda>_.
     obind (prompt e) (\<lambda>_.
     obind (dyn_list N e) (\<lambda>_.
     obind (prompt e) (\<lambda>_.
     dyn_delete e))))))"

definition dyn_main :: "nested_env \<Rightarrow> (json, 'cfg) deploy_env \<Rightarrow> string \<Rightarrow> (json, unit) dprog" where
  "dyn_main N e kubeconfig =
     (case de_BuildConfigFromFlags e kubeconfig of
        Inl err \<Rightarrow> return (Panic (PanicErr (Error err)))
      | Inr config \<Rightarrow>
          (case de_NewForConfig e config of
             Some err \<Rightarrow> return (Panic (PanicErr (Error err)))
           | None \<Rightarrow> dyn_body N e))"

subsection \<open>Reading an untyped Deployment as a typed one\<close>

definition list_at :: "string list \<Rightarrow> json \<Rightarrow> json list" where
  "list_at p j = (case val_at p j of Some (JList xs) \<Rightarrow> xs | _ \<Rightarrow> [])"

definition labels_at :: "string list \<Rightarrow> json \<Rightarrow> entries" where
  "labels_at p j = (case val_at p j of Some (JObj m) \<Rightarrow> map (\<lambda>(k, v). (k, str_at [] v)) m | _ \<Rightarrow> [])"

definition int32_at :: "string list \<Rightarrow> json \<Rightarrow> int32 option" where
  "int32_at p j = (case val_at p j of Some (JInt n) \<Rightarrow> Some (ucast n) | _ \<Rightarrow> None)"

definition decode_port :: "json \<Rightarrow> ContainerPort" where
  "decode_port j = \<lparr>cp_Name = str_at [''name''] j, cp_Protocol = str_at [''protocol''] j,
     cp_ContainerPort = (case int32_at [''containerPort''] j of None \<Rightarrow> 0 | Some n \<Rightarrow> n)\<rparr>"

definition decode_container :: "json \<Rightarrow> WebContainer" where
  "decode_container j = \<lparr>wc_Name = str_at [''name''] j, wc_Image = str_at [''image''] j,
     wc_Ports = map decode_port (list_at [''ports''] j)\<rparr>"

definition decode_deployment :: "json \<Rightarrow> Deployment" where
  "decode_deployment j = \<lparr>dp_Name = str_at [''metadata'', ''name''] j,
     dp_ResourceVersion = str_at [''metadata'', ''resourceVersion''] j,
     dp_Replicas = int32_at replicas_path j,
     dp_MatchLabels = labels_at [''spec'', ''selector'', ''matchLabels''] j,
     dp_TemplateLabels = labels_at [''spec'', ''template'', ''metadata'', ''labels''] j,
     dp_Containers = map decode_container (list_at containers_path j)\<rparr>"

text \<open>What a server sends as a Deployment: a spec with a list of containers, each an object.\<close>

definition deployment_shape :: "json \<Rightarrow> bool" where
  "deployment_shape j \<longleftrightarrow>
     (case val_at containers_path j of Some (JList cs) \<Rightarrow> list_all is_obj cs | _ \<Rightarrow> False)"

section \<open>Lemmas\<close>

lemma decode_dyn_deployment: "decode_deployment dyn_deployment = demo_deployment (mem_deploy :: (Deployment, unit) deploy_env)"
  by (simp add: decode_deployment_def dyn_deployment_def demo_deployment_def mem_deploy_def mem_cur_def str_at_def int32_at_def
      labels_at_def list_at_def decode_container_def decode_port_def)

lemma blocked_same_head:
  assumes "val_at (k # l # ks) j = Some x" shows "\<not> blocked j [k, m]"
proof -
  obtain o1 where "val_at [k] j = Some (JObj o1)" using at_is_obj [of "[k]" l ks j x] assms by auto
  moreover obtain o2 where "j = JObj o2" using assms at_Cons_Some by blast
  ultimately show ?thesis by (cases m) (auto simp: blocked_Cons_JObj blocked_def strict_prefix_def prefix_Cons split: option.splits)
qed

context nested_library
begin

lemma edit_Ret:
  assumes "dyn_edit N j = Ret j'"
  obtains c cs c1 where "val_at containers_path j = Some (JList (c # cs))" and "is_obj c"
    and "val_at [''image''] c1 = Some (JStr ''nginx:1.13'')" and "\<And>q. apart [''image''] q \<Longrightarrow> val_at q c1 = val_at q c"
    and "val_at containers_path j' = Some (JList (c1 # cs))" and "val_at replicas_path j' = Some (JInt 1)"
    and "\<And>q. apart replicas_path q \<Longrightarrow> apart containers_path q \<Longrightarrow> val_at q j' = val_at q j"
proof -
  obtain j1 sl where 1: "SetNestedField N j (JInt 1) replicas_path = Inr j1"
    "NestedSlice N j1 containers_path = (Some sl, True, None)"
    using assms by (auto simp: dyn_edit_def split: sum.splits prod.splits if_splits option.splits)
  obtain c cs c1 where 2: "sl = c # cs" "is_obj c" "SetNestedField N c (JStr ''nginx:1.13'') [''image''] = Inr c1"
    "SetNestedField N j1 (JList (c1 # cs)) containers_path = Inr j'"
    using assms 1 by (auto simp: dyn_edit_def split: list.splits sum.splits if_splits)
  note a1 = set_apart [OF 1(1)] and a2 = set_apart [OF 2(4)]
  show thesis
  proof (rule that)
    show "val_at containers_path j = Some (JList (c # cs))"
      using slice_Some [OF 1(2)] a1 [of containers_path] 2(1) by simp
    show "is_obj c" by fact
    show "val_at [''image''] c1 = Some (JStr ''nginx:1.13'')" by (rule set_here [OF 2(3)]) simp
    show "val_at q c1 = val_at q c" if "apart [''image''] q" for q by (rule set_apart [OF 2(3) _ that]) simp
    show "val_at containers_path j' = Some (JList (c1 # cs))" by (rule set_here [OF 2(4)]) simp
    show "val_at replicas_path j' = Some (JInt 1)" using set_here [OF 1(1)] a2 [of replicas_path] by simp
    show "val_at q j' = val_at q j" if "apart replicas_path q" "apart containers_path q" for q
      using a1 [OF _ that(1)] a2 [OF _ that(2)] by simp
  qed
qed

lemma edit_succeeds:
  assumes "val_at containers_path j = Some (JList (c # cs))" and "is_obj c"
  shows "\<exists>j'. dyn_edit N j = Ret j'"
proof -
  have "\<not> blocked j replicas_path" by (rule blocked_same_head [OF assms(1)])
  then obtain j1 where 1: "SetNestedField N j (JInt 1) replicas_path = Inr j1" using set_succeeds [of replicas_path j] by auto
  have 2: "val_at containers_path j1 = Some (JList (c # cs))" using set_apart [OF 1, of containers_path] assms(1) by simp
  have "\<not> blocked c [''image'']" using assms(2) by (cases c) (simp_all add: blocked_Cons_JObj)
  then obtain c1 where 3: "SetNestedField N c (JStr ''nginx:1.13'') [''image''] = Inr c1" using set_succeeds [of "[''image'']" c] by auto
  obtain j2 where "SetNestedField N j1 (JList (c1 # cs)) containers_path = Inr j2"
    using set_succeeds [of containers_path j1] blocked_at [OF 2] by blast
  then show ?thesis using 1 3 slice_found [OF 2] assms(2) by (simp add: dyn_edit_def)
qed

lemma edit_empty:
  assumes "val_at containers_path j = Some (JList [])"
  shows "dyn_edit N j = Panic IndexOutOfRange"
proof -
  have "\<not> blocked j replicas_path" by (rule blocked_same_head [OF assms])
  then obtain j1 where 1: "SetNestedField N j (JInt 1) replicas_path = Inr j1" using set_succeeds [of replicas_path j] by auto
  have "val_at containers_path j1 = Some (JList [])" using set_apart [OF 1, of containers_path] assms by simp
  then show ?thesis using 1 slice_found by (simp add: dyn_edit_def)
qed

lemma edit_decode:
  assumes "dyn_edit N j = Ret j'"
  shows "edit_deployment (decode_deployment j) = Ret (decode_deployment j')"
  using assms
proof (rule edit_Ret)
  fix c cs c1
  assume c: "val_at containers_path j = Some (JList (c # cs))" and i: "val_at [''image''] c1 = Some (JStr ''nginx:1.13'')"
    and ci: "\<And>q. apart [''image''] q \<Longrightarrow> val_at q c1 = val_at q c"
    and c': "val_at containers_path j' = Some (JList (c1 # cs))" and r: "val_at replicas_path j' = Some (JInt 1)"
    and o: "\<And>q. apart replicas_path q \<Longrightarrow> apart containers_path q \<Longrightarrow> val_at q j' = val_at q j"
  have "decode_container c1 = (decode_container c)\<lparr>wc_Image := ''nginx:1.13''\<rparr>"
    using i ci [of "[''name'']"] ci [of "[''ports'']"] by (simp add: decode_container_def str_at_def list_at_def)
  moreover have "list_at containers_path j = c # cs" "list_at containers_path j' = c1 # cs" "int32_at replicas_path j' = Some 1"
    using c c' r by (simp_all add: list_at_def int32_at_def)
  moreover have "val_at q j' = val_at q j" if "q \<in> {[''metadata'', ''name''], [''metadata'', ''resourceVersion''],
      [''spec'', ''selector'', ''matchLabels''], [''spec'', ''template'', ''metadata'', ''labels'']}" for q
    using that by (intro o) auto
  ultimately show ?thesis unfolding edit_deployment_Ret by (simp add: decode_deployment_def str_at_def labels_at_def)
qed

end

lemma dyn_print_run: "run_state (dyn_print N ds) h = (Ret (), h @ map (DPrint \<circ> dyn_line N) ds)"
  by (induction ds arbitrary: h) (simp_all add: d_print_def)

lemma dyn_list_run:
  assumes "run_state (dyn_list N e) h = (r, h')"
  shows "(\<exists>err. h' = h @ [DList (Inl err)] \<and> (\<forall>u. r \<noteq> Ret u)) \<or>
    (\<exists>ds k. h' = h @ DList (Inr ds) # map (DPrint \<circ> dyn_line N) (take k ds) \<and> ((\<exists>u. r = Ret u) \<longrightarrow> k = length ds))"
proof (cases "de_List e h")
  case (Inl err)
  then show ?thesis using assms by (auto simp: dyn_list_def)
next
  case (Inr ds)
  then show ?thesis using assms
    by (intro disjI2 exI [of _ ds] exI [of _ "length ds"]) (auto simp: dyn_list_def dyn_print_run)
qed

lemma dyn_try_update_run:
  assumes "run_state (dyn_try_update N e) h = (r, h')"
  shows "(\<exists>g. h' = h @ [DGet ''demo-deployment'' g] \<and> r \<noteq> Ret None) \<or>
    (\<exists>d d1. de_Get e h ''demo-deployment'' = Inr d \<and> dyn_edit N d = Ret d1 \<and>
       h' = h @ [DGet ''demo-deployment'' (Inr d)] @ [DUpdate d1 (de_Update e (h @ [DGet ''demo-deployment'' (Inr d)]) d1)] \<and>
       (r = Ret None \<longrightarrow> (\<exists>d2. de_Update e (h @ [DGet ''demo-deployment'' (Inr d)]) d1 = Inr d2)))"
proof (cases "de_Get e h ''demo-deployment''")
  case (Inl err)
  then show ?thesis using assms by (auto simp: dyn_try_update_def)
next
  case (Inr d)
  then show ?thesis using assms by (cases "dyn_edit N d") (auto simp: dyn_try_update_def split: sum.splits)
qed

abbreviation dyn_version :: "json \<Rightarrow> string" where
  "dyn_version \<equiv> str_at [''metadata'', ''resourceVersion'']"

sublocale nested_library \<subseteq> dynamic: lifecycle "dyn_edit N" dyn_version "\<lambda>_. dyn_deployment" "dyn_line N"
  "dyn_try_update N" dyn_create "dyn_update N" "dyn_list N" dyn_delete "dyn_body N"
proof (unfold_locales, goal_cases)
  case (1 d d')
  then show ?case
  proof (rule edit_Ret)
    assume o: "\<And>q. apart replicas_path q \<Longrightarrow> apart containers_path q \<Longrightarrow> val_at q d' = val_at q d"
    show ?thesis using o [of "[''metadata'', ''resourceVersion'']"] by (simp add: str_at_def)
  qed
next
  case 2 then show ?case by (auto simp: dyn_create_def split: sum.splits)
next
  case 3 then show ?case by (rule dyn_try_update_run)
next
  case 4 show ?case by (intro exI conjI allI, rule dyn_update_def) simp_all
next
  case 5 then show ?case by (rule dyn_list_run)
next
  case 6 then show ?case by (auto simp: dyn_delete_def split: option.splits)
next
  case 7 show ?case by (rule dyn_body_def)
qed

context nested_library
begin

lemma edit_equivalent:
  assumes "deployment_shape j"
  shows "map_outcome decode_deployment (dyn_edit N j) = edit_deployment (decode_deployment j)"
proof -
  obtain cs where cs: "val_at containers_path j = Some (JList cs)" "list_all is_obj cs"
    using assms by (auto simp: deployment_shape_def split: option.splits json.splits)
  show ?thesis
  proof (cases cs)
    case Nil
    then show ?thesis using edit_empty cs(1)
      by (simp add: edit_deployment_def decode_deployment_def list_at_def Let_def)
  next
    case (Cons c ct)
    then obtain j' where "dyn_edit N j = Ret j'" using edit_succeeds [of j c ct] cs by auto
    then show ?thesis using edit_decode by simp
  qed
qed

lemma line_equivalent:
  assumes "val_at replicas_path j = Some (JInt m)" and "sint (ucast m :: int32) = sint m"
  shows "dyn_line N j = listed_line (decode_deployment j)"
  using assms by (simp add: dyn_line_def int_found names listed_line_def decode_deployment_def int32_at_def)

lemmas dyn_body_log = dynamic.body_log and dyn_body_shape = dynamic.body_shape

end

text \<open>A server in memory for untyped objects.\<close>

definition dyn_bump :: "json \<Rightarrow> json \<Rightarrow> json" where
  "dyn_bump old j = (case set_at j (JStr (CHR ''v'' # dyn_version old)) [''metadata'', ''resourceVersion''] of
     Inl _ \<Rightarrow> old | Inr j' \<Rightarrow> j')"

fun dyn_write :: "json \<Rightarrow> json dcall \<Rightarrow> json" where
  "dyn_write d (DCreate x (Inr y)) = dyn_bump d x"
| "dyn_write d (DUpdate x (Inr y)) = dyn_bump d x"
| "dyn_write d _ = d"

definition dyn_cur :: "json dcall list \<Rightarrow> json" where
  "dyn_cur h = foldl dyn_write (JObj []) h"

definition dyn_mem :: "(json, unit) deploy_env" where
  "dyn_mem = \<lparr>de_BuildConfigFromFlags = (\<lambda>_. Inr ()), de_NewForConfig = (\<lambda>_. None), de_zero = JNull,
     de_Create = (\<lambda>h d. Inr d), de_Get = (\<lambda>h n. Inr (dyn_cur h)),
     de_Update = (\<lambda>h d. if dyn_version d = dyn_version (dyn_cur h) then Inr d
        else Inl (StatusError ReasonConflict ''conflict'')),
     de_List = (\<lambda>h. Inr [dyn_cur h]), de_Delete = (\<lambda>h n p. None), de_Scan = (\<lambda>_. None), de_RetryOnConflict = (\<lambda>f. f)\<rparr>"

lemma dyn_write_version:
  "length (dyn_version (dyn_write d c)) \<ge> length (dyn_version d) \<and>
   (length (dyn_version (dyn_write d c)) = length (dyn_version d) \<longrightarrow> dyn_write d c = d)"
proof -
  have "length (dyn_version (dyn_bump d x)) = Suc (length (dyn_version d)) \<or> dyn_bump d x = d" for x
    by (auto simp: dyn_bump_def str_at_def dest!: at_set_at split: sum.splits)
  then show ?thesis by (cases "(d, c)" rule: dyn_write.cases) (simp_all, (metis le_Suc_eq order_refl n_not_Suc_n)+)
qed

lemma dyn_write_versions:
  "length (dyn_version (foldl dyn_write d t)) \<ge> length (dyn_version d) \<and>
   (length (dyn_version (foldl dyn_write d t)) = length (dyn_version d) \<longrightarrow> foldl dyn_write d t = d)"
proof (induction t arbitrary: d)
  case (Cons c t)
  show ?case using Cons.IH [of "dyn_write d c"] dyn_write_version [of d c] by auto
qed simp

lemma dyn_mem_laws: "retry_law dyn_mem" "occ_server dyn_version dyn_mem dyn_cur"
proof -
  show "retry_law dyn_mem" by (rule retry_once_law) (simp add: dyn_mem_def)
  have "dyn_cur (h @ t) = dyn_cur h" if "dyn_version (dyn_cur (h @ t)) = dyn_version (dyn_cur h)" for h t
    using dyn_write_versions [of "dyn_cur h" t] that by (simp add: dyn_cur_def)
  then show "occ_server dyn_version dyn_mem dyn_cur"
    by (auto simp: occ_server_def dyn_mem_def split: if_splits)
qed

section \<open>Properties\<close>

text \<open>C16. The program on the dynamic client does what the typed one does. The object it creates decodes to the one the typed
  program creates, and on every Deployment as a server sends it, its edit decodes to the typed edit, the panic on an empty
  list of containers included, and it prints the same line for it when the number of replicas fits. Each update the server accepts decodes to the typed edit of the Deployment stored at that
  very moment, and agrees with it at every path apart from the replicas and the containers, so also in the fields that the
  program does not know. A run that returns has the log of the typed program.\<close>

theorem dynamic_equals_typed:
  fixes e :: "(json, 'cfg) deploy_env"
  assumes "nested_laws N" and "retry_law e" and "occ_server dyn_version e cur"
    and "run_state (dyn_main N e kubeconfig) [] = (r, h)"
  shows "decode_deployment dyn_deployment = demo_deployment mem_deploy \<and>
    (\<forall>j. deployment_shape j \<longrightarrow> map_outcome decode_deployment (dyn_edit N j) = edit_deployment (decode_deployment j)) \<and>
    (\<forall>j m. val_at replicas_path j = Some (JInt m) \<and> sint (ucast m :: int32) = sint m \<longrightarrow>
       dyn_line N j = listed_line (decode_deployment j)) \<and>
    (\<forall>pre d d' post. h = pre @ DUpdate d (Inr d') # post \<longrightarrow>
       edit_deployment (decode_deployment (cur pre)) = Ret (decode_deployment d) \<and>
       (\<forall>q. apart replicas_path q \<and> apart containers_path q \<longrightarrow> val_at q d = val_at q (cur pre))) \<and>
    (case r of Panic p \<Rightarrow> \<forall>n policy. DDelete n policy None \<notin> set h | Ret _ \<Rightarrow> lifecycle_log dyn_deployment (dyn_line N) h)"
proof -
  note lib = nested_library.intro [OF assms(1)]
  note edited = nested_library.edit_Ret [OF lib] and decoded = nested_library.edit_decode [OF lib]
  consider p where "r = Panic p" "h = []" | "run_state (dyn_body N e) [] = (r, h)"
    using assms(4) by (auto simp: dyn_main_def split: sum.splits option.splits)
  then have "accepted_edits (dyn_edit N) cur h \<and>
    (case r of Panic p \<Rightarrow> undeleted h | Ret _ \<Rightarrow> lifecycle_log dyn_deployment (dyn_line N) h)"
  proof cases
    case 2
    have "accepted_edits (dyn_edit N) cur h \<and> ((\<exists>u. r = Ret u) \<or> undeleted h)"
      by (rule nested_library.dyn_body_log [OF lib assms(2,3) 2]) simp
    then show ?thesis
      using nested_library.dyn_body_shape [OF lib assms(2)] 2 by (cases r) simp_all
  qed simp
  moreover from this have "edit_deployment (decode_deployment (cur pre)) = Ret (decode_deployment d)"
      "apart replicas_path q \<and> apart containers_path q \<longrightarrow> val_at q d = val_at q (cur pre)"
    if "h = pre @ DUpdate d (Inr d') # post" for pre d d' post q
    using that decoded unfolding accepted_edits_def by (blast, elim conjE) (blast elim: edited)
  ultimately show ?thesis using decode_dyn_deployment nested_library.edit_equivalent [OF lib]
      nested_library.line_equivalent [OF lib] by (cases r) (simp_all add: undeleted_def)
qed

theorem dynamic_equals_typed_witness:
  "fst (run_state (dyn_main std_nested dyn_mem ''cfg'') []) = Ret () \<and>
   deployment_shape dyn_deployment \<and>
   lifecycle_log dyn_deployment (dyn_line std_nested) (snd (run_state (dyn_main std_nested dyn_mem ''cfg'') []))"
proof -
  have r: "fst (run_state (dyn_main std_nested dyn_mem ''cfg'') []) = Ret ()"
    by code_simp
  moreover have "deployment_shape dyn_deployment" by (simp add: deployment_shape_def dyn_deployment_def)
  moreover have "case fst (run_state (dyn_main std_nested dyn_mem ''cfg'') []) of
      Panic p \<Rightarrow> \<forall>n policy. DDelete n policy None \<notin> set (snd (run_state (dyn_main std_nested dyn_mem ''cfg'') []))
    | Ret _ \<Rightarrow> lifecycle_log dyn_deployment (dyn_line std_nested) (snd (run_state (dyn_main std_nested dyn_mem ''cfg'') []))"
    using dynamic_equals_typed [OF std_nested_laws dyn_mem_laws prod.collapse [symmetric]] by blast
  ultimately show ?thesis by simp
qed

end
