(* ===== verification/Client_Config.thy ===== *)
theory Client_Config
  imports Kube_Api "HOL-Library.Sublist"
begin

text \<open>
  How the programs under \<open>src/client-go/\<close> find their kubeconfig file. Three ways recur: the environment variable
  \<open>KUBECONFIG\<close> with the recommended file as default, the home directory with a flag, and the home directory of the
  operating system without a flag. The environment, the flags given and the loader of the client library are the record
  \<open>config_env\<close>. \<open>path.Join\<close> and \<open>filepath.Join\<close>, which agree on Unix, are modelled: they drop empty elements, join with
  a slash and clean the result lexically.
\<close>

section \<open>Definitions\<close>

subsection \<open>Paths\<close>

text \<open>\<open>strings.Split\<close> at one character, and \<open>strings.Join\<close> with it.\<close>

fun split_on :: "char \<Rightarrow> string \<Rightarrow> string list" where
  "split_on d [] = [[]]"
| "split_on d (c # cs) = (if c = d then [] # split_on d cs
     else (case split_on d cs of [] \<Rightarrow> [[c]] | p # ps \<Rightarrow> (c # p) # ps))"

fun join_on :: "char \<Rightarrow> string list \<Rightarrow> string" where
  "join_on d [] = []"
| "join_on d [p] = p"
| "join_on d (p # q # ps) = p @ d # join_on d (q # ps)"

abbreviation path_split :: "string \<Rightarrow> string list" where
  "path_split \<equiv> split_on (CHR ''/'')"

abbreviation path_join :: "string list \<Rightarrow> string" where
  "path_join \<equiv> join_on (CHR ''/'')"

text \<open>The elements of a cleaned path, built on a stack whose head is the last element.\<close>

fun clean_elems :: "bool \<Rightarrow> string list \<Rightarrow> string list \<Rightarrow> string list" where
  "clean_elems rooted stack [] = rev stack"
| "clean_elems rooted stack (p # ps) =
     (if p = '''' \<or> p = ''.'' then clean_elems rooted stack ps
      else if p = ''..'' then
        (case stack of
           [] \<Rightarrow> clean_elems rooted (if rooted then [] else [''..'']) ps
         | q # qs \<Rightarrow> if q = ''..'' then clean_elems rooted (''..'' # stack) ps else clean_elems rooted qs ps)
      else clean_elems rooted (p # stack) ps)"

definition path_Clean :: "string \<Rightarrow> string" where
  "path_Clean s =
     (let rooted = (case s of c # _ \<Rightarrow> c = CHR ''/'' | [] \<Rightarrow> False);
          body = path_join (clean_elems rooted [] (path_split s))
      in if rooted then CHR ''/'' # body else if body = '''' then ''.'' else body)"

definition path_Join :: "string list \<Rightarrow> string" where
  "path_Join elems = (let es = filter (\<lambda>s. s \<noteq> '''') elems in if es = [] then '''' else path_Clean (path_join es))"

subsection \<open>The kubeconfig file\<close>

record 'cfg config_env =
  cf_Getenv :: "string \<Rightarrow> string"
  cf_HomeDir :: string
  cf_UserHomeDir :: "go_error + string"
  cf_RecommendedHomeFile :: string
  cf_flag :: "string \<Rightarrow> string option"
  cf_BuildConfigFromFlags :: "string \<Rightarrow> string \<Rightarrow> go_error + 'cfg"
  cf_InClusterConfig :: "go_error + 'cfg"
  cf_Namespace :: "go_error + string"
  cf_ClientConfig :: "go_error + 'cfg"

text \<open>The value of a string flag after \<open>flag.Parse\<close>.\<close>

definition flag_String :: "('cfg, 'm) config_env_scheme \<Rightarrow> string \<Rightarrow> string \<Rightarrow> string" where
  "flag_String c name dflt = (case cf_flag c name of None \<Rightarrow> dflt | Some v \<Rightarrow> v)"

definition env_kubeconfig :: "('cfg, 'm) config_env_scheme \<Rightarrow> string" where
  "env_kubeconfig c =
     (let defaultKubeconfig = cf_Getenv c ''KUBECONFIG'';
          defaultKubeconfig = (if length defaultKubeconfig = 0 then cf_RecommendedHomeFile c else defaultKubeconfig)
      in flag_String c ''kubeconfig'' defaultKubeconfig)"

definition home_kubeconfig :: "('cfg, 'm) config_env_scheme \<Rightarrow> string" where
  "home_kubeconfig c =
     (if cf_HomeDir c \<noteq> '''' then flag_String c ''kubeconfig'' (path_Join [cf_HomeDir c, ''.kube'', ''config''])
      else flag_String c ''kubeconfig'' '''')"

text \<open>The programs with \<open>pflag\<close> build the default without asking whether there is a home directory.\<close>

definition pflag_kubeconfig :: "('cfg, 'm) config_env_scheme \<Rightarrow> string" where
  "pflag_kubeconfig c = flag_String c ''kubeconfig'' (path_Join [cf_HomeDir c, ''.kube'', ''config''])"

definition load_config :: "('cfg, 'm) config_env_scheme \<Rightarrow> string \<Rightarrow> 'cfg outcome" where
  "load_config c kubeconfig =
     (case cf_BuildConfigFromFlags c '''' kubeconfig of Inl err \<Rightarrow> Panic (PanicErr (Error err)) | Inr config \<Rightarrow> Ret config)"

text \<open>The same with the home directory of the operating system and no flag.\<close>

definition user_config :: "('cfg, 'm) config_env_scheme \<Rightarrow> 'cfg outcome" where
  "user_config c =
     (case cf_UserHomeDir c of
        Inl err \<Rightarrow> Panic (PanicErr (Error err))
      | Inr home \<Rightarrow> load_config c (path_Join [home, ''.kube/config'']))"

text \<open>Programs that load the configuration and the namespace of the current context.\<close>

definition context_config :: "('cfg, 'm) config_env_scheme \<Rightarrow> (string \<times> 'cfg) outcome" where
  "context_config c =
     (case cf_Namespace c of
        Inl err \<Rightarrow> Panic (PanicErr (Error err))
      | Inr namespace \<Rightarrow>
          (case cf_ClientConfig c of
             Inl err \<Rightarrow> Panic (PanicErr (Error err))
           | Inr cfg \<Rightarrow> Ret (namespace, cfg)))"

text \<open>A deferred call runs after the body, also when the body panics.\<close>

definition deferred :: "('w, 'a outcome) state \<Rightarrow> ('w, unit) state \<Rightarrow> ('w, 'a outcome) state" where
  "deferred m d = do { r \<leftarrow> m; d; return r }"

definition of_outcome :: "'a outcome \<Rightarrow> ('w, 'a outcome) state" where
  "of_outcome r = return r"

section \<open>Lemmas\<close>

lemma run_deferred [simp, exec_simps]:
  "run_state (deferred m d) h = (case run_state m h of (r, h') \<Rightarrow> (r, snd (run_state d h')))"
  by (simp add: deferred_def split: prod.splits)

lemma run_of_outcome [simp, exec_simps]: "run_state (of_outcome r) h = (r, h)"
  by (simp add: of_outcome_def)

lemma split_on_nonempty [simp]: "split_on d s \<noteq> []"
  by (induction s) (auto split: list.splits)

lemma split_on_append: "d \<notin> set s \<Longrightarrow> split_on d (s @ d # t) = s # split_on d t"
  by (induction s) auto

lemma split_on_plain: "d \<notin> set s \<Longrightarrow> split_on d s = [s]"
  by (induction s) auto

lemma split_join: "ps \<noteq> [] \<Longrightarrow> list_all (\<lambda>p. d \<notin> set p) ps \<Longrightarrow> split_on d (join_on d ps) = ps"
  by (induction d ps rule: join_on.induct) (auto simp: split_on_append split_on_plain)

lemma join_split: "join_on d (split_on d s) = s"
proof (induction s)
  case (Cons c s)
  obtain p ps where "split_on d s = p # ps" by (cases "split_on d s") auto
  then show ?case using Cons by (cases ps) auto
qed simp

lemma split_on_no_sep: "p \<in> set (split_on d s) \<Longrightarrow> d \<notin> set p"
  by (induction s arbitrary: p) (auto split: if_splits list.splits)

text \<open>A list of plain element names, the shape of a clean absolute path.\<close>

definition plain_elems :: "string list \<Rightarrow> bool" where
  "plain_elems ps \<longleftrightarrow> list_all (\<lambda>p. CHR ''/'' \<notin> set p \<and> p \<noteq> '''' \<and> p \<noteq> ''.'' \<and> p \<noteq> ''..'') ps"

lemma clean_plain: "plain_elems ps \<Longrightarrow> clean_elems r stack ps = rev stack @ ps"
  by (induction ps arbitrary: stack) (auto simp: plain_elems_def)

lemma join_append: "ps \<noteq> [] \<Longrightarrow> qs \<noteq> [] \<Longrightarrow> join_on d (ps @ qs) = join_on d ps @ d # join_on d qs"
  by (induction d ps rule: join_on.induct) (auto, (cases qs, auto)+)

text \<open>Under a clean absolute home directory the two ways of naming the file agree, and nothing is cleaned away.\<close>

lemma kube_path:
  assumes "plain_elems ps" and "ps \<noteq> []"
  shows "path_Join [CHR ''/'' # path_join ps, ''.kube'', ''config''] = CHR ''/'' # path_join ps @ ''/.kube/config''"
    and "path_Join [CHR ''/'' # path_join ps, ''.kube/config''] = CHR ''/'' # path_join ps @ ''/.kube/config''"
proof -
  let ?qs = "ps @ [''.kube'', ''config'']"
  have j: "path_join ?qs = path_join ps @ ''/.kube/config''" using join_append [OF assms(2), of "[''.kube'', ''config'']"] by simp
  have p: "plain_elems ?qs" using assms(1) by (simp add: plain_elems_def)
  have "path_split (path_join ?qs) = ?qs" using p by (intro split_join) (auto simp: plain_elems_def list_all_iff)
  moreover have "clean_elems True [] ([] # ?qs) = ?qs" using clean_plain [OF p, of True "[]"] by simp
  ultimately have "path_Clean (CHR ''/'' # path_join ps @ ''/.kube/config'') = CHR ''/'' # path_join ps @ ''/.kube/config''"
    using j by (simp add: path_Clean_def Let_def)
  then show "path_Join [CHR ''/'' # path_join ps, ''.kube'', ''config''] = CHR ''/'' # path_join ps @ ''/.kube/config''"
    and "path_Join [CHR ''/'' # path_join ps, ''.kube/config''] = CHR ''/'' # path_join ps @ ''/.kube/config''"
    by (simp_all add: path_Join_def Let_def)
qed

lemma load_config_Ret: "load_config c p = Ret cfg \<longleftrightarrow> cf_BuildConfigFromFlags c '''' p = Inr cfg"
  by (simp add: load_config_def split: sum.splits)

lemma user_config_cases:
  "user_config c = Ret cfg \<longleftrightarrow> (\<exists>home. cf_UserHomeDir c = Inr home \<and> load_config c (path_Join [home, ''.kube/config'']) = Ret cfg)"
  by (simp add: user_config_def split: sum.splits)

end
