(* ===== verification/Client_Programs.thy ===== *)
theory Client_Programs
  imports Deployment_Lifecycle Client_Config
begin

text \<open>
  The programs that create, update, list and delete the Deployment \<open>nginx\<close>, once on the REST client
  (\<open>src/client-go/using-rest-client/\<close>) and once on the typed clientset (\<open>src/client-go/using-kubernetes-clientset/\<close>), and
  their smaller relatives: \<open>helloworld\<close> and the demonstration of the fake clientset.

  A program logs the requests it sends and the lines it prints. The server answers a request with an error or a text; the
  codecs and the methods of the clientset belong to the client library. A method of the clientset is itself a program of
  requests; \<open>clientset_law\<close> states which request each one makes: a create encodes its body with the serializer of the client
  (\<open>nx_Encode\<close>, which adds kind and version, while the REST program posts what \<open>json.Marshal\<close> gives), and a delete sends its
  options as the body. An answer is decoded into an object over what that object already holds. The writer that aligns
  the columns of a table gets the rows as they are.
\<close>

section \<open>Definitions\<close>

subsection \<open>Requests\<close>

datatype rest_verb = POST | GET | DELETE | PATCH string

record request =
  rq_Verb :: rest_verb
  rq_APIPath :: string
  rq_GroupVersion :: "string \<times> string"
  rq_Namespace :: string
  rq_Resource :: string
  rq_Name :: "string option"
  rq_Body :: "string option"

datatype ncall = Sent request "go_error + string" | Printed string | Row "string list"

type_synonym 'a nprog = "(ncall list, 'a outcome) state"

record pod_row =
  pr_Name :: string
  pr_Phase :: string
  pr_CreationTimestamp :: int

record 'cfg nginx_env = "'cfg config_env" +
  nx_Do :: "ncall list \<Rightarrow> request \<Rightarrow> go_error + string"
  nx_RESTClientFor :: "'cfg \<Rightarrow> string \<Rightarrow> string \<times> string \<Rightarrow> go_error option"
  nx_NewForConfig :: "'cfg \<Rightarrow> go_error option"
  nx_Marshal :: "Deployment \<Rightarrow> go_error + string"
  nx_Encode :: "Deployment \<Rightarrow> go_error + string"
  nx_DeleteOptions :: "go_error + string"
  nx_Deployment :: "Deployment \<Rightarrow> string \<Rightarrow> go_error + Deployment"
  nx_Status :: "string \<Rightarrow> go_error + string"
  nx_PodList :: "string \<Rightarrow> go_error + pod_row list"
  nx_Since :: "int \<Rightarrow> int"
  cs_Create :: "string \<Rightarrow> Deployment \<Rightarrow> (ncall list, go_error + Deployment) state"
  cs_Get :: "string \<Rightarrow> string \<Rightarrow> (ncall list, go_error + Deployment) state"
  cs_Patch :: "string \<Rightarrow> string \<Rightarrow> string \<Rightarrow> string \<Rightarrow> (ncall list, go_error + Deployment) state"
  cs_Delete :: "string \<Rightarrow> string \<Rightarrow> (ncall list, go_error option) state"
  cs_ListPods :: "string \<Rightarrow> (ncall list, go_error + pod_row list) state"

text \<open>\<open>Do(ctx).Into(res)\<close>: send the request and decode the answer.\<close>

definition into :: "'cfg nginx_env \<Rightarrow> (string \<Rightarrow> go_error + 'r) \<Rightarrow> request \<Rightarrow> (ncall list, go_error + 'r) state" where
  "into e dec rq = do {
     r \<leftarrow> perform (\<lambda>h. nx_Do e h rq) (Sent rq);
     return (case r of Inl err \<Rightarrow> Inl err | Inr t \<Rightarrow> dec t)
   }"

text \<open>What follows a call: an error panics.\<close>

definition or_panic :: "('w, go_error + 'r) state \<Rightarrow> ('w, 'r outcome) state" where
  "or_panic m = do { r \<leftarrow> m; return (case r of Inl err \<Rightarrow> Panic (PanicErr (Error err)) | Inr x \<Rightarrow> Ret x) }"

definition say :: "string \<Rightarrow> unit nprog" where
  "say s = do { note_call (Printed s); return (Ret ()) }"

abbreviation apps_v1 :: "string \<times> string" where
  "apps_v1 \<equiv> (''apps'', ''v1'')"

definition deployments_request :: "rest_verb \<Rightarrow> string \<Rightarrow> string option \<Rightarrow> string option \<Rightarrow> request" where
  "deployments_request v ns nm body = \<lparr>rq_Verb = v, rq_APIPath = ''apis'', rq_GroupVersion = apps_v1, rq_Namespace = ns,
     rq_Resource = ''deployments'', rq_Name = nm, rq_Body = body\<rparr>"

definition pods_request :: "string \<Rightarrow> request" where
  "pods_request ns = \<lparr>rq_Verb = GET, rq_APIPath = ''api'', rq_GroupVersion = ('''', ''v1''), rq_Namespace = ns,
     rq_Resource = ''pods'', rq_Name = None, rq_Body = None\<rparr>"

subsection \<open>The Deployment and the table\<close>

definition nginx :: Deployment where
  "nginx = \<lparr>dp_Name = ''nginx'', dp_ResourceVersion = '''', dp_Replicas = Some 1, dp_MatchLabels = [(''app'', ''nginx'')],
     dp_TemplateLabels = [(''app'', ''nginx'')],
     dp_Containers = [\<lparr>wc_Name = ''nginx'', wc_Image = ''nginx:1.21.6'', wc_Ports = []\<rparr>]\<rparr>"

definition deployment0 :: Deployment where
  "deployment0 = \<lparr>dp_Name = '''', dp_ResourceVersion = '''', dp_Replicas = None, dp_MatchLabels = [], dp_TemplateLabels = [],
     dp_Containers = []\<rparr>"

text \<open>\<open>Duration.Round\<close> rounds half away from zero and saturates at the bounds of 64 bits.\<close>

definition Round :: "int \<Rightarrow> int \<Rightarrow> int" where
  "Round d m =
     (let r = \<bar>d\<bar> mod m in
      if d < 0 then (if 2 * r < m then d + r else if d - m + r \<ge> - (2 ^ 63) then d - m + r else - (2 ^ 63))
      else (if 2 * r < m then d - r else if d + m - r < 2 ^ 63 then d + m - r else 2 ^ 63 - 1))"

text \<open>\<open>int(age.Minutes())\<close> drops the fraction.\<close>

definition age_minutes :: "int \<Rightarrow> int" where
  "age_minutes since = trunc_quot (Round since 1000000000) 60000000000"

definition pod_cells :: "'cfg nginx_env \<Rightarrow> pod_row \<Rightarrow> string list" where
  "pod_cells e p = [pr_Name p, pr_Phase p, show_int (age_minutes (nx_Since e (pr_CreationTimestamp p))) @ ''m'']"

fun pod_rows :: "'cfg nginx_env \<Rightarrow> pod_row list \<Rightarrow> unit nprog" where
  "pod_rows e [] = return (Ret ())"
| "pod_rows e (p # ps) = do { note_call (Row (pod_cells e p)); pod_rows e ps }"

definition pod_table :: "'cfg nginx_env \<Rightarrow> pod_row list \<Rightarrow> unit nprog" where
  "pod_table e ps = do { note_call (Row [''NAME'', ''STATUS'', ''AGE'']); pod_rows e ps }"

text \<open>The image of the first container.\<close>

definition image_line :: "string \<Rightarrow> Deployment \<Rightarrow> unit nprog" where
  "image_line s res =
     (case dp_Containers res of
        [] \<Rightarrow> return (Panic IndexOutOfRange)
      | c # _ \<Rightarrow> say (s @ '' patching: deployment.apps/'' @ dp_Name res @ '' image is '' @ wc_Image c))"

definition image_patch :: "string \<Rightarrow> string" where
  "image_patch img =
     ''{\"spec\":{\"template\":{\"spec\":{\"containers\":[{\"name\":\"nginx\",\"image\":\"'' @ img @ ''\"}]}}}}''"

subsection \<open>On the REST client\<close>

definition rest_setup :: "'cfg nginx_env \<Rightarrow> string outcome" where
  "rest_setup e =
     (case context_config e of
        Panic p \<Rightarrow> Panic p
      | Ret (namespace, cfg) \<Rightarrow>
          (case nx_RESTClientFor e cfg ''apis'' apps_v1 of
             Some err \<Rightarrow> Panic (PanicErr (Error err))
           | None \<Rightarrow> Ret namespace))"

definition rest_creating :: "'cfg nginx_env \<Rightarrow> unit nprog" where
  "rest_creating e =
     obind (of_outcome (rest_setup e)) (\<lambda>namespace.
     obind (or_panic (return (nx_Marshal e nginx))) (\<lambda>body.
     obind (or_panic (into e (nx_Deployment e deployment0) (deployments_request POST namespace None (Some body)))) (\<lambda>res.
     say (''deployment.apps/'' @ dp_Name res @ '' created''))))"

definition rest_deleting :: "'cfg nginx_env \<Rightarrow> unit nprog" where
  "rest_deleting e =
     obind (of_outcome (rest_setup e)) (\<lambda>namespace. do {
       r \<leftarrow> into e (nx_Status e) (deployments_request DELETE namespace (Some ''nginx'') None);
       (case r of
          Inl err \<Rightarrow> if IsNotFound err then say (Error err) else return (Panic (PanicErr (Error err)))
        | Inr status \<Rightarrow> say (''deployment.apps \"nginx\" delete: '' @ status))
     })"

text \<open>The second answer is decoded into the object that holds the first.\<close>

definition rest_update_image :: "'cfg nginx_env \<Rightarrow> string \<Rightarrow> string \<Rightarrow> unit nprog" where
  "rest_update_image e img namespace =
     obind (or_panic (into e (nx_Deployment e deployment0) (deployments_request GET namespace (Some ''nginx'') None))) (\<lambda>res.
     obind (image_line ''before'' res) (\<lambda>_.
     obind (or_panic (into e (nx_Deployment e res)
       (deployments_request (PATCH ''application/strategic-merge-patch+json'') namespace (Some ''nginx'') (Some (image_patch img))))) (\<lambda>res.
     image_line ''after '' res)))"

definition rest_updating :: "'cfg nginx_env \<Rightarrow> unit nprog" where
  "rest_updating e = obind (of_outcome (rest_setup e)) (rest_update_image e ''nginx:1.14.2'')"

definition rest_list_pods :: "'cfg nginx_env \<Rightarrow> string \<Rightarrow> unit nprog" where
  "rest_list_pods e namespace = obind (or_panic (into e (nx_PodList e) (pods_request namespace))) (pod_table e)"

definition rest_listing :: "'cfg nginx_env \<Rightarrow> unit nprog" where
  "rest_listing e =
     obind (of_outcome (load_config e (pflag_kubeconfig e))) (\<lambda>cfg.
     (case nx_RESTClientFor e cfg ''api'' ('''', ''v1'') of
        Some err \<Rightarrow> return (Panic (PanicErr (Error err)))
      | None \<Rightarrow> rest_list_pods e ''kube-system''))"

subsection \<open>On the clientset\<close>

definition clientset :: "'cfg nginx_env \<Rightarrow> string outcome" where
  "clientset e =
     (case load_config e (env_kubeconfig e) of
        Panic p \<Rightarrow> Panic p
      | Ret config \<Rightarrow>
          (case nx_NewForConfig e config of
             Some err \<Rightarrow> Panic (PanicErr (Error err))
           | None \<Rightarrow> Ret (flag_String e ''namespace'' ''default'')))"

definition cs_creating :: "'cfg nginx_env \<Rightarrow> unit nprog" where
  "cs_creating e =
     obind (of_outcome (clientset e)) (\<lambda>namespace.
     obind (or_panic (cs_Create e namespace nginx)) (\<lambda>res.
     say (''deployment.apps/'' @ dp_Name res @ '' created'')))"

definition cs_deleting :: "'cfg nginx_env \<Rightarrow> unit nprog" where
  "cs_deleting e =
     obind (of_outcome (clientset e)) (\<lambda>namespace. do {
       r \<leftarrow> cs_Delete e namespace ''nginx'';
       (case r of
          Some err \<Rightarrow> if IsNotFound err then return (Ret ()) else return (Panic (PanicErr (Error err)))
        | None \<Rightarrow> say ''deployment.apps \"nginx\" deleted'')
     })"

definition cs_updating :: "'cfg nginx_env \<Rightarrow> unit nprog" where
  "cs_updating e =
     obind (of_outcome (clientset e)) (\<lambda>namespace.
     obind (or_panic (cs_Get e namespace ''nginx'')) (\<lambda>res.
     obind (image_line ''before'' res) (\<lambda>_.
     obind (or_panic (cs_Patch e namespace ''nginx'' ''application/strategic-merge-patch+json'' (image_patch ''nginx:1.20.2''))) (\<lambda>res.
     image_line ''after '' res))))"

definition cs_listing :: "'cfg nginx_env \<Rightarrow> unit nprog" where
  "cs_listing e =
     obind (of_outcome (clientset e)) (\<lambda>namespace.
     obind (or_panic (cs_ListPods e namespace)) (pod_table e))"

definition helloworld_main :: "'cfg nginx_env \<Rightarrow> unit nprog" where
  "helloworld_main e =
     obind (of_outcome (load_config e (home_kubeconfig e))) (\<lambda>config.
     (case nx_NewForConfig e config of
        Some err \<Rightarrow> return (Panic (PanicErr (Error err)))
      | None \<Rightarrow> do {
          r \<leftarrow> cs_Delete e ''default'' ''demo-deployment'';
          (case r of Some err \<Rightarrow> return (Panic (PanicErr (Error err))) | None \<Rightarrow> return (Ret ()))
        }))"

text \<open>The fake clientset has no server: \<open>cs_Create\<close> and \<open>cs_Get\<close> are those of the fake.\<close>

definition fake_main :: "'cfg nginx_env \<Rightarrow> unit nprog" where
  "fake_main e =
     obind (or_panic (cs_Create e ''default'' nginx)) (\<lambda>res.
     obind (say (''deployment.apps/'' @ dp_Name res @ '' created'')) (\<lambda>_.
     obind (or_panic (cs_Get e ''default'' (dp_Name nginx))) (\<lambda>deploy.
     say (''get deployment.apps/'' @ dp_Name deploy))))"

subsection \<open>What the methods of the clientset send\<close>

definition clientset_law :: "'cfg nginx_env \<Rightarrow> bool" where
  "clientset_law e \<longleftrightarrow>
     (\<forall>ns d. cs_Create e ns d = (case nx_Encode e d of
          Inl err \<Rightarrow> return (Inl err)
        | Inr body \<Rightarrow> into e (nx_Deployment e deployment0) (deployments_request POST ns None (Some body)))) \<and>
     (\<forall>ns nm. cs_Get e ns nm = into e (nx_Deployment e deployment0) (deployments_request GET ns (Some nm) None)) \<and>
     (\<forall>ns nm t p. cs_Patch e ns nm t p =
        into e (nx_Deployment e deployment0) (deployments_request (PATCH t) ns (Some nm) (Some p))) \<and>
     (\<forall>ns nm. cs_Delete e ns nm = (case nx_DeleteOptions e of
          Inl err \<Rightarrow> return (Some err)
        | Inr body \<Rightarrow> do {
            r \<leftarrow> into e (\<lambda>_. Inr ()) (deployments_request DELETE ns (Some nm) (Some body));
            return (case r of Inl err \<Rightarrow> Some err | Inr _ \<Rightarrow> None) })) \<and>
     (\<forall>ns. cs_ListPods e ns = into e (nx_PodList e) (pods_request ns))"

fun is_Sent :: "ncall \<Rightarrow> bool" where
  "is_Sent (Sent rq r) = True"
| "is_Sent _ = False"

section \<open>Lemmas\<close>

lemma run_or_panic [simp, exec_simps]:
  "run_state (or_panic m) h =
     (case run_state m h of (Inl err, h') \<Rightarrow> (Panic (PanicErr (Error err)), h') | (Inr x, h') \<Rightarrow> (Ret x, h'))"
  by (auto simp: or_panic_def split: prod.splits sum.splits)

lemma run_say [simp, exec_simps]: "run_state (say s) h = (Ret (), h @ [Printed s])"
  by (simp add: say_def)

lemma run_into [simp, exec_simps]:
  "run_state (into e dec rq) h =
     ((case nx_Do e h rq of Inl err \<Rightarrow> Inl err | Inr t \<Rightarrow> dec t), h @ [Sent rq (nx_Do e h rq)])"
  by (simp add: into_def)

lemma state_eqI: "(\<And>h. run_state m h = run_state m' h) \<Longrightarrow> m = m'"
  by (cases m; cases m') auto

text \<open>The age of a pod is rounded to the next full second and then cut to full minutes.\<close>

lemma div_round_half:
  fixes d h :: int
  assumes "0 < h" and "m = 2 * h"
  shows "(d + h) div m * m = (if 2 * (d mod m) < m then d - d mod m else d + m - d mod m)"
proof -
  let ?q = "d div m" and ?r = "d mod m"
  have m: "0 < m" "0 \<le> ?r" "?r < m" using assms by simp_all
  have d: "?r + ?q * m = d" by simp
  have "(d + h) div m = (?r + h + ?q * m) div m" by (subst d [symmetric]) (simp only: ac_simps)
  also have "\<dots> = ?q + (?r + h) div m" using m(1) by (intro div_mult_self1) simp
  finally have q: "(d + h) div m = ?q + (?r + h) div m" .
  show ?thesis
  proof (cases "2 * ?r < m")
    case True
    then have "(?r + h) div m = 0" using m assms by (intro div_pos_pos_trivial) auto
    then show ?thesis using True q by (simp add: minus_mod_eq_div_mult)
  next
    case False
    then have "(?r + h) div m = 1 + (?r - h) div m"
      using m(1) assms(2) div_mult_self1 [of m "?r - h" 1] by (simp add: algebra_simps)
    also have "(?r - h) div m = 0" using False m assms by (intro div_pos_pos_trivial) linarith+
    finally have "(?r + h) div m = 1" by simp
    then have "(d + h) div m * m = ?q * m + m" using q by (simp add: algebra_simps)
    also have "\<dots> = d - ?r + m" by (simp add: minus_mod_eq_div_mult)
    finally show ?thesis using False by simp
  qed
qed

lemma Round_second:
  assumes "0 \<le> d" and "d < 2 ^ 63 - 1000000000"
  shows "Round d 1000000000 = (d + 500000000) div 1000000000 * 1000000000"
proof -
  have "Round d 1000000000 = (if 2 * (d mod 1000000000) < 1000000000 then d - d mod 1000000000 else d + 1000000000 - d mod 1000000000)"
  proof -
    have "0 \<le> d mod 1000000000" by simp
    then have "d + 1000000000 - d mod 1000000000 < 2 ^ 63" using assms(2) by linarith
    then show ?thesis using assms(1) by (simp add: Round_def Let_def)
  qed
  also have "\<dots> = (d + 500000000) div 1000000000 * 1000000000" by (rule div_round_half [symmetric]) simp_all
  finally show ?thesis .
qed

lemma age_minutes_rounds:
  assumes "0 \<le> since" and "since < 2 ^ 63 - 1000000000"
  shows "age_minutes since = (since + 500000000) div 60000000000"
proof -
  let ?s = "(since + 500000000) div 1000000000"
  have s: "0 \<le> ?s" using assms(1) by (simp add: pos_imp_zdiv_nonneg_iff)
  have "age_minutes since = trunc_quot (?s * 1000000000) 60000000000" by (simp add: age_minutes_def Round_second [OF assms])
  also have "\<dots> = (?s * 1000000000) div (60 * 1000000000)"
  proof (cases "?s = 0")
    case False
    then have "sgn (?s * 1000000000) = 1" "\<bar>?s * 1000000000\<bar> = ?s * 1000000000" using s by simp_all
    then show ?thesis unfolding trunc_quot_def by simp
  qed (simp add: trunc_quot_def)
  also have "\<dots> = ?s div 60" by (rule div_mult_mult2) simp
  also have "\<dots> = (since + 500000000) div (1000000000 * 60)" by (rule zdiv_zmult2_eq [symmetric]) simp
  finally show ?thesis by simp
qed

lemma pod_rows_run: "run_state (pod_rows e ps) h = (Ret (), h @ map (Row \<circ> pod_cells e) ps)"
  by (induction ps arbitrary: h) simp_all

lemma clientset_lawD:
  assumes "clientset_law e"
  shows "cs_Create e ns d = (case nx_Encode e d of
          Inl err \<Rightarrow> return (Inl err)
        | Inr body \<Rightarrow> into e (nx_Deployment e deployment0) (deployments_request POST ns None (Some body)))"
    and "cs_Get e ns nm = into e (nx_Deployment e deployment0) (deployments_request GET ns (Some nm) None)"
    and "cs_Patch e ns nm t p = into e (nx_Deployment e deployment0) (deployments_request (PATCH t) ns (Some nm) (Some p))"
    and "cs_Delete e ns nm = (case nx_DeleteOptions e of
          Inl err \<Rightarrow> return (Some err)
        | Inr body \<Rightarrow> do {
            r \<leftarrow> into e (\<lambda>_. Inr ()) (deployments_request DELETE ns (Some nm) (Some body));
            return (case r of Inl err \<Rightarrow> Some err | Inr _ \<Rightarrow> None) })"
    and "cs_ListPods e ns = into e (nx_PodList e) (pods_request ns)"
  using assms unfolding clientset_law_def by blast+

lemma into_decode: "into (e\<lparr>nx_Deployment := d\<rparr>) dec rq = into e dec rq"
  by (rule state_eqI) simp

lemma obind_Ret_left: "obind (of_outcome (Ret x)) f = f x"
  by (rule state_eqI) simp

section \<open>Properties\<close>

text \<open>What is known of the parts of a run that returns.\<close>

lemma obind_returnsE:
  assumes "run_state (obind m f) h = (Ret y, h')"
  obtains x h1 where "run_state m h = (Ret x, h1)" "run_state (f x) h1 = (Ret y, h')"
  using assms by (auto split: outcome.splits prod.splits)

lemma into_returnsE:
  assumes "run_state (or_panic (into e dec rq)) h = (Ret d, h')"
  obtains t where "dec t = Inr d" "h' = h @ [Sent rq (Inr t)]"
  using assms by (auto split: sum.splits)

lemma image_line_returnsE:
  assumes "run_state (image_line s d) h = (Ret u, h')"
  obtains c cs where "dp_Containers d = c # cs" "h' = h @ [Printed (s @ '' patching: deployment.apps/'' @ dp_Name d @ '' image is '' @ wc_Image c)]"
  using assms by (auto simp: image_line_def split: list.splits)

text \<open>A run that updates the image and returns: both requests were answered with a Deployment that has a container.\<close>

lemma update_image_returns:
  "run_state (rest_update_image e img ns) h = (Ret (), h') \<Longrightarrow>
    \<exists>t d c cs p d' c' cs'. nx_Deployment e deployment0 t = Inr d \<and> dp_Containers d = c # cs \<and>
      nx_Deployment e d p = Inr d' \<and> dp_Containers d' = c' # cs' \<and>
      h' = h @ [Sent (deployments_request GET ns (Some ''nginx'') None) (Inr t),
        Printed (''before patching: deployment.apps/'' @ dp_Name d @ '' image is '' @ wc_Image c),
        Sent (deployments_request (PATCH ''application/strategic-merge-patch+json'') ns (Some ''nginx'') (Some (image_patch img))) (Inr p),
        Printed (''after  patching: deployment.apps/'' @ dp_Name d' @ '' image is '' @ wc_Image c')]"
  unfolding rest_update_image_def
  by (elim obind_returnsE into_returnsE image_line_returnsE) (simp, blast)

text \<open>C36. The programs on the REST client and on the clientset do the same, with these differences. When both find the same
  namespace, the clientset's program that creates the Deployment is the REST one with the serializer of the client in place of
  \<open>json.Marshal\<close>; the one that updates it is the REST one with another image and with the answer to the patch decoded into a
  fresh object instead of the one that holds the answer to the get; the listing prints the table that the REST one prints for
  that namespace. The two that delete it each send one request for the same path, the clientset with its options as the body
  and the REST client without a body; given the same answer they end the same way, a missing Deployment being no error,
  unless the answer is not the status that the REST program insists on. A run of the REST program that updates the image returns
  only after both its requests were answered by a Deployment with a container: it has sent the get, printed the image, sent the
  patch with the new image and printed the image of what the answer made of the object it had. A pod's age is shown in minutes, cut after
  rounding to seconds.\<close>

theorem clientset_equals_rest:
  assumes "clientset_law e" and "rest_setup e = Ret ns" and "clientset e = Ret ns" and "nx_DeleteOptions e = Inr opts"
  shows "cs_creating e = rest_creating (e\<lparr>nx_Marshal := nx_Encode e\<rparr>) \<and>
    rest_updating e = rest_update_image e ''nginx:1.14.2'' ns \<and>
    cs_updating e = rest_update_image (e\<lparr>nx_Deployment := (\<lambda>res. nx_Deployment e deployment0)\<rparr>) ''nginx:1.20.2'' ns \<and>
    cs_listing e = rest_list_pods e ns \<and>
    (\<forall>h. let rest_request = deployments_request DELETE ns (Some ''nginx'') None;
           cs_request = deployments_request DELETE ns (Some ''nginx'') (Some opts);
           (rr, hr) = run_state (rest_deleting e) h; (rc, hc) = run_state (cs_deleting e) h in
       filter is_Sent hr = filter is_Sent h @ [Sent rest_request (nx_Do e h rest_request)] \<and>
       filter is_Sent hc = filter is_Sent h @ [Sent cs_request (nx_Do e h cs_request)] \<and>
       (nx_Do e h cs_request = nx_Do e h rest_request \<longrightarrow>
         (case nx_Do e h rest_request of
            Inl err \<Rightarrow> rr = rc \<and> (rc = Ret () \<longleftrightarrow> IsNotFound err)
          | Inr t \<Rightarrow> rc = Ret () \<and> (\<forall>s. nx_Status e t = Inr s \<longrightarrow> rr = Ret ())))) \<and>
    (\<forall>h h'. run_state (rest_updating e) h = (Ret (), h') \<longrightarrow>
       (\<exists>t d c cs p d' c' cs'. nx_Deployment e deployment0 t = Inr d \<and> dp_Containers d = c # cs \<and>
         nx_Deployment e d p = Inr d' \<and> dp_Containers d' = c' # cs' \<and>
         h' = h @ [Sent (deployments_request GET ns (Some ''nginx'') None) (Inr t),
           Printed (''before patching: deployment.apps/'' @ dp_Name d @ '' image is '' @ wc_Image c),
           Sent (deployments_request (PATCH ''application/strategic-merge-patch+json'') ns (Some ''nginx'') (Some (image_patch ''nginx:1.14.2''))) (Inr p),
           Printed (''after  patching: deployment.apps/'' @ dp_Name d' @ '' image is '' @ wc_Image c')])) \<and>
    (\<forall>since. 0 \<le> since \<and> since < 2 ^ 63 - 1000000000 \<longrightarrow> age_minutes since = (since + 500000000) div 60000000000)"
proof (intro conjI allI impI)
  note law = clientset_lawD [OF assms(1)]
  have ready: "rest_setup (e\<lparr>nx_Marshal := nx_Encode e\<rparr>) = Ret ns"
    using assms(2) by (cases "cf_Namespace e"; cases "cf_ClientConfig e") (simp_all add: rest_setup_def context_config_def split: option.splits)
  show "cs_creating e = rest_creating (e\<lparr>nx_Marshal := nx_Encode e\<rparr>)"
    by (rule state_eqI) (simp add: rest_creating_def cs_creating_def assms(3) ready law split: sum.split)
  show "rest_updating e = rest_update_image e ''nginx:1.14.2'' ns" "cs_listing e = rest_list_pods e ns"
    by (simp_all add: rest_updating_def cs_listing_def rest_list_pods_def assms(2,3) obind_Ret_left law)
  show "cs_updating e = rest_update_image (e\<lparr>nx_Deployment := (\<lambda>res. nx_Deployment e deployment0)\<rparr>) ''nginx:1.20.2'' ns"
    by (simp add: cs_updating_def rest_update_image_def assms(3) obind_Ret_left law into_decode)
  show "let rest_request = deployments_request DELETE ns (Some ''nginx'') None;
           cs_request = deployments_request DELETE ns (Some ''nginx'') (Some opts);
           (rr, hr) = run_state (rest_deleting e) h; (rc, hc) = run_state (cs_deleting e) h in
       filter is_Sent hr = filter is_Sent h @ [Sent rest_request (nx_Do e h rest_request)] \<and>
       filter is_Sent hc = filter is_Sent h @ [Sent cs_request (nx_Do e h cs_request)] \<and>
       (nx_Do e h cs_request = nx_Do e h rest_request \<longrightarrow>
         (case nx_Do e h rest_request of
            Inl err \<Rightarrow> rr = rc \<and> (rc = Ret () \<longleftrightarrow> IsNotFound err)
          | Inr t \<Rightarrow> rc = Ret () \<and> (\<forall>s. nx_Status e t = Inr s \<longrightarrow> rr = Ret ())))" for h
    by (cases "nx_Do e h (deployments_request DELETE ns (Some ''nginx'') None)";
        cases "nx_Do e h (deployments_request DELETE ns (Some ''nginx'') (Some opts))")
      (auto simp: Let_def rest_deleting_def cs_deleting_def assms(2-4) obind_Ret_left law split: sum.split)
  show "\<exists>t d c cs p d' c' cs'. nx_Deployment e deployment0 t = Inr d \<and> dp_Containers d = c # cs \<and>
         nx_Deployment e d p = Inr d' \<and> dp_Containers d' = c' # cs' \<and>
         h' = h @ [Sent (deployments_request GET ns (Some ''nginx'') None) (Inr t),
           Printed (''before patching: deployment.apps/'' @ dp_Name d @ '' image is '' @ wc_Image c),
           Sent (deployments_request (PATCH ''application/strategic-merge-patch+json'') ns (Some ''nginx'') (Some (image_patch ''nginx:1.14.2''))) (Inr p),
           Printed (''after  patching: deployment.apps/'' @ dp_Name d' @ '' image is '' @ wc_Image c')]"
    if "run_state (rest_updating e) h = (Ret (), h')" for h h'
    using update_image_returns [of e _ ns h h'] that by (simp add: rest_updating_def assms(2) obind_Ret_left)
  show "age_minutes since = (since + 500000000) div 60000000000" if "0 \<le> since \<and> since < 2 ^ 63 - 1000000000" for since
    using that by (intro age_minutes_rounds) auto
qed

text \<open>A server that has no Deployment to delete, and the clientset over it.\<close>

definition bare_nginx :: "unit nginx_env" where
  "bare_nginx = \<lparr>cf_Getenv = (\<lambda>_. ''''), cf_HomeDir = ''/root'', cf_UserHomeDir = Inr ''/root'',
     cf_RecommendedHomeFile = ''/root/.kube/config'', cf_flag = (\<lambda>_. None), cf_BuildConfigFromFlags = (\<lambda>_ _. Inr ()),
     cf_InClusterConfig = Inr (), cf_Namespace = Inr ''default'', cf_ClientConfig = Inr (),
     nx_Do = (\<lambda>h rq. if rq_Verb rq = DELETE then Inl (StatusError ReasonNotFound ''not found'') else Inr ''{}''),
     nx_RESTClientFor = (\<lambda>_ _ _. None), nx_NewForConfig = (\<lambda>_. None), nx_Marshal = (\<lambda>d. Inr ''{}''),
     nx_Encode = (\<lambda>d. Inr ''{kind}''), nx_DeleteOptions = Inr ''{options}'',
     nx_Deployment = (\<lambda>res _. Inr nginx), nx_Status = (\<lambda>_. Inr ''Success''), nx_PodList = (\<lambda>_. Inr []), nx_Since = id,
     cs_Create = (\<lambda>_ _. return (Inl (PlainError ''''))), cs_Get = (\<lambda>_ _. return (Inl (PlainError ''''))),
     cs_Patch = (\<lambda>_ _ _ _. return (Inl (PlainError ''''))), cs_Delete = (\<lambda>_ _. return None),
     cs_ListPods = (\<lambda>_. return (Inr []))\<rparr>"

definition mem_nginx :: "unit nginx_env" where
  "mem_nginx = bare_nginx
     \<lparr>cs_Create := (\<lambda>ns d. into bare_nginx (nx_Deployment bare_nginx deployment0) (deployments_request POST ns None (Some ''{kind}''))),
      cs_Get := (\<lambda>ns nm. into bare_nginx (nx_Deployment bare_nginx deployment0) (deployments_request GET ns (Some nm) None)),
      cs_Patch := (\<lambda>ns nm t p.
        into bare_nginx (nx_Deployment bare_nginx deployment0) (deployments_request (PATCH t) ns (Some nm) (Some p))),
      cs_Delete := (\<lambda>ns nm. do {
        r \<leftarrow> into bare_nginx (\<lambda>_. Inr ()) (deployments_request DELETE ns (Some nm) (Some ''{options}''));
        return (case r of Inl err \<Rightarrow> Some err | Inr _ \<Rightarrow> None) }),
      cs_ListPods := (\<lambda>ns. into bare_nginx (nx_PodList bare_nginx) (pods_request ns))\<rparr>"

lemma mem_nginx_law: "clientset_law mem_nginx"
proof -
  have into: "into mem_nginx = into bare_nginx" by (intro ext state_eqI) (simp add: mem_nginx_def)
  have fields: "nx_Encode mem_nginx d = Inr ''{kind}''" "nx_Deployment mem_nginx = nx_Deployment bare_nginx"
    "nx_DeleteOptions mem_nginx = Inr ''{options}''" "nx_PodList mem_nginx = nx_PodList bare_nginx" for d
    by (simp_all add: mem_nginx_def bare_nginx_def)
  show ?thesis unfolding clientset_law_def into fields by (simp add: mem_nginx_def)
qed

theorem clientset_equals_rest_witness:
  "cs_creating mem_nginx = rest_creating (mem_nginx\<lparr>nx_Marshal := nx_Encode mem_nginx\<rparr>) \<and>
   fst (run_state (cs_creating mem_nginx) []) = Ret () \<and> age_minutes 59500000000 = 1"
proof -
  have ns: "rest_setup mem_nginx = Ret ''default''" "clientset mem_nginx = Ret ''default''" "nx_DeleteOptions mem_nginx = Inr ''{options}''"
    by (simp_all add: rest_setup_def clientset_def mem_nginx_def bare_nginx_def context_config_def load_config_def flag_String_def)
  note eq = clientset_equals_rest [OF mem_nginx_law ns]
  have "age_minutes 59500000000 = (59500000000 + 500000000) div 60000000000" using eq by simp
  moreover have "fst (run_state (cs_creating mem_nginx) []) = Ret ()"
    by (simp add: cs_creating_def ns) (simp add: mem_nginx_def bare_nginx_def deployments_request_def)
  ultimately show ?thesis using eq by simp
qed

end
