(* ===== verification/Program_Logic.thy ===== *)
theory Program_Logic
  imports Client_Config
begin

text \<open>
  A small program logic for programs that log their calls and may panic. A triple has two postconditions: one for the
  value the program returns, one for a panic. The rules follow the combinators the models are built from, deferred
  calls included; the collection \<open>triple_rules\<close> holds them.
\<close>

named_theorems triple_rules

section \<open>Definitions\<close>

definition triple :: "('w \<Rightarrow> bool) \<Rightarrow> ('w, 'a outcome) state \<Rightarrow> ('a \<Rightarrow> 'w \<Rightarrow> bool) \<Rightarrow> ('w \<Rightarrow> bool) \<Rightarrow> bool" where
  "triple P m Q E \<longleftrightarrow>
     (\<forall>h r h'. P h \<longrightarrow> run_state m h = (r, h') \<longrightarrow> (case r of Ret a \<Rightarrow> Q a h' | Panic p \<Rightarrow> E h'))"

section \<open>Lemmas\<close>

lemma tripleI:
  assumes "\<And>h a h'. P h \<Longrightarrow> run_state m h = (Ret a, h') \<Longrightarrow> Q a h'"
    and "\<And>h p h'. P h \<Longrightarrow> run_state m h = (Panic p, h') \<Longrightarrow> E h'"
  shows "triple P m Q E"
  unfolding triple_def using assms by (auto split: outcome.split)

lemma tripleD:
  assumes "triple P m Q E" and "P h" and "run_state m h = (r, h')"
  shows "case r of Ret a \<Rightarrow> Q a h' | Panic p \<Rightarrow> E h'"
  using assms unfolding triple_def by blast

lemma triple_conseq:
  assumes "triple P' m Q' E'" and "\<And>h. P h \<Longrightarrow> P' h" and "\<And>a h. Q' a h \<Longrightarrow> Q a h" and "\<And>h. E' h \<Longrightarrow> E h"
  shows "triple P m Q E"
proof (rule tripleI)
  fix h a h' assume "P h" "run_state m h = (Ret a, h')"
  then show "Q a h'" using tripleD [OF assms(1)] assms(2,3) by fastforce
next
  fix h p h' assume "P h" "run_state m h = (Panic p, h')"
  then show "E h'" using tripleD [OF assms(1)] assms(2,4) by fastforce
qed

lemma triple_return [triple_rules]: "(\<And>h. P h \<Longrightarrow> Q a h) \<Longrightarrow> triple P (return (Ret a)) Q E"
  by (rule tripleI) auto

lemma triple_panic [triple_rules]: "(\<And>h. P h \<Longrightarrow> E h) \<Longrightarrow> triple P (return (Panic p)) Q E"
  by (rule tripleI) auto

lemma triple_of_outcome [triple_rules]:
  "(\<And>a h. r = Ret a \<Longrightarrow> P h \<Longrightarrow> Q a h) \<Longrightarrow> (\<And>h. P h \<Longrightarrow> E h) \<Longrightarrow> triple P (of_outcome r) Q E"
  by (rule tripleI) auto

lemma triple_obind [triple_rules]:
  assumes "triple P m R E" and "\<And>a. triple (R a) (f a) Q E"
  shows "triple P (obind m f) Q E"
  unfolding triple_def
proof (intro allI impI)
  fix h r h'
  assume P: "P h" and run: "run_state (obind m f) h = (r, h')"
  obtain x h1 where x: "run_state m h = (x, h1)" by fastforce
  show "case r of Ret a \<Rightarrow> Q a h' | Panic p \<Rightarrow> E h'"
  proof (cases x)
    case (Ret a)
    then have "R a h1" using tripleD [OF assms(1) P x] by simp
    moreover have "run_state (f a) h1 = (r, h')" using run x Ret by simp
    ultimately show ?thesis by (rule tripleD [OF assms(2)])
  next
    case (Panic p)
    then have "E h1" "r = Panic p" "h' = h1" using tripleD [OF assms(1) P x] run x by simp_all
    then show ?thesis by simp
  qed
qed

lemma triple_note [triple_rules]:
  assumes "triple R m Q E" and "\<And>h. P h \<Longrightarrow> R (h @ [c])"
  shows "triple P (do { note_call c; m }) Q E"
proof (rule tripleI)
  fix h a h' assume "P h" "run_state (do { note_call c; m }) h = (Ret a, h')"
  then show "Q a h'" using tripleD [OF assms(1) assms(2)] by fastforce
next
  fix h p h' assume "P h" "run_state (do { note_call c; m }) h = (Panic p, h')"
  then show "E h'" using tripleD [OF assms(1) assms(2)] by fastforce
qed

lemma triple_deferred [triple_rules]:
  assumes "triple P m Q' E'" and "\<And>a h. Q' a h \<Longrightarrow> Q a (snd (run_state d h))" and "\<And>h. E' h \<Longrightarrow> E (snd (run_state d h))"
  shows "triple P (deferred m d) Q E"
proof (rule tripleI)
  fix h a h' assume P: "P h" and r: "run_state (deferred m d) h = (Ret a, h')"
  then show "Q a h'" using tripleD [OF assms(1) P] assms(2) by (fastforce split: prod.splits)
next
  fix h p h' assume P: "P h" and r: "run_state (deferred m d) h = (Panic p, h')"
  then show "E h'" using tripleD [OF assms(1) P] assms(3) by (fastforce split: prod.splits)
qed

text \<open>A call whose log entry keeps an assertion.\<close>

lemma triple_perform:
  assumes "\<And>x. triple (\<lambda>h. \<exists>h0. P h0 \<and> x = f h0 \<and> h = h0 @ [g x]) (k x) Q E"
  shows "triple P (do { x \<leftarrow> perform f g; k x }) Q E"
proof (rule tripleI)
  fix h a h' assume P: "P h" and r: "run_state (do { x \<leftarrow> perform f g; k x }) h = (Ret a, h')"
  then show "Q a h'" using tripleD [OF assms [of "f h"], of "h @ [g (f h)]" "Ret a" h'] by auto
next
  fix h p h' assume P: "P h" and r: "run_state (do { x \<leftarrow> perform f g; k x }) h = (Panic p, h')"
  then show "E h'" using tripleD [OF assms [of "f h"], of "h @ [g (f h)]" "Panic p" h'] by auto
qed

end
