(* ===== verification/Cluster_Programs.thy ===== *)
theory Cluster_Programs
  imports Program_Logic
begin

text \<open>
  Programs that talk to a cluster through one kind of client: the two official examples that count pods every ten seconds
  from inside and outside the cluster, the scale client (\<open>src/client-go/using-scale-client/main.go\<close>) and the program that
  builds one client of each kind (\<open>src/client-go/client-build-method/main.go\<close>).

  The endless loop of the counting programs is modelled by any number of its rounds; a round that panics ends the process.
\<close>

section \<open>Definitions\<close>

subsection \<open>Counting pods\<close>

datatype wcall =
    WList "go_error + nat"
  | WGet string string "go_error option"
  | WPrint string
  | WSleep duration

type_synonym 'a wprog = "(wcall list, 'a outcome) state"

record 'cfg watch_env = "'cfg config_env" +
  we_NewForConfig :: "'cfg \<Rightarrow> go_error option"
  we_List :: "wcall list \<Rightarrow> go_error + nat"
  we_Get :: "wcall list \<Rightarrow> string \<Rightarrow> string \<Rightarrow> go_error option"

definition w_print :: "string \<Rightarrow> unit wprog" where
  "w_print s = do { note_call (WPrint s); return (Ret ()) }"

definition count_pods :: "'cfg watch_env \<Rightarrow> unit wprog" where
  "count_pods e = do {
     pods \<leftarrow> perform (we_List e) WList;
     (case pods of
        Inl err \<Rightarrow> return (Panic (PanicErr (Error err)))
      | Inr n \<Rightarrow> w_print (''There are '' @ show_nat n @ '' pods in the cluster''))
   }"

text \<open>The error of the lookup by kind: not found, another answer of the server, anything else, none.\<close>

definition in_report :: "go_error option \<Rightarrow> unit wprog" where
  "in_report err =
     (case err of
        Some (StatusError ReasonNotFound m) \<Rightarrow> w_print ''Pod example-xxxxx not found in default namespace''
      | Some (StatusError _ m) \<Rightarrow> w_print (''Error getting pod '' @ m)
      | Some (PlainError m) \<Rightarrow> return (Panic (PanicErr m))
      | None \<Rightarrow> w_print ''Found example-xxxxx pod in default namespace'')"

definition out_report :: "go_error option \<Rightarrow> unit wprog" where
  "out_report err =
     (case err of
        Some (StatusError ReasonNotFound m) \<Rightarrow> w_print (''Pod '' @ ''example-xxxxx'' @ '' in namespace '' @ ''default'' @ '' not found'')
      | Some (StatusError _ m) \<Rightarrow> w_print (''Error getting pod '' @ ''example-xxxxx'' @ '' in namespace '' @ ''default'' @ '': '' @ m)
      | Some (PlainError m) \<Rightarrow> return (Panic (PanicErr m))
      | None \<Rightarrow> w_print (''Found pod '' @ ''example-xxxxx'' @ '' in namespace '' @ ''default''))"

definition watch_round :: "(go_error option \<Rightarrow> unit wprog) \<Rightarrow> 'cfg watch_env \<Rightarrow> unit wprog" where
  "watch_round report e =
     obind (count_pods e) (\<lambda>_. do {
       err \<leftarrow> perform (\<lambda>h. we_Get e h ''default'' ''example-xxxxx'') (WGet ''default'' ''example-xxxxx'');
       obind (report err) (\<lambda>_. do { note_call (WSleep (10 * Second)); return (Ret ()) })
     })"

fun watch_rounds :: "nat \<Rightarrow> unit wprog \<Rightarrow> unit wprog" where
  "watch_rounds 0 m = return (Ret ())"
| "watch_rounds (Suc n) m = obind m (\<lambda>_. watch_rounds n m)"

definition in_cluster_main :: "nat \<Rightarrow> 'cfg watch_env \<Rightarrow> unit wprog" where
  "in_cluster_main n e =
     (case cf_InClusterConfig e of
        Inl err \<Rightarrow> return (Panic (PanicErr (Error err)))
      | Inr config \<Rightarrow>
          (case we_NewForConfig e config of
             Some err \<Rightarrow> return (Panic (PanicErr (Error err)))
           | None \<Rightarrow> watch_rounds n (watch_round in_report e)))"

definition out_of_cluster_main :: "nat \<Rightarrow> 'cfg watch_env \<Rightarrow> unit wprog" where
  "out_of_cluster_main n e =
     obind (of_outcome (load_config e (home_kubeconfig e))) (\<lambda>config.
     (case we_NewForConfig e config of
        Some err \<Rightarrow> return (Panic (PanicErr (Error err)))
      | None \<Rightarrow> watch_rounds n (watch_round out_report e)))"

subsection \<open>Building clients\<close>

record 'cfg build_env = "'cfg config_env" +
  be_Discovery :: "'cfg \<Rightarrow> go_error option"
  be_Dynamic :: "'cfg \<Rightarrow> go_error option"
  be_Clientset :: "'cfg \<Rightarrow> go_error option"
  be_GroupResources :: "go_error option"
  be_Scale :: "'cfg \<Rightarrow> go_error option"
  be_REST :: "'cfg \<Rightarrow> string \<Rightarrow> string \<times> string \<Rightarrow> go_error option"

text \<open>Steps that may fail, in order: the first error panics.\<close>

fun first_error :: "go_error option list \<Rightarrow> unit outcome" where
  "first_error [] = Ret ()"
| "first_error (Some err # _) = Panic (PanicErr (Error err))"
| "first_error (None # steps) = first_error steps"

definition build_main :: "'cfg build_env \<Rightarrow> unit outcome" where
  "build_main e =
     (case load_config e (pflag_kubeconfig e) of
        Panic p \<Rightarrow> Panic p
      | Ret config \<Rightarrow> first_error [be_Discovery e config, be_Dynamic e config, be_Clientset e config, be_GroupResources e,
          be_Scale e config, be_REST e config ''api'' ('''', ''v1'')])"

subsection \<open>The scale client\<close>

record Scale =
  sc_Name :: string
  sc_ResourceVersion :: string
  sc_Replicas :: int32

datatype scall =
    SGet string string "go_error + Scale"
  | SUpdate string Scale "go_error + Scale"
  | SPrint string

record 'cfg scale_env = "'cfg build_env" +
  sv_Get :: "scall list \<Rightarrow> string \<Rightarrow> string \<Rightarrow> go_error + Scale"
  sv_Update :: "scall list \<Rightarrow> string \<Rightarrow> Scale \<Rightarrow> go_error + Scale"

text \<open>
  The error of the update is not looked at; with it the client returns a nil object, whose name is read in the next line.
\<close>

definition scale_main :: "'cfg scale_env \<Rightarrow> (scall list, unit outcome) state" where
  "scale_main e =
     obind (of_outcome (load_config e (home_kubeconfig e))) (\<lambda>config.
     obind (of_outcome (first_error [be_Discovery e config, be_GroupResources e,
       be_Scale e config])) (\<lambda>_. do {
       g \<leftarrow> perform (\<lambda>h. sv_Get e h ''default'' ''nginx'') (SGet ''default'' ''nginx'');
       (case g of
          Inl err \<Rightarrow> return (Panic (PanicErr (Error err)))
        | Inr result \<Rightarrow> do {
            note_call (SPrint (''Deployment '' @ sc_Name result @ '' has '' @ show_int (sint (sc_Replicas result)) @ '' replica(s).''));
            let result2 = result\<lparr>sc_Replicas := 2\<rparr>;
            u \<leftarrow> perform (\<lambda>h. sv_Update e h ''default'' result2) (SUpdate ''default'' result2);
            (case u of
               Inl err \<Rightarrow> return (Panic NilDereference)
             | Inr updated \<Rightarrow> do {
                 note_call (SPrint (''Deployment '' @ sc_Name updated @ '' replicas updated to '' @ show_int (sint (sc_Replicas updated)) @ ''.''));
                 return (Ret ())
               })
          })
     }))"

subsection \<open>What a log shows\<close>

text \<open>The line that answers a lookup, where \<open>found\<close> and \<open>missing\<close> are the two lines of a program.\<close>

definition answers :: "string \<Rightarrow> string \<Rightarrow> go_error option \<Rightarrow> string \<Rightarrow> bool" where
  "answers found missing err t =
     (case err of
        None \<Rightarrow> t = found
      | Some (StatusError ReasonNotFound m) \<Rightarrow> t = missing
      | Some (StatusError _ m) \<Rightarrow> HasPrefix t ''Error getting pod '' \<and> suffix m t
      | Some (PlainError m) \<Rightarrow> False)"

text \<open>The calls of one round: the list, the number of its pods, the lookup with an answer of the server, its line, the pause.\<close>

definition full_round :: "string \<Rightarrow> string \<Rightarrow> wcall list \<Rightarrow> bool" where
  "full_round found missing c \<longleftrightarrow> (\<exists>n t err.
     c = [WList (Inr n), WPrint (''There are '' @ show_nat n @ '' pods in the cluster''),
       WGet ''default'' ''example-xxxxx'' err, WPrint t, WSleep (10 * Second)] \<and> answers found missing err t)"

text \<open>The calls of a round that panics, and the panic.\<close>

definition last_round :: "wcall list \<Rightarrow> panic \<Rightarrow> bool" where
  "last_round c p \<longleftrightarrow> (\<exists>err. c = [WList (Inl err)] \<and> p = PanicErr (Error err)) \<or>
     (\<exists>n m. c = [WList (Inr n), WPrint (''There are '' @ show_nat n @ '' pods in the cluster''), WGet ''default'' ''example-xxxxx'' (Some (PlainError m))] \<and> p = PanicErr m)"

section \<open>Lemmas\<close>

text \<open>What a reporter owes the loop: it prints one line, or panics on an error that is not an answer of the server.\<close>

locale pod_reporter =
  fixes report :: "go_error option \<Rightarrow> unit wprog" and found missing :: string
  assumes report_run: "case err of
      Some (PlainError m) \<Rightarrow> \<forall>h. run_state (report err) h = (Panic (PanicErr m), h)
    | _ \<Rightarrow> \<exists>s. answers found missing err s \<and> (\<forall>h. run_state (report err) h = (Ret (), h @ [WPrint s]))"
begin

lemma round_run:
  assumes "run_state (watch_round report e) h = (r, h')"
  shows "\<exists>c. h' = h @ c \<and> (case r of
      Ret _ \<Rightarrow> full_round found missing c
    | Panic p \<Rightarrow> last_round c p)"
proof (cases "we_List e h")
  case (Inl err)
  then show ?thesis using assms by (auto simp: watch_round_def count_pods_def last_round_def)
next
  case (Inr n)
  let ?s = "''There are '' @ show_nat n @ '' pods in the cluster''"
  let ?err = "we_Get e (h @ [WList (Inr n), WPrint ?s]) ''default'' ''example-xxxxx''"
  show ?thesis using assms Inr report_run [of ?err]
    by (auto simp: watch_round_def count_pods_def w_print_def full_round_def last_round_def split: option.splits go_error.splits)
qed

lemma rounds_run:
  assumes "run_state (watch_rounds n (watch_round report e)) h = (r, h')"
  shows "\<exists>cs c. h' = h @ concat cs @ c \<and> list_all (full_round found missing) cs \<and> length cs \<le> n \<and> (case r of
      Ret _ \<Rightarrow> c = [] \<and> length cs = n
    | Panic p \<Rightarrow> last_round c p)"
  using assms
proof (induction n arbitrary: h)
  case 0
  then show ?case by (intro exI [of _ "[]"]) auto
next
  case (Suc n)
  obtain r1 h1 where r1: "run_state (watch_round report e) h = (r1, h1)" by fastforce
  obtain c1 where c1: "h1 = h @ c1" and
    res: "case r1 of Ret _ \<Rightarrow> full_round found missing c1
    | Panic p \<Rightarrow> last_round c1 p"
    using round_run [OF r1] by blast
  show ?case
  proof (cases r1)
    case (Ret u)
    then have "run_state (watch_rounds n (watch_round report e)) h1 = (r, h')" using Suc.prems r1 by simp
    from Suc.IH [OF this] obtain cs c where "h' = h1 @ concat cs @ c" "list_all (full_round found missing) cs" "length cs \<le> n" and
      fin: "case r of Ret _ \<Rightarrow> c = [] \<and> length cs = n
      | Panic p \<Rightarrow> last_round c p"
      by blast
    then show ?thesis using c1 res Ret by (intro exI [of _ "c1 # cs"] exI [of _ c]) (auto split: outcome.splits)
  next
    case (Panic p)
    then have "r = Panic p" "h' = h1" using Suc.prems r1 by auto
    then show ?thesis using c1 res Panic by (intro exI [of _ "[]"] exI [of _ c1]) auto
  qed
qed

end

abbreviation "in_found \<equiv> ''Found example-xxxxx pod in default namespace''"
abbreviation "in_missing \<equiv> ''Pod example-xxxxx not found in default namespace''"
abbreviation "out_found \<equiv> ''Found pod example-xxxxx in namespace default''"
abbreviation "out_missing \<equiv> ''Pod example-xxxxx in namespace default not found''"

interpretation inside: pod_reporter in_report in_found in_missing
  by unfold_locales (auto simp: in_report_def w_print_def answers_def HasPrefix_def suffix_def split: option.split go_error.split status_reason.split)

interpretation outside: pod_reporter out_report out_found out_missing
  by unfold_locales (auto simp: out_report_def w_print_def answers_def HasPrefix_def suffix_def split: option.split go_error.split status_reason.split)

section \<open>Properties\<close>

text \<open>C18. The programs that count pods stop exactly for the two reasons their code names. Once a client is built, every round of
  the loop lists the pods, prints their number, looks for the example pod, prints a line and pauses. The program ends, by a panic with
  the error, in the round in which the list fails or the lookup fails with something that is no answer of the server, and in no other:
  a run of \<open>n\<close> rounds without such a failure does all \<open>n\<close>. The line says whether the pod was found or is missing; any other status
  that the server reports is printed with its message, and the loop goes on.\<close>

theorem watch_stops_on_errors:
  assumes "run_state (in_cluster_main n e) [] = (ri, hi)" and "run_state (out_of_cluster_main n e) [] = (ro, ho)"
    and "cf_InClusterConfig e = Inr ci" and "we_NewForConfig e ci = None"
    and "load_config e (home_kubeconfig e) = Ret co" and "we_NewForConfig e co = None"
  shows "(\<exists>cs c. hi = concat cs @ c \<and> list_all (full_round in_found in_missing) cs \<and> length cs \<le> n \<and>
      (case ri of Ret _ \<Rightarrow> c = [] \<and> length cs = n | Panic p \<Rightarrow> last_round c p)) \<and>
    (\<exists>cs c. ho = concat cs @ c \<and> list_all (full_round out_found out_missing) cs \<and> length cs \<le> n \<and>
      (case ro of Ret _ \<Rightarrow> c = [] \<and> length cs = n | Panic p \<Rightarrow> last_round c p))"
proof
  have "run_state (watch_rounds n (watch_round in_report e)) [] = (ri, hi)"
    using assms(1,3,4) by (simp add: in_cluster_main_def)
  from inside.rounds_run [OF this] show "\<exists>cs c. hi = concat cs @ c \<and> list_all (full_round in_found in_missing) cs \<and> length cs \<le> n \<and>
      (case ri of Ret _ \<Rightarrow> c = [] \<and> length cs = n | Panic p \<Rightarrow> last_round c p)" by simp
  have "run_state (watch_rounds n (watch_round out_report e)) [] = (ro, ho)"
    using assms(2,5,6) by (simp add: out_of_cluster_main_def)
  from outside.rounds_run [OF this] show "\<exists>cs c. ho = concat cs @ c \<and> list_all (full_round out_found out_missing) cs \<and> length cs \<le> n \<and>
      (case ro of Ret _ \<Rightarrow> c = [] \<and> length cs = n | Panic p \<Rightarrow> last_round c p)" by simp
qed

text \<open>A cluster with three pods where the example pod is missing at first and then cannot be looked up.\<close>

definition demo_watch :: "unit watch_env" where
  "demo_watch = \<lparr>cf_Getenv = (\<lambda>_. ''''), cf_HomeDir = ''/root'', cf_UserHomeDir = Inr ''/root'',
     cf_RecommendedHomeFile = ''/root/.kube/config'', cf_flag = (\<lambda>_. None), cf_BuildConfigFromFlags = (\<lambda>_ _. Inr ()),
     cf_InClusterConfig = Inr (), cf_Namespace = Inr ''default'', cf_ClientConfig = Inr (),
     we_NewForConfig = (\<lambda>_. None), we_List = (\<lambda>_. Inr 3),
     we_Get = (\<lambda>h ns nm. Some (if length h < 5 then StatusError ReasonNotFound ''not found'' else PlainError ''connection refused''))\<rparr>"

theorem watch_stops_on_errors_witness:
  "fst (run_state (in_cluster_main 3 demo_watch) []) = Panic (PanicErr ''connection refused'') \<and>
   (\<exists>cs c. snd (run_state (in_cluster_main 3 demo_watch) []) = concat cs @ c \<and> list_all (full_round in_found in_missing) cs \<and>
      last_round c (PanicErr ''connection refused''))"
proof -
  have r: "fst (run_state (in_cluster_main 3 demo_watch) []) = Panic (PanicErr ''connection refused'')"
    by (simp add: in_cluster_main_def demo_watch_def watch_round_def count_pods_def in_report_def w_print_def eval_nat_numeral)
  have "load_config demo_watch (home_kubeconfig demo_watch) = Ret ()" "cf_InClusterConfig demo_watch = Inr ()"
    "we_NewForConfig demo_watch () = None" by (simp_all add: demo_watch_def load_config_def)
  then show ?thesis
    using r watch_stops_on_errors [OF prod.collapse [symmetric] prod.collapse [symmetric], of demo_watch "()" "()" 3] by auto
qed

text \<open>The scale client writes back what it read with two replicas and nothing else changed, so a conflict is detected by
  the server; but the error of that write is dropped, and every failed write ends in the dereference of a nil pointer
  instead of the error. A run that returns prints the numbers before and after that the server gave.\<close>

theorem scale_update_error_lost:
  assumes "load_config e (home_kubeconfig e) = Ret config"
    and "be_Discovery e config = None" and "be_GroupResources e = None" and "be_Scale e config = None"
    and "sv_Get e [] ''default'' ''nginx'' = Inr s"
  shows "\<exists>line u. snd (run_state (scale_main e) []) = [SGet ''default'' ''nginx'' (Inr s), SPrint line, SUpdate ''default'' (s\<lparr>sc_Replicas := 2\<rparr>) u] @
      (case u of Inl err \<Rightarrow> [] | Inr s' \<Rightarrow> [SPrint (''Deployment '' @ sc_Name s' @ '' replicas updated to '' @ show_int (sint (sc_Replicas s')) @ ''.'')]) \<and>
    fst (run_state (scale_main e) []) = (case u of Inl err \<Rightarrow> Panic NilDereference | Inr s' \<Rightarrow> Ret ())"
  using assms by (auto simp: scale_main_def Let_def split: sum.split)

definition demo_scale :: "unit scale_env" where
  "demo_scale = \<lparr>cf_Getenv = (\<lambda>_. ''''), cf_HomeDir = ''/root'', cf_UserHomeDir = Inr ''/root'',
     cf_RecommendedHomeFile = ''/root/.kube/config'', cf_flag = (\<lambda>_. None), cf_BuildConfigFromFlags = (\<lambda>_ _. Inr ()),
     cf_InClusterConfig = Inr (), cf_Namespace = Inr ''default'', cf_ClientConfig = Inr (),
     be_Discovery = (\<lambda>_. None), be_Dynamic = (\<lambda>_. None), be_Clientset = (\<lambda>_. None), be_GroupResources = None, be_Scale = (\<lambda>_. None),
     be_REST = (\<lambda>_ _ _. None), sv_Get = (\<lambda>_ _ _. Inr \<lparr>sc_Name = ''nginx'', sc_ResourceVersion = ''1'', sc_Replicas = 1\<rparr>),
     sv_Update = (\<lambda>_ _ _. Inl (StatusError ReasonConflict ''the object has been modified''))\<rparr>"

theorem scale_update_error_lost_witness: "fst (run_state (scale_main demo_scale) []) = Panic NilDereference"
proof -
  let ?s = "\<lparr>sc_Name = ''nginx'', sc_ResourceVersion = ''1'', sc_Replicas = 1\<rparr>"
  have h: "load_config demo_scale (home_kubeconfig demo_scale) = Ret ()" "be_Discovery demo_scale () = None"
    "be_GroupResources demo_scale = None" "be_Scale demo_scale () = None" "sv_Get demo_scale [] ''default'' ''nginx'' = Inr ?s"
    by (simp_all add: demo_scale_def load_config_def)
  have "SUpdate ''default'' (?s\<lparr>sc_Replicas := 2\<rparr>) (Inl (StatusError ReasonConflict ''the object has been modified''))
      \<in> set (snd (run_state (scale_main demo_scale) []))"
    by (simp add: scale_main_def h Let_def) (simp add: demo_scale_def)
  then show ?thesis using scale_update_error_lost [OF h] by (auto split: sum.splits)
qed

end
