(* ===== verification/Dynamic_Programs.thy ===== *)
theory Dynamic_Programs
  imports Program_Logic Unstructured
begin

text \<open>
  The programs on the dynamic client under \<open>src/client-go/using-dynamic-interface/\<close>: the advanced example, which lists pods
  and creates, updates and deletes a ConfigMap, and the smaller ones that create a pod, list pods and change the status of a
  custom resource. An object is the map of its top-level fields, as the client returns it.

  The server is a parameter whose answers may depend on all calls so far. Messages of the advanced example, whose text is
  not ASCII, are constructors.
\<close>

section \<open>Definitions\<close>

subsection \<open>Calls\<close>

record GroupVersionResource =
  gvr_Group :: string
  gvr_Version :: string
  gvr_Resource :: string

type_synonym fields = "(string \<times> json) list"

datatype message =
    ListFailed go_error | NoPods | PodLine nat string
  | CreateFailed go_error | Created string "json option"
  | GetFailed go_error | Before "json option" | UpdateFailed go_error | Updated string "json option"
  | DeleteFailed go_error | Deleted
  | PodCreated string
  | Text string

datatype ycall =
    YList GroupVersionResource string "go_error + fields list"
  | YCreate GroupVersionResource string fields "go_error + fields"
  | YGet GroupVersionResource string string "go_error + fields"
  | YUpdate GroupVersionResource string fields "go_error + fields"
  | YDelete GroupVersionResource string string "go_error option"
  | YSay message

type_synonym 'a yprog = "(ycall list, 'a outcome) state"

record 'cfg dynclient_env = "'cfg config_env" +
  dc_NewForConfig :: "'cfg \<Rightarrow> go_error option"
  dc_List :: "ycall list \<Rightarrow> GroupVersionResource \<Rightarrow> string \<Rightarrow> go_error + fields list"
  dc_Create :: "ycall list \<Rightarrow> GroupVersionResource \<Rightarrow> string \<Rightarrow> fields \<Rightarrow> go_error + fields"
  dc_Get :: "ycall list \<Rightarrow> GroupVersionResource \<Rightarrow> string \<Rightarrow> string \<Rightarrow> go_error + fields"
  dc_Update :: "ycall list \<Rightarrow> GroupVersionResource \<Rightarrow> string \<Rightarrow> fields \<Rightarrow> go_error + fields"
  dc_Delete :: "ycall list \<Rightarrow> GroupVersionResource \<Rightarrow> string \<Rightarrow> string \<Rightarrow> go_error option"
  dc_nested :: nested_env

definition obj_name :: "'cfg dynclient_env \<Rightarrow> fields \<Rightarrow> string" where
  "obj_name e x = GetName (dc_nested e) (JObj x)"

definition y_say :: "message \<Rightarrow> unit yprog" where
  "y_say m = do { note_call (YSay m); return (Ret ()) }"

definition dyn_client :: "'cfg dynclient_env \<Rightarrow> 'cfg \<Rightarrow> unit outcome" where
  "dyn_client e config = (case dc_NewForConfig e config of Some err \<Rightarrow> Panic (PanicErr (Error err)) | None \<Rightarrow> Ret ())"

definition pods_gvr :: GroupVersionResource where
  "pods_gvr = \<lparr>gvr_Group = '''', gvr_Version = ''v1'', gvr_Resource = ''pods''\<rparr>"

definition configmaps_gvr :: GroupVersionResource where
  "configmaps_gvr = \<lparr>gvr_Group = '''', gvr_Version = ''v1'', gvr_Resource = ''configmaps''\<rparr>"

subsection \<open>The advanced example\<close>

fun number_pods :: "'cfg dynclient_env \<Rightarrow> nat \<Rightarrow> fields list \<Rightarrow> unit yprog" where
  "number_pods e i [] = return (Ret ())"
| "number_pods e i (item # items) = do { note_call (YSay (PodLine (i + 1) (obj_name e item))); number_pods e (i + 1) items }"

definition adv_listPods :: "'cfg dynclient_env \<Rightarrow> string \<Rightarrow> unit yprog" where
  "adv_listPods e namespace = do {
     l \<leftarrow> perform (\<lambda>h. dc_List e h pods_gvr namespace) (YList pods_gvr namespace);
     (case l of
        Inl err \<Rightarrow> y_say (ListFailed err)
      | Inr items \<Rightarrow> if length items = 0 then y_say NoPods else number_pods e 0 items)
   }"

definition adv_configmap :: fields where
  "adv_configmap =
    [(''apiVersion'', JStr ''v1''),
     (''kind'', JStr ''ConfigMap''),
     (''metadata'', JObj [(''name'', JStr ''example-config''), (''namespace'', JStr ''default'')]),
     (''data'', JObj [(''app.name'', JStr ''dynamic-client''), (''app.version'', JStr ''1.0.0'')])]"

definition adv_createConfigMap :: "'cfg dynclient_env \<Rightarrow> unit yprog" where
  "adv_createConfigMap e = do {
     r \<leftarrow> perform (\<lambda>h. dc_Create e h configmaps_gvr ''default'' adv_configmap) (YCreate configmaps_gvr ''default'' adv_configmap);
     (case r of
        Inl err \<Rightarrow> y_say (CreateFailed err)
      | Inr result \<Rightarrow> y_say (Created (obj_name e result) (map_of result ''data'')))
   }"

text \<open>The new version of the data; \<open>None\<close> stands for the failed type assertion.\<close>

definition bump_version :: "fields \<Rightarrow> fields option" where
  "bump_version obj =
     (case map_of obj ''data'' of
        Some (JObj d) \<Rightarrow> Some (AList.update ''data'' (JObj (AList.update ''app.version'' (JStr ''2.0.0'') d)) obj)
      | _ \<Rightarrow> None)"

definition adv_updateConfigMap :: "'cfg dynclient_env \<Rightarrow> unit yprog" where
  "adv_updateConfigMap e = do {
     g \<leftarrow> perform (\<lambda>h. dc_Get e h configmaps_gvr ''default'' ''example-config'') (YGet configmaps_gvr ''default'' ''example-config'');
     (case g of
        Inl err \<Rightarrow> y_say (GetFailed err)
      | Inr obj \<Rightarrow> do {
          note_call (YSay (Before (map_of obj ''data'')));
          (case bump_version obj of
             None \<Rightarrow> return (Panic TypeAssertion)
           | Some obj2 \<Rightarrow> do {
               u \<leftarrow> perform (\<lambda>h. dc_Update e h configmaps_gvr ''default'' obj2) (YUpdate configmaps_gvr ''default'' obj2);
               (case u of
                  Inl err \<Rightarrow> y_say (UpdateFailed err)
                | Inr result \<Rightarrow> y_say (Updated (obj_name e result) (map_of result ''data'')))
             })
        })
   }"

definition adv_deleteConfigMap :: "'cfg dynclient_env \<Rightarrow> unit yprog" where
  "adv_deleteConfigMap e = do {
     r \<leftarrow> perform (\<lambda>h. dc_Delete e h configmaps_gvr ''default'' ''example-config'') (YDelete configmaps_gvr ''default'' ''example-config'');
     (case r of Some err \<Rightarrow> y_say (DeleteFailed err) | None \<Rightarrow> y_say Deleted)
   }"

definition adv_main :: "'cfg dynclient_env \<Rightarrow> unit yprog" where
  "adv_main e =
     obind (of_outcome (load_config e (path_Join [cf_HomeDir e, ''.kube'', ''config'']))) (\<lambda>config.
     obind (of_outcome (dyn_client e config)) (\<lambda>_.
     obind (adv_listPods e ''default'') (\<lambda>_.
     obind (adv_createConfigMap e) (\<lambda>_.
     obind (adv_updateConfigMap e) (\<lambda>_.
     adv_deleteConfigMap e)))))"

subsection \<open>The smaller programs\<close>

definition example_pod :: fields where
  "example_pod =
    [(''apiVersion'', JStr ''v1''),
     (''kind'', JStr ''Pod''),
     (''metadata'', JObj [(''name'', JStr ''example-pod'')]),
     (''spec'', JObj [(''containers'', JList [JObj [(''name'', JStr ''nginx''), (''image'', JStr ''nginx:latest'')]])])]"

definition create_pod_main :: "'cfg dynclient_env \<Rightarrow> unit yprog" where
  "create_pod_main e =
     obind (of_outcome (load_config e (home_kubeconfig e))) (\<lambda>config.
     obind (of_outcome (dyn_client e config)) (\<lambda>_. do {
       r \<leftarrow> perform (\<lambda>h. dc_Create e h pods_gvr ''default'' example_pod) (YCreate pods_gvr ''default'' example_pod);
       (case r of
          Inl err \<Rightarrow> return (Panic (PanicErr (Error err)))
        | Inr result \<Rightarrow> y_say (PodCreated (obj_name e result)))
     }))"

fun print_names :: "'cfg dynclient_env \<Rightarrow> fields list \<Rightarrow> unit yprog" where
  "print_names e [] = return (Ret ())"
| "print_names e (el # els) = do { note_call (YSay (Text (obj_name e el))); print_names e els }"

text \<open>
  Listing pods: a NotFound error does not panic at once, but the list is then nil and its items are read.
\<close>

definition list_pods_main :: "'cfg dynclient_env \<Rightarrow> unit yprog" where
  "list_pods_main e =
     obind (of_outcome (load_config e (env_kubeconfig e))) (\<lambda>rc.
     obind (of_outcome (dyn_client e rc)) (\<lambda>_. do {
       l \<leftarrow> perform (\<lambda>h. dc_List e h pods_gvr (flag_String e ''namespace'' ''default''))
         (YList pods_gvr (flag_String e ''namespace'' ''default''));
       (case l of
          Inl err \<Rightarrow> if \<not> IsNotFound err then return (Panic (PanicErr (Error err))) else return (Panic NilDereference)
        | Inr items \<Rightarrow> print_names e items)
     }))"

definition pizzas_gvr :: GroupVersionResource where
  "pizzas_gvr = \<lparr>gvr_Group = ''bella.napoli.it'', gvr_Version = ''v1alpha1'', gvr_Resource = ''pizzas''\<rparr>"

text \<open>The status with the new price; a status that is not a map fails the type assertion.\<close>

definition set_price :: "fields \<Rightarrow> fields option" where
  "set_price res =
     (case (case map_of res ''status'' of None \<Rightarrow> JObj [] | Some st \<Rightarrow> st) of
        JObj st \<Rightarrow> Some (AList.update ''status'' (JObj (AList.update ''cost'' (JFloat (651 / 100)) st)) res)
      | _ \<Rightarrow> None)"

definition update_crd_main :: "'cfg dynclient_env \<Rightarrow> unit yprog" where
  "update_crd_main e =
     obind (of_outcome (context_config e)) (\<lambda>(namespace, cfg).
     obind (of_outcome (dyn_client e cfg)) (\<lambda>_. do {
       g \<leftarrow> perform (\<lambda>h. dc_Get e h pizzas_gvr namespace ''margherita'') (YGet pizzas_gvr namespace ''margherita'');
       (case g of
          Inl err \<Rightarrow> if IsNotFound err then return (Ret ()) else return (Panic (PanicErr (Error err)))
        | Inr res \<Rightarrow>
            (case set_price res of
               None \<Rightarrow> return (Panic TypeAssertion)
             | Some res2 \<Rightarrow> do {
                 u \<leftarrow> perform (\<lambda>h. dc_Update e h pizzas_gvr namespace res2) (YUpdate pizzas_gvr namespace res2);
                 (case u of Inl err \<Rightarrow> return (Panic (PanicErr (Error err))) | Inr _ \<Rightarrow> return (Ret ()))
               }))
     }))"

section \<open>Lemmas\<close>

lemma run_y_say [simp, exec_simps]: "run_state (y_say m) h = (Ret (), h @ [YSay m])"
  by (simp add: y_say_def)

lemma number_pods_run: "\<exists>ls. run_state (number_pods e i items) h = (Ret (), h @ map (\<lambda>(k, n). YSay (PodLine k n)) ls)"
proof (induction items arbitrary: i h)
  case Nil
  show ?case by (rule exI [of _ "[]"]) simp
next
  case (Cons x xs)
  obtain ls where "run_state (number_pods e (i + 1) xs) (h @ [YSay (PodLine (i + 1) (obj_name e x))]) =
      (Ret (), (h @ [YSay (PodLine (i + 1) (obj_name e x))]) @ map (\<lambda>(k, n). YSay (PodLine k n)) ls)" using Cons.IH by blast
  then show ?case by (intro exI [of _ "(i + 1, obj_name e x) # ls"]) simp
qed

lemma print_names_run: "run_state (print_names e els) h = (Ret (), h @ map (YSay \<circ> Text \<circ> obj_name e) els)"
  by (induction els arbitrary: h) simp_all

text \<open>Only messages.\<close>

definition says :: "ycall list \<Rightarrow> bool" where
  "says c \<longleftrightarrow> (\<forall>x\<in>set c. \<exists>m. x = YSay m)"

lemma listPods_run:
  "\<exists>l c. run_state (adv_listPods e ns) h = (Ret (), h @ YList pods_gvr ns l # c) \<and> says c"
proof (cases "dc_List e h pods_gvr ns")
  case (Inl err)
  then show ?thesis by (simp add: adv_listPods_def says_def)
next
  case (Inr items)
  then show ?thesis using number_pods_run [of e 0 items "h @ [YList pods_gvr ns (Inr items)]"]
    by (auto simp: adv_listPods_def says_def)
qed

lemma createConfigMap_run:
  "\<exists>r m. run_state (adv_createConfigMap e) h = (Ret (), h @ [YCreate configmaps_gvr ''default'' adv_configmap r, YSay m])"
  by (auto simp: adv_createConfigMap_def split: sum.split)

lemma deleteConfigMap_run:
  "\<exists>r m. run_state (adv_deleteConfigMap e) h = (Ret (), h @ [YDelete configmaps_gvr ''default'' ''example-config'' r, YSay m])"
  by (auto simp: adv_deleteConfigMap_def split: option.split)

text \<open>
  The update: the object could not be read, or its data is not a map and the program panics, or the read object is sent back
  with the new version.
\<close>

definition updated :: "ycall list \<Rightarrow> unit outcome \<Rightarrow> bool" where
  "updated c r \<longleftrightarrow>
     (\<exists>err. c = [YGet configmaps_gvr ''default'' ''example-config'' (Inl err), YSay (GetFailed err)] \<and> r = Ret ()) \<or>
     (\<exists>obj. c = [YGet configmaps_gvr ''default'' ''example-config'' (Inr obj), YSay (Before (map_of obj ''data''))] \<and>
        (\<nexists>d. map_of obj ''data'' = Some (JObj d)) \<and> r = Panic TypeAssertion) \<or>
     (\<exists>obj d u m. c = [YGet configmaps_gvr ''default'' ''example-config'' (Inr obj), YSay (Before (map_of obj ''data'')),
          YUpdate configmaps_gvr ''default'' (AList.update ''data'' (JObj (AList.update ''app.version'' (JStr ''2.0.0'') d)) obj) u, YSay m] \<and>
        map_of obj ''data'' = Some (JObj d) \<and> r = Ret ())"

lemma updateConfigMap_run: "\<exists>c. snd (run_state (adv_updateConfigMap e) h) = h @ c \<and> updated c (fst (run_state (adv_updateConfigMap e) h))"
proof (cases "dc_Get e h configmaps_gvr ''default'' ''example-config''")
  case (Inl err)
  then show ?thesis by (simp add: adv_updateConfigMap_def updated_def)
next
  case (Inr obj)
  show ?thesis
  proof (cases "bump_version obj")
    case None
    then show ?thesis using Inr
      by (auto simp: adv_updateConfigMap_def updated_def bump_version_def split: option.splits json.splits)
  next
    case (Some obj2)
    then obtain d where d: "map_of obj ''data'' = Some (JObj d)"
      "obj2 = AList.update ''data'' (JObj (AList.update ''app.version'' (JStr ''2.0.0'') d)) obj"
      by (auto simp: bump_version_def split: option.splits json.splits)
    show ?thesis using Inr Some d by (simp add: adv_updateConfigMap_def updated_def split: sum.split)
  qed
qed

lemma list_pods_not_found:
  assumes "load_config e (env_kubeconfig e) = Ret rc" and "dc_NewForConfig e rc = None"
    and "dc_List e [] pods_gvr (flag_String e ''namespace'' ''default'') = Inl err" and "IsNotFound err"
  shows "fst (run_state (list_pods_main e) []) = Panic NilDereference"
  using assms by (simp add: list_pods_main_def dyn_client_def)

text \<open>Both changes are the setting of one nested field.\<close>

lemma bump_version_set_at:
  "bump_version obj = Some obj2 \<Longrightarrow> set_at (JObj obj) (JStr ''2.0.0'') [''data'', ''app.version''] = Inr (JObj obj2)"
  by (auto simp: bump_version_def split: option.splits json.splits)

lemma set_price_set_at:
  "set_price res = Some res2 \<Longrightarrow> set_at (JObj res) (JFloat (651 / 100)) [''status'', ''cost''] = Inr (JObj res2)"
  by (auto simp: set_price_def split: option.splits json.splits)

lemma set_price_None: "set_price res = None \<longleftrightarrow> (\<exists>st. map_of res ''status'' = Some st \<and> \<not> is_obj st)"
  by (cases "map_of res ''status''") (auto simp: set_price_def split: json.splits)

lemma says_iff [simp]: "says [] \<longleftrightarrow> True" "says (x # c) \<longleftrightarrow> (\<exists>m. x = YSay m) \<and> says c"
  by (simp_all add: says_def)

lemma says_no_call:
  assumes "says c"
  shows "YUpdate g ns x u \<notin> set c" "YDelete g ns n d \<notin> set c" "YGet g ns n y \<notin> set c"
  using assms by (auto simp: says_def)

section \<open>Properties\<close>

text \<open>C19. The advanced example takes over any ConfigMap of the name it uses. Whatever its creation answered, also that the name
  is taken, the program reads \<open>example-config\<close>, sends it back with a new \<open>app.version\<close> and every other path as it was read,
  and deletes it. A run that returns has asked for the deletion; the only panic is the one on data that is no map, and that
  run deletes nothing.\<close>

theorem adv_main_takes_over:
  assumes "load_config e (path_Join [cf_HomeDir e, ''.kube'', ''config'']) = Ret config" and "dc_NewForConfig e config = None"
    and "run_state (adv_main e) [] = (r, h)"
  shows "(\<exists>l c1 x m c2 tail. h = [YList pods_gvr ''default'' l] @ c1 @ [YCreate configmaps_gvr ''default'' adv_configmap x, YSay m] @ c2 @ tail \<and>
      says c1 \<and> updated c2 r \<and>
      (case r of Panic p \<Rightarrow> tail = [] | Ret _ \<Rightarrow> \<exists>d m'. tail = [YDelete configmaps_gvr ''default'' ''example-config'' d, YSay m'])) \<and>
    (r = Ret () \<longleftrightarrow> (\<exists>d. YDelete configmaps_gvr ''default'' ''example-config'' d \<in> set h)) \<and>
    (\<forall>g ns obj2 u. YUpdate g ns obj2 u \<in> set h \<longrightarrow>
       (\<exists>obj. YGet configmaps_gvr ''default'' ''example-config'' (Inr obj) \<in> set h \<and>
          val_at [''data'', ''app.version''] (JObj obj2) = Some (JStr ''2.0.0'') \<and>
          (\<forall>q. apart [''data'', ''app.version''] q \<longrightarrow> val_at q (JObj obj2) = val_at q (JObj obj))))"
proof -
  obtain l c1 where 1: "run_state (adv_listPods e ''default'') [] = (Ret (), YList pods_gvr ''default'' l # c1)" "says c1"
    using listPods_run [of e "''default''" "[]"] by auto
  let ?h1 = "YList pods_gvr ''default'' l # c1"
  obtain x m where 2: "run_state (adv_createConfigMap e) ?h1 = (Ret (), ?h1 @ [YCreate configmaps_gvr ''default'' adv_configmap x, YSay m])"
    using createConfigMap_run by blast
  let ?h2 = "?h1 @ [YCreate configmaps_gvr ''default'' adv_configmap x, YSay m]"
  obtain c2 where 3: "snd (run_state (adv_updateConfigMap e) ?h2) = ?h2 @ c2" "updated c2 (fst (run_state (adv_updateConfigMap e) ?h2))"
    using updateConfigMap_run by blast
  obtain r2 where r2: "run_state (adv_updateConfigMap e) ?h2 = (r2, ?h2 @ c2)" using 3(1) by (metis prod.collapse)
  obtain d m' where 4: "run_state (adv_deleteConfigMap e) (?h2 @ c2) = (Ret (), (?h2 @ c2) @ [YDelete configmaps_gvr ''default'' ''example-config'' d, YSay m'])"
    using deleteConfigMap_run by blast
  let ?tail = "case r2 of Panic p \<Rightarrow> [] | Ret _ \<Rightarrow> [YDelete configmaps_gvr ''default'' ''example-config'' d, YSay m']"
  have run: "r = r2" "h = ?h2 @ c2 @ ?tail"
    using assms 1(1) 2 r2 4 by (auto simp: adv_main_def dyn_client_def split: outcome.splits)
  have up: "updated c2 r" using 3(2) r2 run(1) by simp
  have "(\<exists>d. YDelete configmaps_gvr ''default'' ''example-config'' d \<in> set h) \<longleftrightarrow> r = Ret ()"
    using up run says_no_call [OF 1(2)] by (auto simp: updated_def split: outcome.splits)
  moreover have "\<exists>obj. YGet configmaps_gvr ''default'' ''example-config'' (Inr obj) \<in> set h \<and>
          val_at [''data'', ''app.version''] (JObj obj2) = Some (JStr ''2.0.0'') \<and>
          (\<forall>q. apart [''data'', ''app.version''] q \<longrightarrow> val_at q (JObj obj2) = val_at q (JObj obj))"
    if "YUpdate g ns obj2 u \<in> set h" for g ns obj2 u
  proof -
    have "YUpdate g ns obj2 u \<in> set c2" using that run says_no_call [OF 1(2)] by (auto split: outcome.splits)
    then obtain obj where obj: "YGet configmaps_gvr ''default'' ''example-config'' (Inr obj) \<in> set c2" "bump_version obj = Some obj2"
      using up by (auto simp: updated_def bump_version_def)
    note s = bump_version_set_at [OF obj(2)]
    show ?thesis using obj(1) run(2) at_set_at [OF s] at_set_at_apart [OF s] by (intro exI [of _ obj]) auto
  qed
  ultimately show ?thesis using run up 1(2)
    by (intro conjI exI [of _ l] exI [of _ c1] exI [of _ x] exI [of _ m] exI [of _ c2] exI [of _ ?tail]) (auto split: outcome.splits)
qed

text \<open>The program that changes the price of a pizza returns without a write when the resource does not exist, panics on any
  other error and on a status that is no map, and otherwise sends back what it read with exactly the field \<open>cost\<close> of the
  status set, creating the status when there is none.\<close>

theorem update_crd_effect:
  assumes "context_config e = Ret (ns, cfg)" and "dc_NewForConfig e cfg = None"
  shows "case dc_Get e [] pizzas_gvr ns ''margherita'' of
      Inl err \<Rightarrow> snd (run_state (update_crd_main e) []) = [YGet pizzas_gvr ns ''margherita'' (Inl err)] \<and>
        fst (run_state (update_crd_main e) []) = (if IsNotFound err then Ret () else Panic (PanicErr (Error err)))
    | Inr res \<Rightarrow>
        if (\<exists>st. map_of res ''status'' = Some st \<and> \<not> is_obj st)
        then run_state (update_crd_main e) [] = (Panic TypeAssertion, [YGet pizzas_gvr ns ''margherita'' (Inr res)])
        else \<exists>res2 u. snd (run_state (update_crd_main e) []) =
               [YGet pizzas_gvr ns ''margherita'' (Inr res), YUpdate pizzas_gvr ns res2 u] \<and>
             fst (run_state (update_crd_main e) []) = (case u of Inl err \<Rightarrow> Panic (PanicErr (Error err)) | Inr _ \<Rightarrow> Ret ()) \<and>
             val_at [''status'', ''cost''] (JObj res2) = Some (JFloat (651 / 100)) \<and>
             (\<forall>q. apart [''status'', ''cost''] q \<longrightarrow> val_at q (JObj res2) = val_at q (JObj res))"
proof (cases "dc_Get e [] pizzas_gvr ns ''margherita''")
  case (Inl err)
  then show ?thesis using assms by (auto simp: update_crd_main_def dyn_client_def)
next
  case (Inr res)
  show ?thesis
  proof (cases "set_price res")
    case None
    then show ?thesis using Inr assms set_price_None [of res] by (auto simp: update_crd_main_def dyn_client_def)
  next
    case (Some res2)
    note s = set_price_set_at [OF Some]
    have "\<not> (\<exists>st. map_of res ''status'' = Some st \<and> \<not> is_obj st)" using Some set_price_None [of res] by simp
    then show ?thesis using Inr Some assms at_set_at [OF s] at_set_at_apart [OF s]
      by (auto simp: update_crd_main_def dyn_client_def split: sum.splits)
  qed
qed

subsection \<open>A server for the examples\<close>

text \<open>The name is taken by a ConfigMap of someone else; the pizza has no status.\<close>

definition taken_server :: "unit dynclient_env" where
  "taken_server = \<lparr>cf_Getenv = (\<lambda>_. ''''), cf_HomeDir = ''/root'', cf_UserHomeDir = Inr ''/root'',
     cf_RecommendedHomeFile = ''/root/.kube/config'', cf_flag = (\<lambda>_. None), cf_BuildConfigFromFlags = (\<lambda>_ _. Inr ()),
     cf_InClusterConfig = Inr (), cf_Namespace = Inr ''default'', cf_ClientConfig = Inr (),
     dc_NewForConfig = (\<lambda>_. None), dc_List = (\<lambda>_ _ _. Inr []),
     dc_Create = (\<lambda>_ _ _ _. Inl (StatusError ReasonAlreadyExists ''already exists'')),
     dc_Get = (\<lambda>_ g _ _. Inr (if g = pizzas_gvr then [(''spec'', JObj [])] else [(''data'', JObj [(''owner'', JStr ''someone else'')])])),
     dc_Update = (\<lambda>_ _ _ x. Inr x), dc_Delete = (\<lambda>_ _ _ _. None), dc_nested = std_nested\<rparr>"

theorem adv_main_takes_over_witness:
  "fst (run_state (adv_main taken_server) []) = Ret () \<and>
   (\<exists>d. YDelete configmaps_gvr ''default'' ''example-config'' d \<in> set (snd (run_state (adv_main taken_server) [])))"
proof -
  have c: "load_config taken_server (path_Join [cf_HomeDir taken_server, ''.kube'', ''config'']) = Ret ()" "dc_NewForConfig taken_server () = None"
    by (simp_all add: taken_server_def load_config_def)
  have "fst (run_state (adv_main taken_server) []) = Ret ()"
    by (simp add: adv_main_def c dyn_client_def)
      (simp add: taken_server_def adv_listPods_def adv_createConfigMap_def adv_updateConfigMap_def adv_deleteConfigMap_def
        bump_version_def configmaps_gvr_def pizzas_gvr_def)
  then show ?thesis using adv_main_takes_over [OF c prod.collapse [symmetric]] by blast
qed

theorem update_crd_effect_witness:
  "\<exists>res2 u. snd (run_state (update_crd_main taken_server) []) =
      [YGet pizzas_gvr ''default'' ''margherita'' (Inr [(''spec'', JObj [])]), YUpdate pizzas_gvr ''default'' res2 u] \<and>
    val_at [''status'', ''cost''] (JObj res2) = Some (JFloat (651 / 100))"
proof -
  have c: "context_config taken_server = Ret (''default'', ())" "dc_NewForConfig taken_server () = None"
    "dc_Get taken_server [] pizzas_gvr ''default'' ''margherita'' = Inr [(''spec'', JObj [])]"
    by (simp_all add: taken_server_def context_config_def)
  show ?thesis using update_crd_effect [OF c(1,2)] unfolding c(3) by auto
qed

end
