(* ===== verification/Workqueue_Controller.thy ===== *)
theory Workqueue_Controller
  imports Kube_Api
begin

text \<open>
  The two work-queue controllers: the three-worker ConfigMap controller of
  \<open>src/client-go/workqueue/main.go\<close> and the pod controller of
  \<open>src/client-go/examples-from-other-repo/client-go-official-examples/workqueue/main.go\<close>.

  The code a worker runs for one key is a program of queue calls (\<open>wq_prog\<close>): each constructor is one
  call, with the continuation applied to its reply. The same program is run alone (\<open>attempt\<close>) and
  interleaved with other workers (\<open>wq_step\<close>). The queue and the caches are libraries. Of the queue the
  step relation uses only what its documentation promises: a key handed to a worker is not handed out
  again before that worker calls \<open>Done\<close>, and \<open>NumRequeues\<close> is the number of \<open>AddRateLimited\<close> calls for the key since the
  last \<open>Forget\<close>. Which key a worker gets, and when, is left open, as are the replies of the caches.

  The locale \<open>retry_handler\<close> states what a handler owes the queue; both programs are interpretations of it.
\<close>

section \<open>Definitions\<close>

subsection \<open>Programs of queue calls\<close>

type_synonym key = string

text \<open>The reply of a cache lookup: an error, no object, or an object (of the expected type or not).\<close>

datatype lookup = LookErr go_error | Missing | Found bool

datatype wq_prog =
    PLookup key "lookup \<Rightarrow> wq_prog"
  | PNumRequeues key "nat \<Rightarrow> wq_prog"
  | PForget key wq_prog
  | PAddRateLimited key wq_prog
  | PDone key bool
  | PReturn bool
  | PBlock

text \<open>
  \<open>PDone k c\<close> is the deferred \<open>queue.Done\<close> at the end of a handler, \<open>c\<close> says that a panic goes on after it. \<open>PReturn c\<close> is an end
  without \<open>Done\<close>, and \<open>PBlock\<close> a call or a loop that never returns.
\<close>

subsection \<open>The ConfigMap controller\<close>

text \<open>
  The business logic of worker \<open>n\<close>: the lister gives the object or an error (a missing object is a
  NotFound error); worker 1 always fails.
\<close>

definition cm_sync :: "nat \<Rightarrow> lookup \<Rightarrow> go_error option" where
  "cm_sync n r = (case r of
       LookErr err \<Rightarrow> Some err
     | Missing \<Rightarrow> Some (StatusError ReasonNotFound ''not found'')
     | Found _ \<Rightarrow> if n = 1 then Some (PlainError (''worker '' @ show_nat n @ '' is a chronic failure'')) else None)"

definition cm_process :: "nat \<Rightarrow> key \<Rightarrow> wq_prog" where
  "cm_process n key =
     PLookup key (\<lambda>r.
       case cm_sync n r of
         None \<Rightarrow> PForget key (PDone key False)
       | Some err \<Rightarrow>
           PNumRequeues key (\<lambda>m.
             if 5 \<le> m then PForget key (PDone key False)
             else PAddRateLimited key (PDone key False)))"

subsection \<open>The pod controller\<close>

text \<open>\<open>syncToStdout\<close>: None stands for the panic of a failed type assertion.\<close>

definition syncToStdout :: "lookup \<Rightarrow> go_error option option" where
  "syncToStdout r = (case r of
       LookErr err \<Rightarrow> Some (Some err)
     | Missing \<Rightarrow> Some None
     | Found is_pod \<Rightarrow> if is_pod then Some None else None)"

definition handleErr :: "go_error option \<Rightarrow> key \<Rightarrow> wq_prog" where
  "handleErr err key = (case err of
       None \<Rightarrow> PForget key (PDone key False)
     | Some e \<Rightarrow>
         PNumRequeues key (\<lambda>m.
           if m < 5 then PAddRateLimited key (PDone key False)
           else PForget key (PDone key False)))"

definition processNextItem :: "nat \<Rightarrow> key \<Rightarrow> wq_prog" where
  "processNextItem n key =
     PLookup key (\<lambda>r.
       case syncToStdout r of
         None \<Rightarrow> PDone key True
       | Some err \<Rightarrow> handleErr err key)"

text \<open>A worker processes the keys that \<open>queue.Get\<close> gives it until the queue was shut down, which is the reply \<open>None\<close>.\<close>

fun runWorker :: "nat \<Rightarrow> key option list \<Rightarrow> wq_prog list" where
  "runWorker n [] = []"
| "runWorker n (None # replies) = []"
| "runWorker n (Some key # replies) = processNextItem n key # runWorker n replies"

subsection \<open>Event handlers\<close>

text \<open>
  Both programs register the same three handlers. The key functions belong to the client library: they give
  the key of an object, or fail. The result is the key passed to \<open>queue.Add\<close>.
\<close>

record 'o key_env =
  MetaNamespaceKeyFunc :: "'o \<Rightarrow> key option"
  DeletionHandlingMetaNamespaceKeyFunc :: "'o \<Rightarrow> key option"

datatype 'o event = AddEvent 'o | UpdateEvent 'o 'o | DeleteEvent 'o

fun on_event :: "'o key_env \<Rightarrow> 'o event \<Rightarrow> key option" where
  "on_event e (AddEvent obj) = MetaNamespaceKeyFunc e obj"
| "on_event e (UpdateEvent old new) = MetaNamespaceKeyFunc e new"
| "on_event e (DeleteEvent obj) = DeletionHandlingMetaNamespaceKeyFunc e obj"

text \<open>The handlers of the pod controller.\<close>

fun pc_on_event :: "'o key_env \<Rightarrow> 'o event \<Rightarrow> key option" where
  "pc_on_event e (AddEvent obj) = MetaNamespaceKeyFunc e obj"
| "pc_on_event e (UpdateEvent old new) = MetaNamespaceKeyFunc e new"
| "pc_on_event e (DeleteEvent obj) = DeletionHandlingMetaNamespaceKeyFunc e obj"

subsection \<open>Running one program alone\<close>

text \<open>
  \<open>run_prog p r m\<close> runs \<open>p\<close> with cache reply \<open>r\<close> and requeue count \<open>m\<close>: the new count, whether the key
  was put back, and whether the program ended in a panic; \<open>None\<close> when it does not return.
\<close>

primrec run_prog :: "wq_prog \<Rightarrow> lookup \<Rightarrow> nat \<Rightarrow> (nat \<times> bool \<times> bool) option" where
  "run_prog (PLookup k c) r m = run_prog (c r) r m"
| "run_prog (PNumRequeues k c) r m = run_prog (c m) r m"
| "run_prog (PForget k p) r m = run_prog p r 0"
| "run_prog (PAddRateLimited k p) r m = map_option (\<lambda>(m', q, c). (m', True, c)) (run_prog p r (m + 1))"
| "run_prog (PDone k c) r m = Some (m, False, c)"
| "run_prog (PReturn c) r m = Some (m, False, c)"
| "run_prog PBlock r m = None"

text \<open>The requeue counts after successive attempts with the given replies, and whether each was put back.\<close>

fun attempts :: "(nat \<Rightarrow> key \<Rightarrow> wq_prog) \<Rightarrow> nat \<Rightarrow> key \<Rightarrow> lookup list \<Rightarrow> nat \<Rightarrow> nat \<times> bool list" where
  "attempts body n k [] m = (m, [])"
| "attempts body n k (r # rs) m =
     (case run_prog (body n k) r m of
        None \<Rightarrow> (m, [])
      | Some (m', q, c) \<Rightarrow> (case attempts body n k rs m' of (m'', qs) \<Rightarrow> (m'', q # qs)))"

text \<open>\<open>failing body n k r\<close>: with the reply \<open>r\<close> worker \<open>n\<close> fails on key \<open>k\<close>.\<close>

definition failing :: "(nat \<Rightarrow> key \<Rightarrow> wq_prog) \<Rightarrow> nat \<Rightarrow> key \<Rightarrow> lookup \<Rightarrow> bool" where
  "failing body n k r \<longleftrightarrow> (\<forall>m. run_prog (body n k) r m = Some (if 5 \<le> m then (0, False, False) else (m + 1, True, False)))"

subsection \<open>Interleaved workers\<close>

record wq_state =
  workers :: "nat \<Rightarrow> wq_prog option"
  processing :: "key set"
  requeues :: "key \<Rightarrow> nat"
  crashed :: bool

definition wq_init :: wq_state where
  "wq_init = \<lparr>workers = (\<lambda>_. None), processing = {}, requeues = (\<lambda>_. 0), crashed = False\<rparr>"

text \<open>One call of one worker. An idle worker gets some key that no worker is processing.\<close>

inductive wq_step :: "(nat \<Rightarrow> key \<Rightarrow> wq_prog) \<Rightarrow> wq_state \<Rightarrow> wq_state \<Rightarrow> bool" for body where
  get: "\<lbrakk>\<not> crashed s; workers s w = None; k \<notin> processing s\<rbrakk> \<Longrightarrow>
     wq_step body s (s\<lparr>workers := (workers s)(w := Some (body w k)), processing := insert k (processing s)\<rparr>)"
| lookup: "\<lbrakk>\<not> crashed s; workers s w = Some (PLookup k c)\<rbrakk> \<Longrightarrow>
     wq_step body s (s\<lparr>workers := (workers s)(w := Some (c r))\<rparr>)"
| num_requeues: "\<lbrakk>\<not> crashed s; workers s w = Some (PNumRequeues k c)\<rbrakk> \<Longrightarrow>
     wq_step body s (s\<lparr>workers := (workers s)(w := Some (c (requeues s k)))\<rparr>)"
| forget: "\<lbrakk>\<not> crashed s; workers s w = Some (PForget k p)\<rbrakk> \<Longrightarrow>
     wq_step body s (s\<lparr>workers := (workers s)(w := Some p), requeues := (requeues s)(k := 0)\<rparr>)"
| add_rate_limited: "\<lbrakk>\<not> crashed s; workers s w = Some (PAddRateLimited k p)\<rbrakk> \<Longrightarrow>
     wq_step body s (s\<lparr>workers := (workers s)(w := Some p), requeues := (requeues s)(k := requeues s k + 1)\<rparr>)"
| finish: "\<lbrakk>\<not> crashed s; workers s w = Some (PDone k c)\<rbrakk> \<Longrightarrow>
     wq_step body s (s\<lparr>workers := (workers s)(w := None), processing := processing s - {k}, crashed := c\<rparr>)"
| return: "\<lbrakk>\<not> crashed s; workers s w = Some (PReturn c)\<rbrakk> \<Longrightarrow>
     wq_step body s (s\<lparr>workers := (workers s)(w := None), crashed := c\<rparr>)"

inductive wq_reach :: "(nat \<Rightarrow> key \<Rightarrow> wq_prog) \<Rightarrow> wq_state \<Rightarrow> bool" for body where
  init: "wq_reach body wq_init"
| step: "\<lbrakk>wq_reach body s; wq_step body s s'\<rbrakk> \<Longrightarrow> wq_reach body s'"

inductive_cases wq_stepE: "wq_step body s s'"

subsection \<open>What a handler owes the queue\<close>

text \<open>
  \<open>retry_ok k m p\<close>: the rest \<open>p\<close> of a program on key \<open>k\<close> with requeue count \<open>m\<close> makes calls for \<open>k\<close> only, ends with
  \<open>Done\<close>, and puts the key back only while the count is below five.
\<close>

primrec retry_ok :: "key \<Rightarrow> nat \<Rightarrow> wq_prog \<Rightarrow> bool" where
  "retry_ok k m (PLookup k' c) \<longleftrightarrow> k' = k \<and> (\<forall>r. retry_ok k m (c r))"
| "retry_ok k m (PNumRequeues k' c) \<longleftrightarrow> k' = k \<and> retry_ok k m (c m)"
| "retry_ok k m (PForget k' p) \<longleftrightarrow> k' = k \<and> retry_ok k 0 p"
| "retry_ok k m (PAddRateLimited k' p) \<longleftrightarrow> k' = k \<and> m < 5 \<and> retry_ok k (m + 1) p"
| "retry_ok k m (PDone k' c) \<longleftrightarrow> k' = k"
| "retry_ok k m (PReturn c) \<longleftrightarrow> False"
| "retry_ok k m PBlock \<longleftrightarrow> False"

text \<open>\<open>within n p\<close>: the program returns after at most \<open>n\<close> calls.\<close>

primrec within :: "nat \<Rightarrow> wq_prog \<Rightarrow> bool" where
  "within n (PLookup k c) \<longleftrightarrow> 0 < n \<and> (\<forall>r. within (n - 1) (c r))"
| "within n (PNumRequeues k c) \<longleftrightarrow> 0 < n \<and> (\<forall>m. within (n - 1) (c m))"
| "within n (PForget k p) \<longleftrightarrow> 0 < n \<and> within (n - 1) p"
| "within n (PAddRateLimited k p) \<longleftrightarrow> 0 < n \<and> within (n - 1) p"
| "within n (PDone k c) \<longleftrightarrow> 0 < n"
| "within n (PReturn c) \<longleftrightarrow> 0 < n"
| "within n PBlock \<longleftrightarrow> False"

text \<open>The invariant: a worker's program is for a key no other worker holds, and every count is at most five.\<close>

definition holds :: "(nat \<Rightarrow> key option) \<Rightarrow> wq_state \<Rightarrow> bool" where
  "holds held s \<longleftrightarrow>
     (\<forall>w p. workers s w = Some p \<longrightarrow> (\<exists>k. held w = Some k \<and> retry_ok k (requeues s k) p)) \<and>
     (\<forall>w. workers s w = None \<longrightarrow> held w = None) \<and>
     (\<forall>w v k. held w = Some k \<and> held v = Some k \<longrightarrow> w = v) \<and>
     processing s = {k. \<exists>w. held w = Some k}"

definition wq_inv :: "wq_state \<Rightarrow> bool" where
  "wq_inv s \<longleftrightarrow> (\<exists>held. holds held s) \<and> (\<forall>k. requeues s k \<le> 5)"

locale retry_handler =
  fixes body :: "nat \<Rightarrow> key \<Rightarrow> wq_prog"
  assumes body_ok: "m \<le> 5 \<Longrightarrow> retry_ok k m (body w k)"
begin

lemma inv_init: "wq_inv wq_init"
  unfolding wq_inv_def wq_init_def holds_def by (auto intro!: exI [of _ "\<lambda>_. None"])

lemma inv_get:
  assumes "wq_inv s" "workers s w = None" "k \<notin> processing s"
  shows "wq_inv (s\<lparr>workers := (workers s)(w := Some (body w k)), processing := insert k (processing s)\<rparr>)"
proof -
  obtain held where h: "holds held s" "\<forall>k. requeues s k \<le> 5" using assms(1) by (auto simp: wq_inv_def)
  then have "holds (held(w := Some k)) (s\<lparr>workers := (workers s)(w := Some (body w k)), processing := insert k (processing s)\<rparr>)"
    using assms(2,3) body_ok [of "requeues s k" k w] unfolding holds_def by (auto, metis option.distinct(1))
  with h(2) show ?thesis by (auto simp: wq_inv_def)
qed

end

text \<open>A handler that also answers within a fixed number of calls.\<close>

locale prompt_handler = retry_handler body for body :: "nat \<Rightarrow> key \<Rightarrow> wq_prog" +
  fixes calls :: nat
  assumes body_within: "within calls (body w k)"

section \<open>Lemmas\<close>

lemma relpowp_within:
  assumes "R s s1" "(R ^^ m) s1 s'" "m \<le> n - 1" "0 < n" "Q s'"
  shows "\<exists>s' m. (R ^^ m) s s' \<and> m \<le> n \<and> Q s'"
  using relpowp_Suc_I2 [of R s s1 m s'] assms by (intro exI [of _ s'] exI [of _ "Suc m"]) auto

text \<open>A worker that replaces its program, possibly with a new count for the key it holds.\<close>

lemma inv_advance:
  assumes "wq_inv s" "workers s w = Some p"
    and adv: "\<And>k. retry_ok k (requeues s k) p \<Longrightarrow>
      k' = k \<and> m' \<le> 5 \<and> retry_ok k m' p'"
  shows "wq_inv (s\<lparr>workers := (workers s)(w := Some p'), requeues := (requeues s)(k' := m')\<rparr>)"
proof -
  obtain held where h: "holds held s" "\<forall>k. requeues s k \<le> 5" using assms(1) by (auto simp: wq_inv_def)
  with assms(2) obtain k where k: "held w = Some k" "retry_ok k (requeues s k) p"
    unfolding holds_def by blast
  have n: "k' = k" "m' \<le> 5" "retry_ok k m' p'" using adv [OF k(2)] by auto
  have "holds held (s\<lparr>workers := (workers s)(w := Some p'), requeues := (requeues s)(k' := m')\<rparr>)"
    using h(1) k n assms(2) unfolding holds_def by (auto split: if_splits) (metis option.inject)
  with h(2) n show ?thesis by (auto simp: wq_inv_def)
qed

lemma inv_finish:
  assumes "wq_inv s" "workers s w = Some (PDone k c)"
  shows "wq_inv (s\<lparr>workers := (workers s)(w := None), processing := processing s - {k}, crashed := c\<rparr>)"
proof -
  obtain held where h: "holds held s" "\<forall>k. requeues s k \<le> 5" using assms(1) by (auto simp: wq_inv_def)
  then have k: "held w = Some k" using assms(2) unfolding holds_def by fastforce
  have inj: "\<And>v j. held v = Some j \<Longrightarrow> held w = Some j \<Longrightarrow> v = w" using h(1) unfolding holds_def by blast
  have "holds (held(w := None)) (s\<lparr>workers := (workers s)(w := None), processing := processing s - {k}, crashed := c\<rparr>)"
    using h(1) k inj unfolding holds_def by (auto, metis option.inject)
  with h(2) show ?thesis by (auto simp: wq_inv_def)
qed

context retry_handler
begin

lemma inv_step: "wq_step body s s' \<Longrightarrow> wq_inv s \<Longrightarrow> wq_inv s'"
proof (induction rule: wq_step.induct)
  case (get s w k)
  then show ?case using inv_get by blast
next
  case (lookup s w k c r)
  have "wq_inv (s\<lparr>workers := (workers s)(w := Some (c r)), requeues := (requeues s)(k := requeues s k)\<rparr>)"
    using lookup by (intro inv_advance) (auto simp: wq_inv_def)
  then show ?case by simp
next
  case (num_requeues s w k c)
  have "wq_inv (s\<lparr>workers := (workers s)(w := Some (c (requeues s k))), requeues := (requeues s)(k := requeues s k)\<rparr>)"
    using num_requeues by (intro inv_advance) (auto simp: wq_inv_def)
  then show ?case by simp
next
  case (forget s w k p)
  then show ?case by (intro inv_advance) auto
next
  case (add_rate_limited s w k p)
  then show ?case by (intro inv_advance) auto
next
  case (finish s w k c)
  then show ?case by (intro inv_finish)
next
  case (return s w c)
  then obtain k where "retry_ok k (requeues s k) (PReturn c)" unfolding wq_inv_def holds_def by metis
  then show ?case by simp
qed

lemma reach_inv: "wq_reach body s \<Longrightarrow> wq_inv s"
  by (induction rule: wq_reach.induct) (auto intro: inv_init inv_step)

text \<open>Consequences for every reachable state.\<close>

lemma requeues_bounded: "wq_reach body s \<Longrightarrow> requeues s k \<le> 5"
  using reach_inv by (auto simp: wq_inv_def)

lemma exclusive:
  assumes "wq_reach body s"
  shows "\<exists>held. inj_on held {w. workers s w \<noteq> None} \<and> processing s = held ` {w. workers s w \<noteq> None} \<and>
    (\<forall>w p. workers s w = Some p \<longrightarrow> retry_ok (held w) (requeues s (held w)) p)"
proof -
  obtain held where h: "holds held s" using reach_inv [OF assms] by (auto simp: wq_inv_def)
  have some: "workers s w \<noteq> None \<longleftrightarrow> held w \<noteq> None" for w
    using h unfolding holds_def by (cases "workers s w") fastforce+
  show ?thesis
  proof (intro exI [of _ "\<lambda>w. the (held w)"] conjI)
    show "inj_on (\<lambda>w. the (held w)) {w. workers s w \<noteq> None}"
      using h unfolding some inj_on_def holds_def by auto
    show "processing s = (\<lambda>w. the (held w)) ` {w. workers s w \<noteq> None}"
      using h unfolding some holds_def by (auto simp: image_iff) (metis option.sel)
    show "\<forall>w p. workers s w = Some p \<longrightarrow> retry_ok (the (held w)) (requeues s (the (held w))) p"
      using h unfolding holds_def by fastforce
  qed
qed

end

lemma within_mono: "within n p \<Longrightarrow> n \<le> n' \<Longrightarrow> within n' p"
proof (induction p arbitrary: n n')
  case (PLookup k c)
  have "within (n' - 1) (c r)" for r
    by (rule PLookup.IH [of "c r" "n - 1"]) (use PLookup.prems in auto)
  with PLookup.prems show ?case by auto
next
  case (PNumRequeues k c)
  have "within (n' - 1) (c m)" for m
    by (rule PNumRequeues.IH [of "c m" "n - 1"]) (use PNumRequeues.prems in auto)
  with PNumRequeues.prems show ?case by auto
next
  case (PForget k p)
  have "within (n' - 1) p" by (rule PForget.IH [of "n - 1"]) (use PForget.prems in auto)
  with PForget.prems show ?case by auto
next
  case (PAddRateLimited k p)
  have "within (n' - 1) p" by (rule PAddRateLimited.IH [of "n - 1"]) (use PAddRateLimited.prems in auto)
  with PAddRateLimited.prems show ?case by auto
qed auto

lemma within_pred: "within (n - 1) p \<Longrightarrow> within n p"
  by (rule within_mono) auto

text \<open>
  A worker that holds the key \<open>k\<close> can always go on by itself, whatever \<open>r\<close> the caches answer, and hand the key back; what it does
  to the state is what its program does when it is run alone.
\<close>

definition handed_back :: "wq_state \<Rightarrow> nat \<Rightarrow> key \<Rightarrow> (nat \<times> bool \<times> bool) option \<Rightarrow> wq_state \<Rightarrow> bool" where
  "handed_back s w k out s' \<longleftrightarrow> (\<exists>m q c. out = Some (m, q, c) \<and> m \<le> 5 \<and>
     s' = s\<lparr>workers := (workers s)(w := None), processing := processing s - {k}, requeues := (requeues s)(k := m), crashed := c\<rparr>)"

lemma handed_back_step:
  assumes "wq_step body s t" "t = s\<lparr>workers := (workers s)(w := q), requeues := (requeues s)(k := j)\<rparr>"
    and "\<exists>s' m. (wq_step body ^^ m) t s' \<and> m \<le> n - 1 \<and> handed_back t w k out s'" and "0 < n"
  shows "\<exists>s' m. (wq_step body ^^ m) s s' \<and> m \<le> n \<and> handed_back s w k out s'"
proof -
  from assms(3) obtain s' m where s': "(wq_step body ^^ m) t s'" "m \<le> n - 1" "handed_back t w k out s'" by blast
  then have "handed_back s w k out s'" by (auto simp: handed_back_def assms(2))
  then show ?thesis using relpowp_within [of "wq_step body" s t m s' n "handed_back s w k out"] assms(1,4) s'(1,2) by blast
qed

lemma handed_back_puts: "handed_back s w k out s' \<Longrightarrow> handed_back s w k (map_option (\<lambda>(m, q, c). (m, True, c)) out) s'"
  by (auto simp: handed_back_def)

lemma worker_finishes:
  assumes "workers s w = Some p" "\<not> crashed s" "within n p" "retry_ok k (requeues s k) p" "requeues s k \<le> 5"
  shows "\<exists>s' m. (wq_step body ^^ m) s s' \<and> m \<le> n \<and> handed_back s w k (run_prog p r (requeues s k)) s'"
  using assms
proof (induction p arbitrary: s n)
  case (PLookup k' c)
  let ?s = "s\<lparr>workers := (workers s)(w := Some (c r)), requeues := (requeues s)(k := requeues s k)\<rparr>"
  have "wq_step body s ?s" using PLookup.prems wq_step.lookup [of s w k' c body r] by simp
  then show ?case by (rule handed_back_step [OF _ refl]) (use PLookup.IH [of "c r" ?s "n - 1"] PLookup.prems in simp_all)
next
  case (PNumRequeues k' c)
  let ?s = "s\<lparr>workers := (workers s)(w := Some (c (requeues s k))), requeues := (requeues s)(k := requeues s k)\<rparr>"
  have "wq_step body s ?s" using PNumRequeues.prems wq_step.num_requeues [of s w k' c body] by simp
  then show ?case
    by (rule handed_back_step [OF _ refl]) (use PNumRequeues.IH [of "c (requeues s k)" ?s "n - 1"] PNumRequeues.prems in simp_all)
next
  case (PForget k' p)
  let ?s = "s\<lparr>workers := (workers s)(w := Some p), requeues := (requeues s)(k := 0)\<rparr>"
  have "wq_step body s ?s" using PForget.prems by (simp add: wq_step.forget)
  then show ?case by (rule handed_back_step [OF _ refl]) (use PForget.IH [of ?s "n - 1"] PForget.prems in simp_all)
next
  case (PAddRateLimited k' p)
  let ?s = "s\<lparr>workers := (workers s)(w := Some p), requeues := (requeues s)(k := requeues s k + 1)\<rparr>"
  have step: "wq_step body s ?s" using PAddRateLimited.prems by (metis retry_ok.simps(4) wq_step.add_rate_limited)
  have "\<exists>s' m. (wq_step body ^^ m) ?s s' \<and> m \<le> n - 1 \<and> handed_back ?s w k (run_prog (PAddRateLimited k' p) r (requeues s k)) s'"
    using PAddRateLimited.IH [of ?s "n - 1"] PAddRateLimited.prems handed_back_puts by (simp, blast)
  then show ?case by (rule handed_back_step [OF step refl]) (use PAddRateLimited.prems in simp)
next
  case (PDone k' c)
  let ?s = "s\<lparr>workers := (workers s)(w := None), processing := processing s - {k'}, crashed := c\<rparr>"
  have "wq_step body s ?s" using PDone.prems by (intro wq_step.finish)
  then have "(wq_step body ^^ 1) s ?s" by (simp only: relpowp_1)
  moreover have "handed_back s w k (run_prog (PDone k' c) r (requeues s k)) ?s" using PDone.prems unfolding handed_back_def
    by (intro exI [of _ "requeues s k"] exI [of _ False] exI [of _ c]) simp
  ultimately show ?case using PDone.prems by (intro exI [of _ ?s] exI [of _ 1]) auto
qed auto

context prompt_handler
begin

lemma reach_within: "wq_reach body s \<Longrightarrow> workers s w = Some p \<Longrightarrow> within calls p"
proof (induction arbitrary: w p rule: wq_reach.induct)
  case init
  then show ?case by (simp add: wq_init_def)
next
  case (step s s')
  have old: "\<And>v q. workers s v = Some q \<Longrightarrow> within calls q" using step.IH .
  from step.hyps(2) show ?case
    by cases (use step.prems old body_within in \<open>auto split: if_splits dest!: old intro: within_pred\<close>)
qed

lemma finishes:
  assumes "wq_reach body s" "workers s w = Some p" "\<not> crashed s"
  shows "\<exists>k \<in> processing s. \<forall>r. \<exists>s' m. (wq_step body ^^ m) s s' \<and> m \<le> calls \<and> handed_back s w k (run_prog p r (requeues s k)) s'"
proof -
  obtain held where h: "holds held s" using reach_inv [OF assms(1)] by (auto simp: wq_inv_def)
  then obtain k where k: "held w = Some k" "retry_ok k (requeues s k) p" using assms(2) unfolding holds_def by blast
  then have "k \<in> processing s" using h by (auto simp: holds_def)
  then show ?thesis
    using worker_finishes [OF assms(2,3) reach_within [OF assms(1,2)] k(2) requeues_bounded [OF assms(1)]] by blast
qed

end

subsection \<open>Both controllers keep the contract\<close>

lemma cm_process_ok: "retry_ok k m (cm_process w k)" if "m \<le> 5"
  using that by (auto simp: cm_process_def split: option.splits)

lemma processNextItem_ok: "retry_ok k m (processNextItem w k)" if "m \<le> 5"
  using that by (auto simp: processNextItem_def handleErr_def split: option.splits)

interpretation cmq: prompt_handler cm_process 4
  by unfold_locales (auto simp: cm_process_ok, simp add: cm_process_def split: option.splits)

interpretation podq: prompt_handler processNextItem 4
  by unfold_locales (auto simp: processNextItem_ok, simp add: processNextItem_def handleErr_def split: option.splits)

text \<open>No program of the ConfigMap controller ends in a panic.\<close>

primrec panic_free :: "wq_prog \<Rightarrow> bool" where
  "panic_free (PLookup k c) \<longleftrightarrow> (\<forall>r. panic_free (c r))"
| "panic_free (PNumRequeues k c) \<longleftrightarrow> (\<forall>m. panic_free (c m))"
| "panic_free (PForget k p) \<longleftrightarrow> panic_free p"
| "panic_free (PAddRateLimited k p) \<longleftrightarrow> panic_free p"
| "panic_free (PDone k c) \<longleftrightarrow> \<not> c"
| "panic_free (PReturn c) \<longleftrightarrow> \<not> c"
| "panic_free PBlock \<longleftrightarrow> True"

lemma panic_free_run: "panic_free p \<Longrightarrow> run_prog p r m = Some (m', q, c) \<Longrightarrow> \<not> c"
proof (induction p arbitrary: m m' q c)
  case (PLookup k f)
  then show ?case by (metis panic_free.simps(1) rangeI run_prog.simps(1))
next
  case (PNumRequeues k f)
  then show ?case by (metis panic_free.simps(2) rangeI run_prog.simps(2))
qed auto

lemma cm_calm:
  assumes "wq_reach cm_process s" "workers s w = Some p" "run_prog p r m = Some (m', q, c)"
  shows "c = False"
proof -
  have "panic_free p" using assms(1,2)
  proof (induction arbitrary: w p rule: wq_reach.induct)
    case (step s s')
    have old: "\<And>v q. workers s v = Some q \<Longrightarrow> panic_free q" using step.IH .
    have body: "panic_free (cm_process w k)" for k by (simp add: cm_process_def split: option.split)
    from step.hyps(2) show ?case
      by cases (use step.prems body in \<open>auto split: if_splits dest!: old\<close>)
  qed (simp add: wq_init_def)
  from panic_free_run [OF this assms(3)] show ?thesis by simp
qed

lemma cm_run:
  "run_prog (cm_process n k) r m =
     Some (case cm_sync n r of None \<Rightarrow> (0, False, False)
      | Some _ \<Rightarrow> if 5 \<le> m then (0, False, False) else (m + 1, True, False))"
  by (simp add: cm_process_def split: option.splits)

lemma pod_run:
  "run_prog (processNextItem n k) r m =
     Some (case syncToStdout r of None \<Rightarrow> (m, False, True)
      | Some None \<Rightarrow> (0, False, False)
      | Some (Some _) \<Rightarrow> if 5 \<le> m then (0, False, False) else (m + 1, True, False))"
  by (auto simp: processNextItem_def handleErr_def split: option.splits)

lemma attempts_failing:
  assumes "list_all (failing body n k) rs" and "m \<le> 5"
  shows "attempts body n k rs m =
    ((m + length rs) mod 6, map (\<lambda>i. (m + i) mod 6 \<noteq> 5) [0..<length rs])"
  using assms
proof (induction rs arbitrary: m)
  case (Cons r rs)
  let ?m = "if 5 \<le> m then 0 else m + 1"
  have eq: "(m + i + 1) mod 6 = (?m + i) mod 6" for i
    using Cons.prems(2) by (cases "m = 5") auto
  have step: "run_prog (body n k) r m = Some (?m, m \<noteq> 5, False)"
    using Cons.prems by (auto simp: failing_def)
  have IH: "attempts body n k rs ?m = ((?m + length rs) mod 6, map (\<lambda>i. (?m + i) mod 6 \<noteq> 5) [0..<length rs])"
    using Cons.prems by (intro Cons.IH) auto
  have "[0..<length (r # rs)] = 0 # map Suc [0..<length rs]" by (simp add: upt_conv_Cons map_Suc_upt del: upt_Suc)
  moreover have "(m + 0) mod 6 \<noteq> 5 \<longleftrightarrow> m \<noteq> 5" using Cons.prems(2) by presburger
  ultimately show ?case using step IH eq [of "length rs"] eq by (simp add: o_def)
qed simp

section \<open>Properties\<close>

text \<open>C25. In every interleaving of any number of workers of either controller, no key is ever put back more than five
  times in a row, although the count is read and the key put back in two separate calls: two workers never hold the
  same key, and the keys marked as being processed are exactly the keys the workers hold.\<close>

theorem wq_retries_bounded:
  assumes "body = cm_process \<or> body = processNextItem" and "wq_reach body s"
  shows "requeues s k \<le> 5 \<and>
    (\<exists>held. inj_on held {w. workers s w \<noteq> None} \<and> processing s = held ` {w. workers s w \<noteq> None} \<and>
      (\<forall>w p. workers s w = Some p \<longrightarrow> retry_ok (held w) (requeues s (held w)) p))"
  using assms(1)
proof
  assume "body = cm_process"
  then show ?thesis using cmq.requeues_bounded cmq.exclusive assms(2) by simp
next
  assume "body = processNextItem"
  then show ?thesis using podq.requeues_bounded podq.exclusive assms(2) by simp
qed

theorem wq_retries_bounded_witness:
  "\<exists>s. wq_reach cm_process s \<and> workers s 1 \<noteq> None \<and> workers s 2 \<noteq> None \<and> requeues s ''a'' \<le> 5"
proof -
  have "wq_reach cm_process (wq_init\<lparr>workers := (workers wq_init)(1 := Some (cm_process 1 ''a'')),
      processing := insert ''a'' (processing wq_init)\<rparr>)" (is "wq_reach _ ?s")
    by (rule wq_reach.step [OF wq_reach.init]) (rule wq_step.get, simp_all add: wq_init_def)
  then have reach: "wq_reach cm_process (?s\<lparr>workers := (workers ?s)(2 := Some (cm_process 2 ''b'')),
      processing := insert ''b'' (processing ?s)\<rparr>)" (is "wq_reach _ ?t")
    by (rule wq_reach.step) (rule wq_step.get, simp_all add: wq_init_def)
  moreover have "requeues ?t ''a'' \<le> 5" using wq_retries_bounded [OF _ reach] by blast
  ultimately show ?thesis by (intro exI [of _ ?t]) simp
qed

text \<open>C26. A worker of either controller gives its key back. In every reachable state, whatever the cache answers, a worker that is
  busy with a key can end by at most four calls of its own. Then its key, and no other, is unmarked in the queue; the requeue count
  of that key is what the rest of its handler makes of it, at most five; and the other keys, the other workers and their programs
  are as before. Only a handler that panics, as the pod controller does on an object that is not a pod, takes the process down.\<close>

theorem wq_worker_finishes:
  assumes "body = cm_process \<or> body = processNextItem"
    and "wq_reach body s" "workers s w = Some p" "\<not> crashed s"
  shows "\<exists>k \<in> processing s. \<forall>r. \<exists>s' n m q c. (wq_step body ^^ n) s s' \<and> n \<le> 4 \<and>
    run_prog p r (requeues s k) = Some (m, q, c) \<and> m \<le> 5 \<and>
    workers s' = (workers s)(w := None) \<and> processing s' = processing s - {k} \<and> requeues s' = (requeues s)(k := m) \<and>
    crashed s' = c \<and> (c \<longrightarrow> body = processNextItem)"
proof -
  have p: "\<exists>k \<in> processing s. \<forall>r. \<exists>s' m. (wq_step body ^^ m) s s' \<and> m \<le> 4 \<and> handed_back s w k (run_prog p r (requeues s k)) s'"
    using cmq.finishes [of s w p] podq.finishes [of s w p] assms by auto
  have calm: "c = False" if "body = cm_process" "run_prog p r m = Some (m', q, c)" for r m m' q c
    using cm_calm [OF _ _ that(2)] assms(2,3) that(1) by blast
  from p obtain k where k: "k \<in> processing s"
    and ends: "\<And>r. \<exists>s' m. (wq_step body ^^ m) s s' \<and> m \<le> 4 \<and> handed_back s w k (run_prog p r (requeues s k)) s'" by blast
  show ?thesis
  proof (intro bexI [OF _ k] allI)
    fix r
    from ends obtain s' n m q c where s': "(wq_step body ^^ n) s s'" "n \<le> 4" and out: "run_prog p r (requeues s k) = Some (m, q, c)" "m \<le> 5"
      and eq: "s' = s\<lparr>workers := (workers s)(w := None), processing := processing s - {k}, requeues := (requeues s)(k := m), crashed := c\<rparr>"
      unfolding handed_back_def by blast
    have "c \<longrightarrow> body = processNextItem" using calm [OF _ out(1)] assms(1) by blast
    with s' out eq show "\<exists>s' n m q c. (wq_step body ^^ n) s s' \<and> n \<le> 4 \<and>
        run_prog p r (requeues s k) = Some (m, q, c) \<and> m \<le> 5 \<and>
        workers s' = (workers s)(w := None) \<and> processing s' = processing s - {k} \<and> requeues s' = (requeues s)(k := m) \<and>
        crashed s' = c \<and> (c \<longrightarrow> body = processNextItem)"
      by (intro exI [of _ s'] exI [of _ n] exI [of _ m] exI [of _ q] exI [of _ c]) simp
  qed
qed

lemma bspec_ends:
  assumes "\<exists>k \<in> K. \<forall>r :: lookup. \<exists>s' n m q c. R n s' \<and> n \<le> 4 \<and> A k r m q c \<and> B m \<and> workers s' = (workers s)(w := None) \<and> C k s' m c"
  shows "\<exists>s' n. R n s' \<and> n \<le> 4 \<and> workers s' w = None"
  using assms by (metis fun_upd_same)

theorem wq_worker_finishes_witness:
  "\<exists>s s' m. wq_reach processNextItem s \<and> workers s 0 \<noteq> None \<and> (wq_step processNextItem ^^ m) s s' \<and> m \<le> 4 \<and> workers s' 0 = None"
proof -
  have reach: "wq_reach processNextItem (wq_init\<lparr>workers := (workers wq_init)(0 := Some (processNextItem 0 ''a'')),
      processing := insert ''a'' (processing wq_init)\<rparr>)" (is "wq_reach _ ?s")
    by (rule wq_reach.step [OF wq_reach.init]) (rule wq_step.get, simp_all add: wq_init_def)
  have w: "workers ?s 0 = Some (processNextItem 0 ''a'')" and c: "\<not> crashed ?s" by (simp_all add: wq_init_def)
  obtain s' m where "(wq_step processNextItem ^^ m) ?s s'" "m \<le> 4" "workers s' 0 = None"
    using bspec_ends [OF wq_worker_finishes [OF disjI2 [OF refl] reach w c]] by blast
  with reach w show ?thesis by (intro exI [of _ ?s] exI [of _ s'] exI [of _ m] conjI) simp_all
qed

text \<open>The retry schedule: a key whose lookup fails every time is put back on five attempts and dropped with its
  history cleared on the sixth, for both controllers and from a clean history; they differ on a deleted object, which the ConfigMap controller
  retries like a failure and the pod controller treats as done.\<close>

theorem wq_retry_schedule:
  "attempts cm_process n k (replicate j (LookErr err)) 0 = (j mod 6, map (\<lambda>i. i mod 6 \<noteq> 5) [0..<j]) \<and>
   attempts processNextItem n k (replicate j (LookErr err)) 0 = (j mod 6, map (\<lambda>i. i mod 6 \<noteq> 5) [0..<j]) \<and>
   attempts cm_process n k (replicate j Missing) 0 = (j mod 6, map (\<lambda>i. i mod 6 \<noteq> 5) [0..<j]) \<and>
   attempts processNextItem n k (replicate j Missing) 0 = (0, replicate j False)"
proof (intro conjI)
  have all: "list_all P (replicate j x) = (j = 0 \<or> P x)" for P and x :: lookup
    by (induction j) auto
  show "attempts cm_process n k (replicate j (LookErr err)) 0 = (j mod 6, map (\<lambda>i. i mod 6 \<noteq> 5) [0..<j])"
    using attempts_failing [of cm_process n k "replicate j (LookErr err)" 0]
    by (simp add: all failing_def cm_run cm_sync_def)
  show "attempts processNextItem n k (replicate j (LookErr err)) 0 = (j mod 6, map (\<lambda>i. i mod 6 \<noteq> 5) [0..<j])"
    using attempts_failing [of processNextItem n k "replicate j (LookErr err)" 0]
    by (simp add: all failing_def pod_run syncToStdout_def)
  show "attempts cm_process n k (replicate j Missing) 0 = (j mod 6, map (\<lambda>i. i mod 6 \<noteq> 5) [0..<j])"
    using attempts_failing [of cm_process n k "replicate j Missing" 0]
    by (simp add: all failing_def cm_run cm_sync_def)
  show "attempts processNextItem n k (replicate j Missing) 0 = (0, replicate j False)"
    by (induction j) (simp_all add: pod_run syncToStdout_def)
qed

end
