(* ===== verification/Informer_Programs.thy ===== *)
theory Informer_Programs
  imports Program_Logic Unstructured Workqueue_Controller
begin

text \<open>
  The programs that watch ConfigMaps through a shared informer: \<open>informer-typed-simple\<close>, \<open>informer-dynamic-simple\<close>,
  \<open>informer-generic-simple\<close> and \<open>informer-typed-donothing\<close> under \<open>src/client-go/using-informers/\<close>, and the main function of
  \<open>src/client-go/workqueue/main.go\<close>, whose workers are in \<open>Workqueue_Controller\<close>. Three of them create ConfigMaps of
  their own to have something to watch, and delete them.

  The API server and the informer library are parameters; a program logs its calls. What the server, the cache and other
  clients do between two calls is open. The informer calls the event handlers from another goroutine; they are functions
  of the delivered object. The interface \<open>sample_objects\<close> states what the functions that create and delete a sample object do.
\<close>

section \<open>Definitions\<close>

subsection \<open>Calls\<close>

record ConfigMap =
  cm_meta :: ObjectMeta
  cm_Data :: strmap

datatype 'o cmcall =
    CmCreate string 'o "go_error + 'o"
  | CmDelete string string "go_error option"
  | CmFactory duration string
  | CmHandlers
  | CmStart
  | CmWait "(string \<times> bool) list"
  | CmSynced bool
  | CmLister string "go_error + 'o list"
  | CmWorker nat
  | CmSleep duration
  | CmShutDown
  | CmCancel
  | CmStopped
  | CmPrint string

type_synonym ('o, 'a) cmprog = "('o cmcall list, 'a outcome) state"

record ('o, 'cfg) informer_env = "'cfg config_env" +
  ie_NewForConfig :: "'cfg \<Rightarrow> go_error option"
  ie_Create :: "'o cmcall list \<Rightarrow> string \<Rightarrow> 'o \<Rightarrow> go_error + 'o"
  ie_Delete :: "'o cmcall list \<Rightarrow> string \<Rightarrow> string \<Rightarrow> go_error option"
  ie_WaitForCacheSync :: "'o cmcall list \<Rightarrow> (string \<times> bool) list"
  ie_HasSynced :: "'o cmcall list \<Rightarrow> bool"
  ie_Parse :: "string \<Rightarrow> go_error option"
  ie_List :: "'o cmcall list \<Rightarrow> string \<Rightarrow> go_error + 'o list"

text \<open>A main function returns, or blocks for ever on an empty \<open>select\<close>.\<close>

datatype ending = Finished | Blocked

definition new_client :: "('o, 'cfg) informer_env \<Rightarrow> 'cfg \<Rightarrow> unit outcome" where
  "new_client e config = (case ie_NewForConfig e config of Some err \<Rightarrow> Panic (PanicErr (Error err)) | None \<Rightarrow> Ret ())"

subsection \<open>Creating and deleting a sample object\<close>

text \<open>\<open>ns\<close> and \<open>nm\<close> read the namespace and the name of an object.\<close>

definition create_sample :: "('o, 'cfg) informer_env \<Rightarrow> ('o \<Rightarrow> string) \<Rightarrow> ('o \<Rightarrow> string) \<Rightarrow> 'o \<Rightarrow> ('o, 'o) cmprog" where
  "create_sample e ns nm obj = do {
     r \<leftarrow> perform (\<lambda>h. ie_Create e h ''default'' obj) (CmCreate ''default'' obj);
     (case r of
        Inl err \<Rightarrow> return (Panic (PanicErr (Error err)))
      | Inr cm \<Rightarrow> do {
          note_call (CmPrint (''Created ConfigMap '' @ ns cm @ ''/'' @ nm cm));
          return (Ret cm)
        })
   }"

definition delete_sample :: "('o, 'cfg) informer_env \<Rightarrow> ('o \<Rightarrow> string) \<Rightarrow> ('o \<Rightarrow> string) \<Rightarrow> 'o \<Rightarrow> ('o, unit) cmprog" where
  "delete_sample e ns nm cm = do {
     r \<leftarrow> perform (\<lambda>h. ie_Delete e h (ns cm) (nm cm)) (CmDelete (ns cm) (nm cm));
     (case r of
        Some err \<Rightarrow> return (Panic (PanicErr (Error err)))
      | None \<Rightarrow> do {
          note_call (CmPrint (''Deleted ConfigMap '' @ ns cm @ ''/'' @ nm cm));
          return (Ret ())
        })
   }"

abbreviation cm_ns :: "ConfigMap \<Rightarrow> string" where
  "cm_ns cm \<equiv> om_Namespace (cm_meta cm)"

abbreviation cm_name :: "ConfigMap \<Rightarrow> string" where
  "cm_name cm \<equiv> om_Name (cm_meta cm)"

definition ts_configmap :: "string \<Rightarrow> ConfigMap" where
  "ts_configmap label = \<lparr>cm_meta = meta0\<lparr>om_Namespace := ''default'', om_GenerateName := ''informer-typed-simple-'',
       om_Labels := Some [(''example'', label)]\<rparr>, cm_Data = Some [(''foo'', ''bar'')]\<rparr>"

definition ts_createConfigMap :: "(ConfigMap, 'cfg) informer_env \<Rightarrow> string \<Rightarrow> (ConfigMap, ConfigMap) cmprog" where
  "ts_createConfigMap e label = create_sample e cm_ns cm_name (ts_configmap label)"

definition ts_deleteConfigMap :: "(ConfigMap, 'cfg) informer_env \<Rightarrow> ConfigMap \<Rightarrow> (ConfigMap, unit) cmprog" where
  "ts_deleteConfigMap e cm = delete_sample e cm_ns cm_name cm"

definition ds_configmap :: "string \<Rightarrow> json" where
  "ds_configmap label = JObj
    [(''apiVersion'', JStr ''v1''),
     (''kind'', JStr ''ConfigMap''),
     (''metadata'', JObj
       [(''namespace'', JStr ''default''), (''generateName'', JStr ''informer-dynamic-simple-''),
        (''labels'', JObj [(''example'', JStr label)])]),
     (''data'', JObj [(''foo'', JStr ''bar'')])]"

definition ds_createConfigMap :: "nested_env \<Rightarrow> (json, 'cfg) informer_env \<Rightarrow> string \<Rightarrow> (json, json) cmprog" where
  "ds_createConfigMap N e label = create_sample e (GetNamespace N) (GetName N) (ds_configmap label)"

definition ds_deleteConfigMap :: "nested_env \<Rightarrow> (json, 'cfg) informer_env \<Rightarrow> json \<Rightarrow> (json, unit) cmprog" where
  "ds_deleteConfigMap N e cm = delete_sample e (GetNamespace N) (GetName N) cm"

definition wq_configmap :: json where
  "wq_configmap = JObj
    [(''apiVersion'', JStr ''v1''),
     (''kind'', JStr ''ConfigMap''),
     (''metadata'', JObj [(''namespace'', JStr ''default''), (''generateName'', JStr ''workqueue-'')]),
     (''data'', JObj [(''foo'', JStr ''bar'')])]"

definition wq_createConfigMap :: "nested_env \<Rightarrow> (json, 'cfg) informer_env \<Rightarrow> (json, json) cmprog" where
  "wq_createConfigMap N e = create_sample e (GetNamespace N) (GetName N) wq_configmap"

definition wq_deleteConfigMap :: "nested_env \<Rightarrow> (json, 'cfg) informer_env \<Rightarrow> json \<Rightarrow> (json, unit) cmprog" where
  "wq_deleteConfigMap N e cm = delete_sample e (GetNamespace N) (GetName N) cm"

subsection \<open>The main functions\<close>

text \<open>The first informer that did not sync makes the program panic.\<close>

fun check_synced :: "string \<Rightarrow> (string \<times> bool) list \<Rightarrow> unit outcome" where
  "check_synced msg [] = Ret ()"
| "check_synced msg ((typ, ok) # xs) = (if \<not> ok then Panic (PanicErr (msg @ typ)) else check_synced msg xs)"

definition wait_synced :: "('o, 'cfg) informer_env \<Rightarrow> string \<Rightarrow> ('o, unit) cmprog" where
  "wait_synced e msg = do { xs \<leftarrow> perform (ie_WaitForCacheSync e) CmWait; of_outcome (check_synced msg xs) }"

definition expect_one :: "('o, 'cfg) informer_env \<Rightarrow> string \<Rightarrow> ('o, unit) cmprog" where
  "expect_one e selector =
     (case ie_Parse e selector of
        Some err \<Rightarrow> return (Panic (PanicErr (Error err)))
      | None \<Rightarrow> do {
          l \<leftarrow> perform (\<lambda>h. ie_List e h selector) (CmLister selector);
          (case l of
             Inl err \<Rightarrow> return (Panic (PanicErr (Error err)))
           | Inr list \<Rightarrow> if length list \<noteq> 1 then return (Panic (PanicErr ''expected ConfigMap not found'')) else return (Ret ()))
        })"

definition ts_main :: "(ConfigMap, 'cfg) informer_env \<Rightarrow> string \<Rightarrow> (ConfigMap, ending) cmprog" where
  "ts_main e rnd =
     (let label = ''informer-typed-simple-'' @ rnd in
      obind (of_outcome (user_config e)) (\<lambda>config.
      obind (of_outcome (new_client e config)) (\<lambda>_.
      obind (ts_createConfigMap e label) (\<lambda>first. do {
        note_call (CmFactory (5 * Second) '''');
        note_call CmHandlers;
        deferred (do {
          note_call CmStart;
          obind (wait_synced e ''Failed to sync cache for '') (\<lambda>_.
          obind (expect_one e (''example='' @ label)) (\<lambda>_.
          obind (ts_createConfigMap e label) (\<lambda>second.
          obind (ts_deleteConfigMap e first) (\<lambda>_.
          obind (ts_deleteConfigMap e second) (\<lambda>_. do {
            note_call (CmSleep (10 * Second));
            return (Ret Finished)
          })))))
        }) (note_call CmCancel)
      }))))"

definition ds_main :: "nested_env \<Rightarrow> (json, 'cfg) informer_env \<Rightarrow> string \<Rightarrow> (json, ending) cmprog" where
  "ds_main N e rnd =
     (let label = ''informer-dynamic-simple-'' @ rnd in
      obind (of_outcome (user_config e)) (\<lambda>config.
      obind (of_outcome (new_client e config)) (\<lambda>_.
      obind (ds_createConfigMap N e label) (\<lambda>first. do {
        note_call (CmFactory (5 * Second) '''');
        note_call CmHandlers;
        deferred (do {
          note_call CmStart;
          obind (wait_synced e ''Failed to sync cache for resource '') (\<lambda>_.
          obind (expect_one e (''example=='' @ label)) (\<lambda>_.
          obind (ds_createConfigMap N e label) (\<lambda>second.
          obind (ds_deleteConfigMap N e first) (\<lambda>_.
          obind (ds_deleteConfigMap N e second) (\<lambda>_. do {
            note_call (CmSleep (10 * Second));
            return (Ret Finished)
          })))))
        }) (note_call CmCancel)
      }))))"

definition createClientOrDie :: "(json, 'cfg) informer_env \<Rightarrow> (json, unit) cmprog" where
  "createClientOrDie e = obind (of_outcome (user_config e)) (\<lambda>config. of_outcome (new_client e config))"

text \<open>The three workers start at the numbers zero to two; what a worker does is \<open>cm_process\<close>.\<close>

fun start_workers :: "nat \<Rightarrow> nat \<Rightarrow> ('o, unit) cmprog" where
  "start_workers i 0 = return (Ret ())"
| "start_workers i (Suc n) = do { note_call (CmWorker i); start_workers (i + 1) n }"

text \<open>The sample objects that give the workers something to do, and the end of the main function.\<close>

definition wq_samples :: "nested_env \<Rightarrow> (json, 'cfg) informer_env \<Rightarrow> (json, ending) cmprog" where
  "wq_samples N e =
     obind (wq_createConfigMap N e) (\<lambda>cm1.
     obind (wq_createConfigMap N e) (\<lambda>cm2.
     obind (wq_createConfigMap N e) (\<lambda>cm3.
     obind (wq_createConfigMap N e) (\<lambda>cm4.
     obind (wq_createConfigMap N e) (\<lambda>cm5.
     obind (wq_deleteConfigMap N e cm1) (\<lambda>_.
     obind (wq_deleteConfigMap N e cm2) (\<lambda>_.
     obind (wq_deleteConfigMap N e cm3) (\<lambda>_.
     obind (wq_deleteConfigMap N e cm4) (\<lambda>_.
     obind (wq_deleteConfigMap N e cm5) (\<lambda>_. do {
       note_call (CmSleep (10 * Second));
       note_call CmShutDown;
       note_call CmCancel;
       note_call (CmSleep Second);
       return (Ret Finished)
     }))))))))))"

definition wq_main :: "nested_env \<Rightarrow> (json, 'cfg) informer_env \<Rightarrow> (json, ending) cmprog" where
  "wq_main N e =
     obind (createClientOrDie e) (\<lambda>_.
     deferred (do {
       note_call (CmFactory (5 * Second) ''default'');
       note_call CmHandlers;
       deferred (do {
         note_call CmStart;
         obind (wait_synced e ''Failed to sync cache for resource '') (\<lambda>_.
         obind (start_workers 0 3) (\<lambda>_.
         wq_samples N e))
       }) (note_call CmCancel)
     }) (note_call CmShutDown))"

text \<open>
  The two programs without sample objects: they differ in how they ask the factory for the informer. \<open>cache.WaitForCacheSync\<close>
  on one informer gives a truth value.
\<close>

definition watch_main :: "('o, 'cfg) informer_env \<Rightarrow> ('o, ending) cmprog" where
  "watch_main e =
     obind (of_outcome (load_config e (env_kubeconfig e))) (\<lambda>rc.
     obind (of_outcome (new_client e rc)) (\<lambda>_. do {
       note_call (CmFactory (5 * Second) '''');
       note_call CmHandlers;
       deferred (do {
         note_call CmStart;
         ok \<leftarrow> perform (ie_HasSynced e) CmSynced;
         (if \<not> ok then return (Panic (PanicErr ''failed to sync'')) else return (Ret Blocked))
       }) (note_call CmCancel)
     }))"

text \<open>The variant that asks for the informer by its type is the same program.\<close>

definition donothing_main :: "('o, 'cfg) informer_env \<Rightarrow> ('o, ending) cmprog" where
  "donothing_main e = watch_main e"

text \<open>
  The pod controller of the official work-queue example: \<open>Run\<close> starts the informer, waits for its cache, starts the workers and
  waits for the stop channel; its deferred call shuts the queue down. The main function starts it and blocks for ever; a bad
  configuration is fatal.
\<close>

definition pc_Run :: "('o, 'cfg) informer_env \<Rightarrow> nat \<Rightarrow> ('o, unit) cmprog" where
  "pc_Run e n =
     deferred (do {
       note_call CmStart;
       ok \<leftarrow> perform (ie_HasSynced e) CmSynced;
       (if \<not> ok then do { note_call (CmPrint ''Timed out waiting for caches to sync''); return (Ret ()) }
        else obind (start_workers 0 n) (\<lambda>_. do { note_call CmStopped; return (Ret ()) }))
     }) (note_call CmShutDown)"

text \<open>
  What the main function has set up when it starts \<open>Run\<close> and blocks: the resource and the namespace it watches, the resync
  period, the objects with which it warms up the cache, and the number of workers.
\<close>

record pc_setup =
  ps_resource :: string
  ps_namespace :: string
  ps_resync :: duration
  ps_indexed :: "(string \<times> string) list"
  ps_workers :: nat
  ps_ending :: ending

definition pc_main :: "('o, 'cfg) informer_env \<Rightarrow> string + pc_setup" where
  "pc_main e =
     (case cf_BuildConfigFromFlags e (flag_String e ''master'' '''') (flag_String e ''kubeconfig'' '''') of
        Inl err \<Rightarrow> Inl (Error err)
      | Inr config \<Rightarrow>
          (case ie_NewForConfig e config of
             Some err \<Rightarrow> Inl (Error err)
           | None \<Rightarrow> Inr \<lparr>ps_resource = ''pods'', ps_namespace = ''default'', ps_resync = 0,
               ps_indexed = [(''default'', ''mypod'')], ps_workers = 1, ps_ending = Blocked\<rparr>))"

subsection \<open>Event handlers\<close>

text \<open>
  What an informer delivers: an object, or after a missed deletion a tombstone with the key and the last known object.
  The type assertion of the handlers fails on a tombstone.
\<close>

datatype 'o delivered = Obj 'o | DeletedFinalStateUnknown string 'o

fun assert_obj :: "'o delivered \<Rightarrow> 'o outcome" where
  "assert_obj (Obj x) = Ret x"
| "assert_obj (DeletedFinalStateUnknown k x) = Panic TypeAssertion"

definition event_line :: "('o \<Rightarrow> string) \<Rightarrow> ('o \<Rightarrow> string) \<Rightarrow> string \<Rightarrow> 'o delivered \<Rightarrow> string outcome" where
  "event_line ns nm verb obj =
     map_outcome (\<lambda>cm. ''Informer event: ConfigMap '' @ verb @ '' '' @ ns cm @ ''/'' @ nm cm) (assert_obj obj)"

fun informer_handler :: "('o \<Rightarrow> string) \<Rightarrow> ('o \<Rightarrow> string) \<Rightarrow> 'o delivered event \<Rightarrow> string outcome" where
  "informer_handler ns nm (AddEvent obj) = event_line ns nm ''ADDED'' obj"
| "informer_handler ns nm (UpdateEvent old new) = event_line ns nm ''UPDATED'' old"
| "informer_handler ns nm (DeleteEvent obj) = event_line ns nm ''DELETED'' obj"

text \<open>The handlers of \<open>src/client-go/using-controller/main.go\<close>, which print the names of pods.\<close>

fun controller_handler :: "('o \<Rightarrow> string) \<Rightarrow> 'o delivered event \<Rightarrow> string outcome" where
  "controller_handler nm (AddEvent obj) = map_outcome (\<lambda>p. ''New object added: '' @ nm p) (assert_obj obj)"
| "controller_handler nm (UpdateEvent old new) =
     (case assert_obj old of
        Panic p \<Rightarrow> Panic p
      | Ret o1 \<Rightarrow> map_outcome (\<lambda>o2. ''Object updated. Old: '' @ nm o1 @ '' New: '' @ nm o2) (assert_obj new))"
| "controller_handler nm (DeleteEvent obj) = map_outcome (\<lambda>p. ''Object deleted: '' @ nm p) (assert_obj obj)"

subsection \<open>What a log shows\<close>

fun created_by :: "('o \<Rightarrow> string \<times> string) \<Rightarrow> 'o cmcall \<Rightarrow> (string \<times> string) list" where
  "created_by kf (CmCreate ns obj (Inr cm)) = [kf cm]"
| "created_by kf _ = []"

definition created :: "('o \<Rightarrow> string \<times> string) \<Rightarrow> 'o cmcall list \<Rightarrow> (string \<times> string) list" where
  "created kf h = concat (map (created_by kf) h)"

fun removed_by :: "'o cmcall \<Rightarrow> (string \<times> string) list" where
  "removed_by (CmDelete ns nm None) = [(ns, nm)]"
| "removed_by _ = []"

definition removed :: "'o cmcall list \<Rightarrow> (string \<times> string) list" where
  "removed h = concat (map removed_by h)"

text \<open>Every deletion asked for is of an object that this log shows as created before.\<close>

definition own_deletes :: "('o \<Rightarrow> string \<times> string) \<Rightarrow> 'o cmcall list \<Rightarrow> bool" where
  "own_deletes kf h \<longleftrightarrow> (\<forall>pre ns nm r post. h = pre @ CmDelete ns nm r # post \<longrightarrow> (ns, nm) \<in> set (created kf pre))"

text \<open>The cache did not hold exactly one object with the label.\<close>

definition not_one :: "'o cmcall list \<Rightarrow> bool" where
  "not_one h \<longleftrightarrow> (\<exists>sel l. CmLister sel (Inr l) \<in> set h \<and> length l \<noteq> 1)"

definition quiet :: "'o cmcall \<Rightarrow> bool" where
  "quiet c \<longleftrightarrow> (case c of CmCreate _ _ _ \<Rightarrow> False | CmDelete _ _ _ \<Rightarrow> False | CmLister _ _ \<Rightarrow> False | _ \<Rightarrow> True)"

text \<open>The log shows the objects \<open>os\<close> as created, in this order, and the first \<open>k\<close> of them as deleted.\<close>

definition samples :: "('o \<Rightarrow> string \<times> string) \<Rightarrow> 'o list \<Rightarrow> nat \<Rightarrow> 'o cmcall list \<Rightarrow> bool" where
  "samples kf os k h \<longleftrightarrow> created kf h = map kf os \<and> removed h = map kf (take k os) \<and> own_deletes kf h \<and> \<not> not_one h"

definition sample_log :: "('o \<Rightarrow> string \<times> string) \<Rightarrow> 'o cmcall list \<Rightarrow> bool" where
  "sample_log kf h \<longleftrightarrow> own_deletes kf h \<and> (\<exists>k. removed h = take k (created kf h)) \<and>
     (not_one h \<longrightarrow> length (created kf h) = 1 \<and> removed h = [])"

text \<open>What a run of a program that makes \<open>n\<close> sample objects leaves in the log: it deletes only its own objects, in the order of their
  creation; with not exactly one object in the cache it leaves its only object behind; when it returns, none is left.\<close>

definition cleans_up :: "('o \<Rightarrow> string \<times> string) \<Rightarrow> nat \<Rightarrow> ending outcome \<Rightarrow> 'o cmcall list \<Rightarrow> bool" where
  "cleans_up kf n r h \<longleftrightarrow> sample_log kf h \<and>
     (r = Ret Finished \<longrightarrow> length (created kf h) = n \<and> removed h = created kf h)"

section \<open>Lemmas\<close>

lemma created_append [simp]: "created kf (h @ t) = created kf h @ created kf t"
  by (simp add: created_def)

lemma removed_append [simp]: "removed (h @ t) = removed h @ removed t"
  by (simp add: removed_def)

lemma own_deletes_snoc:
  "own_deletes kf (h @ [c]) \<longleftrightarrow>
     own_deletes kf h \<and> (\<forall>ns nm r. c = CmDelete ns nm r \<longrightarrow> (ns, nm) \<in> set (created kf h))"
  unfolding own_deletes_def snoc_eq_mid by blast

lemma not_one_snoc [simp]: "not_one (h @ [c]) \<longleftrightarrow> not_one h \<or> (\<exists>sel l. c = CmLister sel (Inr l) \<and> length l \<noteq> 1)"
  by (auto simp: not_one_def)

lemma samples_Nil: "samples kf [] 0 []"
  by (simp add: samples_def own_deletes_def created_def removed_def not_one_def)

lemma created_single [simp]: "created kf [c] = created_by kf c" and removed_single [simp]: "removed [c] = removed_by c"
  by (simp_all add: created_def removed_def)

lemma quiet_none:
  "quiet c \<Longrightarrow> created_by kf c = []" "quiet c \<Longrightarrow> removed_by c = []"
  "quiet c \<Longrightarrow> c \<noteq> CmDelete ns nm r" "quiet c \<Longrightarrow> c \<noteq> CmLister sel x"
  by (cases c; simp add: quiet_def)+

lemma samples_quiet [simp]: "quiet c \<Longrightarrow> samples kf os k (h @ [c]) \<longleftrightarrow> samples kf os k h"
  by (simp add: samples_def quiet_none own_deletes_snoc)

lemma sample_log_quiet [simp]: "quiet c \<Longrightarrow> sample_log kf (h @ [c]) \<longleftrightarrow> sample_log kf h"
  by (simp add: sample_log_def quiet_none own_deletes_snoc)

lemma samples_quiet2 [simp]: "quiet c \<Longrightarrow> samples kf os k (h @ [d, c]) \<longleftrightarrow> samples kf os k (h @ [d])"
  using samples_quiet [of c kf os k "h @ [d]"] by simp

lemma samples_log: "samples kf os k h \<Longrightarrow> sample_log kf h"
  by (auto simp: samples_def sample_log_def take_map)

lemma samples_created:
  "samples kf os k h \<Longrightarrow> k \<le> length os \<Longrightarrow> samples kf (os @ [x]) k (h @ [CmCreate ns obj (Inr x)])"
  by (auto simp: samples_def own_deletes_snoc)

lemma samples_failed: "samples kf os k h \<Longrightarrow> samples kf os k (h @ [CmCreate ns obj (Inl err)])"
  by (auto simp: samples_def own_deletes_snoc)

lemma samples_deleted:
  assumes "samples kf os k h" and "k < length os"
  shows "samples kf os (Suc k) (h @ [CmDelete (fst (kf (os ! k))) (snd (kf (os ! k))) None])"
    and "samples kf os k (h @ [CmDelete (fst (kf (os ! k))) (snd (kf (os ! k))) (Some err)])"
  using assms by (auto simp: samples_def own_deletes_snoc take_Suc_conv_app_nth)

text \<open>Log entries without a fresh object or a deletion.\<close>

lemma triple_quiet:
  assumes "triple (samples kf os k) m Q E" and "quiet c"
  shows "triple (samples kf os k) (do { note_call c; m }) Q E"
  by (rule triple_note [OF assms(1)]) (simp add: assms(2))

lemma wait_synced_triple: "triple (samples kf os k) (wait_synced e msg) (\<lambda>_. samples kf os k) (sample_log kf)"
  unfolding wait_synced_def
  by (rule triple_perform, rule triple_of_outcome) (auto simp: quiet_def intro: samples_log)

lemma start_workers_triple: "triple (samples kf os k) (start_workers i n) (\<lambda>_. samples kf os k) E"
  by (induction n arbitrary: i) (simp_all add: triple_return triple_quiet quiet_def)

lemma expect_one_triple:
  "triple (samples kf [x] 0) (expect_one e sel) (\<lambda>_. samples kf [x] 0) (sample_log kf)"
proof (rule tripleI)
  fix h a h' assume "samples kf [x] 0 h" "run_state (expect_one e sel) h = (Ret a, h')"
  then show "samples kf [x] 0 h'"
    by (auto simp: expect_one_def samples_def own_deletes_snoc split: option.splits sum.splits if_splits)
next
  fix h p h' assume "samples kf [x] 0 h" "run_state (expect_one e sel) h = (Panic p, h')"
  then show "sample_log kf h'"
    by (auto simp: expect_one_def samples_def sample_log_def own_deletes_snoc
        split: option.splits sum.splits if_splits intro: exI [of _ 0])
qed

section \<open>Programs with sample objects\<close>

text \<open>
  \<open>kf\<close> reads namespace and name of an object. Creating either fails with a panic or returns what the server answered;
  deleting asks for exactly the object it is given and panics on any error.
\<close>

locale sample_objects =
  fixes kf :: "'o \<Rightarrow> string \<times> string" and create :: "('o, 'o) cmprog" and delete :: "'o \<Rightarrow> ('o, unit) cmprog"
  assumes create_step: "run_state create h = (r, h') \<Longrightarrow>
      (\<exists>ns obj err p. h' = h @ [CmCreate ns obj (Inl err)] \<and> r = Panic p) \<or>
      (\<exists>ns obj x s. h' = (h @ [CmCreate ns obj (Inr x)]) @ [CmPrint s] \<and> r = Ret x)"
    and delete_step: "run_state (delete x) h = (q, h') \<Longrightarrow>
      (\<exists>err p. h' = h @ [CmDelete (fst (kf x)) (snd (kf x)) (Some err)] \<and> q = Panic p) \<or>
      (\<exists>s. h' = (h @ [CmDelete (fst (kf x)) (snd (kf x)) None]) @ [CmPrint s] \<and> q = Ret ())"
begin

lemma create_triple:
  assumes "k \<le> length os"
  shows "triple (samples kf os k) create (\<lambda>x. samples kf (os @ [x]) k) (sample_log kf)"
proof (rule tripleI)
  fix h x h' assume "samples kf os k h" "run_state create h = (Ret x, h')"
  then show "samples kf (os @ [x]) k h'" using assms by (auto dest!: create_step simp: quiet_def samples_created simp flip: append.assoc)
next
  fix h p h' assume "samples kf os k h" "run_state create h = (Panic p, h')"
  then show "sample_log kf h'" by (auto dest!: create_step intro: samples_log samples_failed)
qed

lemma delete_triple:
  assumes "k < length os" and "x = os ! k"
  shows "triple (samples kf os k) (delete x) (\<lambda>_. samples kf os (Suc k)) (sample_log kf)"
proof (rule tripleI)
  fix h u h' assume h: "samples kf os k h" and run: "run_state (delete x) h = (Ret u, h')"
  from delete_step [OF run] show "samples kf os (Suc k) h'"
    using samples_deleted(1) [OF h assms(1)] assms(2) by (auto simp: quiet_def simp flip: append.assoc)
next
  fix h p h' assume h: "samples kf os k h" and run: "run_state (delete x) h = (Panic p, h')"
  from delete_step [OF run] show "sample_log kf h'"
    using samples_log [OF samples_deleted(2) [OF h assms(1)]] assms(2) by auto
qed

text \<open>The part of the two informer programs after the client is made.\<close>

lemma created_first:
  "triple (\<lambda>h. h = []) create (\<lambda>x. samples kf [x] 0) (\<lambda>h. sample_log kf h \<and> (CmStart \<in> set h \<longrightarrow> last h = CmCancel))"
proof (rule tripleI)
  have c: "triple (samples kf [] 0) create (\<lambda>x. samples kf [x] 0) (sample_log kf)" using create_triple [of 0 "[]"] by simp
  fix h x h' assume "h = []" "run_state create h = (Ret x, h')"
  then show "samples kf [x] 0 h'" using tripleD [OF c samples_Nil] by fastforce
next
  have c: "triple (samples kf [] 0) create (\<lambda>x. samples kf [x] 0) (sample_log kf)" using create_triple [of 0 "[]"] by simp
  fix h p h' assume h: "h = []" "run_state create h = (Panic p, h')"
  have "sample_log kf h'" using tripleD [OF c samples_Nil] h by fastforce
  then show "sample_log kf h' \<and> (CmStart \<in> set h' \<longrightarrow> last h' = CmCancel)" using create_step [OF h(2)] h(1) by auto
qed

lemma informer_triple:
  "triple (\<lambda>h. h = [])
     (obind create (\<lambda>first. do {
        note_call (CmFactory d s);
        note_call CmHandlers;
        deferred (do {
          note_call CmStart;
          obind (wait_synced e msg) (\<lambda>_.
          obind (expect_one e sel) (\<lambda>_.
          obind create (\<lambda>second.
          obind (delete first) (\<lambda>_.
          obind (delete second) (\<lambda>_. do { note_call (CmSleep t); return (Ret Finished) })))))
        }) (note_call CmCancel)
      }))
     (\<lambda>_ h. \<exists>os. length os = 2 \<and> samples kf os 2 h \<and> last h = CmCancel)
     (\<lambda>h. sample_log kf h \<and> (CmStart \<in> set h \<longrightarrow> last h = CmCancel))"
  (is "triple _ (obind create ?rest) ?Q ?E")
proof -
  let ?body = "\<lambda>first. do {
          note_call CmStart;
          obind (wait_synced e msg) (\<lambda>_.
          obind (expect_one e sel) (\<lambda>_.
          obind create (\<lambda>second.
          obind (delete first) (\<lambda>_.
          obind (delete second) (\<lambda>_. do { note_call (CmSleep t); return (Ret Finished) })))))
        }"
  have "triple (samples kf [first] 0) (?body first) (\<lambda>_ h. \<exists>os. length os = 2 \<and> samples kf os 2 h) (sample_log kf)" for first
  proof -
    have c: "triple (samples kf [first] 0) create (\<lambda>x. samples kf [first, x] 0) (sample_log kf)"
      using create_triple [of 0 "[first]"] by simp
    have d: "triple (samples kf [first, x] 0) (delete first) (\<lambda>_. samples kf [first, x] 1) (sample_log kf)"
      "triple (samples kf [first, x] 1) (delete x) (\<lambda>_. samples kf [first, x] 2) (sample_log kf)" for x
      using delete_triple [of 0 "[first, x]" first] delete_triple [of 1 "[first, x]" x] by (simp_all add: numeral_2_eq_2)
    show ?thesis
      by (intro triple_quiet triple_obind [OF wait_synced_triple] triple_obind [OF expect_one_triple]
          triple_obind [OF c] triple_obind [OF d(1)] triple_obind [OF d(2)] triple_return)
        (auto simp: quiet_def intro: exI [of _ "[first, _]"])
  qed
  then have "triple (samples kf [first] 0) (deferred (?body first) (note_call CmCancel)) ?Q ?E" for first
    by (rule triple_deferred) (auto simp: quiet_def)
  then have "triple (samples kf [first] 0) (?rest first) ?Q ?E" for first
    by (intro triple_quiet) (simp_all add: quiet_def)
  moreover have "triple (\<lambda>h. h = []) create (\<lambda>x. samples kf [x] 0) ?E"
    by (rule created_first)
  ultimately show ?thesis by (intro triple_obind)
qed


lemma five_triple:
  "triple (samples kf [] 0)
     (obind create (\<lambda>cm1. obind create (\<lambda>cm2. obind create (\<lambda>cm3. obind create (\<lambda>cm4. obind create (\<lambda>cm5.
      obind (delete cm1) (\<lambda>_. obind (delete cm2) (\<lambda>_. obind (delete cm3) (\<lambda>_. obind (delete cm4) (\<lambda>_.
      obind (delete cm5) (\<lambda>_. do {
        note_call (CmSleep t); note_call CmShutDown; note_call CmCancel; note_call (CmSleep u); return (Ret Finished) })))))))))))
     (\<lambda>_ h. \<exists>os. length os = 5 \<and> samples kf os 5 h) (sample_log kf)"
proof -
  have c: "triple (samples kf os 0) create (\<lambda>x. samples kf (os @ [x]) 0) (sample_log kf)" for os
    by (rule create_triple) simp
  have d: "triple (samples kf [a, b, c, d, x] 0) (delete a) (\<lambda>_. samples kf [a, b, c, d, x] 1) (sample_log kf)"
    "triple (samples kf [a, b, c, d, x] 1) (delete b) (\<lambda>_. samples kf [a, b, c, d, x] 2) (sample_log kf)"
    "triple (samples kf [a, b, c, d, x] 2) (delete c) (\<lambda>_. samples kf [a, b, c, d, x] 3) (sample_log kf)"
    "triple (samples kf [a, b, c, d, x] 3) (delete d) (\<lambda>_. samples kf [a, b, c, d, x] 4) (sample_log kf)"
    "triple (samples kf [a, b, c, d, x] 4) (delete x) (\<lambda>_. samples kf [a, b, c, d, x] 5) (sample_log kf)" for a b c d x
    using delete_triple [of 0 "[a, b, c, d, x]" a] delete_triple [of 1 "[a, b, c, d, x]" b]
      delete_triple [of 2 "[a, b, c, d, x]" c] delete_triple [of 3 "[a, b, c, d, x]" d] delete_triple [of 4 "[a, b, c, d, x]" x]
    by (simp_all add: eval_nat_numeral)
  have "triple (samples kf [a, b, c, d, x] 0)
      (obind (delete a) (\<lambda>_. obind (delete b) (\<lambda>_. obind (delete c) (\<lambda>_. obind (delete d) (\<lambda>_. obind (delete x) (\<lambda>_. do {
         note_call (CmSleep t); note_call CmShutDown; note_call CmCancel; note_call (CmSleep u); return (Ret Finished) }))))))
      (\<lambda>_ h. \<exists>os. length os = 5 \<and> samples kf os 5 h) (sample_log kf)" for a b c d x
    by (intro triple_obind [OF d(1)] triple_obind [OF d(2)] triple_obind [OF d(3)] triple_obind [OF d(4)] triple_obind [OF d(5)]
        triple_quiet triple_return) (auto simp: quiet_def intro: exI [of _ "[a, b, c, d, x]"])
  then show ?thesis by (intro triple_obind [OF c]) simp
qed

end

text \<open>All three programs create and delete through the same two functions.\<close>

lemma create_sample_run:
  "run_state (create_sample e ns nm obj) h = (r, h') \<Longrightarrow>
     (\<exists>n x err p. h' = h @ [CmCreate n x (Inl err)] \<and> r = Panic p) \<or>
     (\<exists>n x y s. h' = (h @ [CmCreate n x (Inr y)]) @ [CmPrint s] \<and> r = Ret y)"
  by (auto simp: create_sample_def split: sum.splits)

lemma delete_sample_run:
  "run_state (delete_sample e ns nm x) h = (r, h') \<Longrightarrow>
     (\<exists>err p. h' = h @ [CmDelete (fst (ns x, nm x)) (snd (ns x, nm x)) (Some err)] \<and> r = Panic p) \<or>
     (\<exists>s. h' = (h @ [CmDelete (fst (ns x, nm x)) (snd (ns x, nm x)) None]) @ [CmPrint s] \<and> r = Ret ())"
  by (auto simp: delete_sample_def split: option.splits)

interpretation ts: sample_objects "\<lambda>x. (cm_ns x, cm_name x)" "ts_createConfigMap e label" "ts_deleteConfigMap e" for e label
  unfolding ts_createConfigMap_def ts_deleteConfigMap_def
  by unfold_locales (erule create_sample_run, erule delete_sample_run)

interpretation ds: sample_objects "\<lambda>x. (GetNamespace N x, GetName N x)" "ds_createConfigMap N e label" "ds_deleteConfigMap N e"
  for N e label
  unfolding ds_createConfigMap_def ds_deleteConfigMap_def
  by unfold_locales (erule create_sample_run, erule delete_sample_run)

interpretation wq: sample_objects "\<lambda>x. (GetNamespace N x, GetName N x)" "wq_createConfigMap N e" "wq_deleteConfigMap N e" for N e
  unfolding wq_createConfigMap_def wq_deleteConfigMap_def
  by unfold_locales (erule create_sample_run, erule delete_sample_run)

lemma sample_log_Nil: "sample_log kf []"
  by (rule samples_log [OF samples_Nil])

lemma samples_clean: "length os = n \<Longrightarrow> samples kf os n h \<Longrightarrow> cleans_up kf n r h"
  using samples_log [of kf os n h] by (auto simp: cleans_up_def samples_def)

lemma clean_Panic: "sample_log kf h \<Longrightarrow> cleans_up kf n (Panic p) h"
  by (simp add: cleans_up_def)

lemma ts_main_clean:
  assumes "run_state (ts_main e rnd) [] = (r, h)"
  shows "cleans_up (\<lambda>x. (cm_ns x, cm_name x)) 2 r h \<and> (CmStart \<in> set h \<longrightarrow> last h = CmCancel)"
proof -
  have "triple (\<lambda>h. h = []) (ts_main e rnd)
      (\<lambda>_ h. \<exists>os. length os = 2 \<and> samples (\<lambda>x. (cm_ns x, cm_name x)) os 2 h \<and> last h = CmCancel)
      (\<lambda>h. sample_log (\<lambda>x. (cm_ns x, cm_name x)) h \<and> (CmStart \<in> set h \<longrightarrow> last h = CmCancel))"
    unfolding ts_main_def Let_def
    by (rule triple_obind [where R = "\<lambda>_ h. h = []"], rule triple_of_outcome, simp, simp add: sample_log_Nil,
        rule triple_obind [where R = "\<lambda>_ h. h = []"], rule triple_of_outcome, simp, simp add: sample_log_Nil,
        rule ts.informer_triple)
  from tripleD [OF this refl assms] show ?thesis by (cases r) (auto intro: samples_clean clean_Panic)
qed

lemma ds_main_clean:
  assumes "run_state (ds_main N e rnd) [] = (r, h)"
  shows "cleans_up (\<lambda>x. (GetNamespace N x, GetName N x)) 2 r h \<and> (CmStart \<in> set h \<longrightarrow> last h = CmCancel)"
proof -
  have "triple (\<lambda>h. h = []) (ds_main N e rnd)
      (\<lambda>_ h. \<exists>os. length os = 2 \<and> samples (\<lambda>x. (GetNamespace N x, GetName N x)) os 2 h \<and> last h = CmCancel)
      (\<lambda>h. sample_log (\<lambda>x. (GetNamespace N x, GetName N x)) h \<and> (CmStart \<in> set h \<longrightarrow> last h = CmCancel))"
    unfolding ds_main_def Let_def
    by (rule triple_obind [where R = "\<lambda>_ h. h = []"], rule triple_of_outcome, simp, simp add: sample_log_Nil,
        rule triple_obind [where R = "\<lambda>_ h. h = []"], rule triple_of_outcome, simp, simp add: sample_log_Nil,
        rule ds.informer_triple)
  from tripleD [OF this refl assms] show ?thesis by (cases r) (auto intro: samples_clean clean_Panic)
qed

lemma wq_main_clean:
  assumes "run_state (wq_main N e) [] = (r, h)"
  shows "cleans_up (\<lambda>x. (GetNamespace N x, GetName N x)) 5 r h \<and> (CmStart \<in> set h \<longrightarrow> (\<exists>t. h = t @ [CmCancel, CmShutDown]))"
proof -
  let ?kf = "\<lambda>x. (GetNamespace N x, GetName N x)"
  let ?Q = "\<lambda>_ h. \<exists>os t. length os = 5 \<and> samples ?kf os 5 h \<and> h = t @ [CmCancel, CmShutDown]"
  let ?E = "\<lambda>h. sample_log ?kf h \<and> (CmStart \<in> set h \<longrightarrow> (\<exists>t. h = t @ [CmCancel, CmShutDown]))"
  note body = triple_quiet [OF triple_obind [OF wait_synced_triple triple_obind [OF start_workers_triple wq.five_triple]]]
  note inner = triple_deferred [OF body, where d = "note_call CmCancel"]
  have client: "triple (\<lambda>h. h = []) (createClientOrDie e) (\<lambda>_. samples ?kf [] 0) ?E"
    unfolding createClientOrDie_def
    by (rule triple_obind [where R = "\<lambda>_ h. h = []"]; rule triple_of_outcome) (simp_all add: sample_log_Nil samples_Nil)
  have "triple (\<lambda>h. h = []) (wq_main N e) ?Q ?E"
    unfolding wq_main_def wq_samples_def
    by (rule triple_obind [OF client], rule triple_deferred, rule triple_quiet, rule triple_quiet, rule inner
          [where Q = "\<lambda>_ h. \<exists>os t. length os = 5 \<and> samples ?kf os 5 h \<and> h = t @ [CmCancel]"
             and E = "\<lambda>h. sample_log ?kf h \<and> (\<exists>t. h = t @ [CmCancel])"])
      (auto simp: quiet_def)
  from tripleD [OF this refl assms] show ?thesis by (cases r) (auto intro: samples_clean clean_Panic)
qed

subsection \<open>The pod controller\<close>

lemma start_workers_run: "run_state (start_workers i n) h = (Ret (), h @ map CmWorker [i..<i + n])"
  by (induction n arbitrary: i h) (simp_all add: upt_conv_Cons)

text \<open>Workers start only on a synced cache, and the queue is shut down in the end.\<close>

lemma pc_Run_log:
  assumes "run_state (pc_Run e n) h = (r, h')"
  shows "h' = h @ [CmStart, CmSynced (ie_HasSynced e (h @ [CmStart]))] @
    (if ie_HasSynced e (h @ [CmStart]) then map CmWorker [0..<n] @ [CmStopped]
     else [CmPrint ''Timed out waiting for caches to sync'']) @ [CmShutDown]"
  using assms by (auto simp: pc_Run_def start_workers_run)

subsection \<open>Tombstones\<close>

text \<open>
  After a missed deletion the informer delivers a tombstone. The handlers of the informer programs and of the controller program panic on it; the ones of
  the work-queue program use the key function made for this case and queue its key.
\<close>

lemma tombstone_handling:
  assumes "\<And>k x. DeletionHandlingMetaNamespaceKeyFunc K (DeletedFinalStateUnknown k x) = Some k"
  shows "informer_handler ns nm (DeleteEvent (DeletedFinalStateUnknown k x)) = Panic TypeAssertion"
    and "controller_handler nm (DeleteEvent (DeletedFinalStateUnknown k x)) = Panic TypeAssertion"
    and "on_event K (DeleteEvent (DeletedFinalStateUnknown k x)) = Some k"
    and "informer_handler ns nm (UpdateEvent (Obj old) new) = Ret (''Informer event: ConfigMap UPDATED '' @ ns old @ ''/'' @ nm old)"
  using assms by (simp_all add: event_line_def)

subsection \<open>A server in memory\<close>

text \<open>Names are counted up; the cache shows what was created and not deleted.\<close>

definition mem_name :: "json cmcall list \<Rightarrow> string" where
  "mem_name h = show_nat (length h)"

definition mem_informer :: "(json, unit) informer_env" where
  "mem_informer = \<lparr>cf_Getenv = (\<lambda>_. ''''), cf_HomeDir = ''/root'', cf_UserHomeDir = Inr ''/root'',
     cf_RecommendedHomeFile = ''/root/.kube/config'', cf_flag = (\<lambda>_. None),
     cf_BuildConfigFromFlags = (\<lambda>_ p. if p = ''/root/.kube/config'' then Inr () else Inl (PlainError ''no such file'')),
     cf_InClusterConfig = Inr (), cf_Namespace = Inr ''default'', cf_ClientConfig = Inr (),
     ie_NewForConfig = (\<lambda>_. None),
     ie_Create = (\<lambda>h ns obj. set_at obj (JStr (mem_name h)) [''metadata'', ''name'']),
     ie_Delete = (\<lambda>h ns nm. if (ns, nm) \<in> set (created (\<lambda>x. (GetNamespace std_nested x, GetName std_nested x)) h) then None
        else Some (StatusError ReasonNotFound ''not found'')),
     ie_WaitForCacheSync = (\<lambda>_. [(''configmaps'', True)]), ie_HasSynced = (\<lambda>_. True), ie_Parse = (\<lambda>_. None),
     ie_List = (\<lambda>h sel. Inr [JNull])\<rparr>"

section \<open>Properties\<close>

text \<open>C17. The programs that make sample ConfigMaps touch nothing else and clean up. Whatever the server answers and whatever
  other clients do, each deletion asked for is of an object that this run created, objects are deleted in the order of their
  creation, and a run that returns has created two objects (the work-queue program five) and deleted every one of them. A run
  that finds not exactly one object in the cache panics and leaves its first object behind. Once the informers were started
  they are stopped, also by a run that panics.\<close>

theorem samples_cleaned_up:
  assumes "run_state (ts_main et rnd) [] = (rt, ht)" and "run_state (ds_main N e rnd) [] = (ry, hy)"
    and "run_state (wq_main N e) [] = (rw, hw)"
  shows "cleans_up (\<lambda>x. (cm_ns x, cm_name x)) 2 rt ht \<and> (CmStart \<in> set ht \<longrightarrow> last ht = CmCancel) \<and>
    cleans_up (\<lambda>x. (GetNamespace N x, GetName N x)) 2 ry hy \<and> (CmStart \<in> set hy \<longrightarrow> last hy = CmCancel) \<and>
    cleans_up (\<lambda>x. (GetNamespace N x, GetName N x)) 5 rw hw \<and>
    (CmStart \<in> set hw \<longrightarrow> (\<exists>t. hw = t @ [CmCancel, CmShutDown]))"
  using ts_main_clean [OF assms(1)] ds_main_clean [OF assms(2)] wq_main_clean [OF assms(3)] by blast

theorem samples_cleaned_up_witness:
  "fst (run_state (ds_main std_nested mem_informer ''abcdef'') []) = Ret Finished \<and>
   length (removed (snd (run_state (ds_main std_nested mem_informer ''abcdef'') []))) = 2"
proof -
  have "fst (run_state (ds_main std_nested mem_informer ''abcdef'') []) = Ret Finished" by code_simp
  moreover have "cleans_up (\<lambda>x. (GetNamespace std_nested x, GetName std_nested x)) 2
      (fst (run_state (ds_main std_nested mem_informer ''abcdef'') [])) (snd (run_state (ds_main std_nested mem_informer ''abcdef'') []))"
    using samples_cleaned_up [OF prod.collapse [symmetric] prod.collapse [symmetric] prod.collapse [symmetric]] by blast
  ultimately show ?thesis by (simp add: cleans_up_def)
qed

end
