(* ===== verification/Delta_Fifo.thy ===== *)
theory Delta_Fifo
  imports Kube_Api
begin

text \<open>
  The program \<open>src/client-go/using-deltafifo/main.go\<close>, which walks through the queue of changes of the client library. The
  queue is a parameter with the operations the program calls; \<open>fifo_law\<close> is what its documentation promises, stated over
  its content: the keys in the order of their first event, each with the events that happened to it since.

  The program keeps the objects it hands to the queue as pointers and renames one of them in between, so its two
  Deployments live in a store and the queue holds locations. Of what is printed, the counts, the keys and the events are
  kept; headings are not.
\<close>

section \<open>Definitions\<close>

datatype DeltaType = Added | Updated | Deleted | Replaced | Sync

text \<open>The pointers of the program.\<close>

datatype loc = dep1 | dep2

type_synonym deltas = "(DeltaType \<times> loc) list"

record named =
  nd_Namespace :: string
  nd_Name :: string

record 'q fifo_env =
  ff_New :: 'q
  ff_KeyFunc :: "named \<Rightarrow> go_error + string"
  ff_Put :: "DeltaType \<Rightarrow> string \<Rightarrow> loc \<Rightarrow> 'q \<Rightarrow> 'q"
  ff_ListKeys :: "'q \<Rightarrow> string list"
  ff_Pop :: "'q \<Rightarrow> (string \<times> deltas) \<times> 'q"

datatype line = NumKeys nat | Keys "string list" | Event DeltaType string string

text \<open>The key of an object is computed when an event is put into the queue; the error of an object without key is dropped.\<close>

definition fifo_put :: "'q fifo_env \<Rightarrow> DeltaType \<Rightarrow> (loc \<Rightarrow> named) \<Rightarrow> loc \<Rightarrow> 'q \<Rightarrow> 'q" where
  "fifo_put F t heap l q = (case ff_KeyFunc F (heap l) of Inl err \<Rightarrow> q | Inr k \<Rightarrow> ff_Put F t k l q)"

fun print_deltas :: "(loc \<Rightarrow> named) \<Rightarrow> deltas \<Rightarrow> line list" where
  "print_deltas heap [] = []"
| "print_deltas heap ((t, l) # ds) =
     (let deploy = heap l in
      (case t of
         Added \<Rightarrow> [Event Added (nd_Namespace deploy) (nd_Name deploy)]
       | Updated \<Rightarrow> [Event Updated (nd_Namespace deploy) (nd_Name deploy)]
       | Deleted \<Rightarrow> [Event Deleted (nd_Namespace deploy) (nd_Name deploy)]
       | _ \<Rightarrow> []) @ print_deltas heap ds)"

partial_function (option) pop_all :: "'q fifo_env \<Rightarrow> (loc \<Rightarrow> named) \<Rightarrow> 'q \<Rightarrow> line list \<Rightarrow> ('q \<times> line list) option" where
  "pop_all F heap q out =
     (if length (ff_ListKeys F q) > 0
      then (case ff_Pop F q of ((k, ds), q') \<Rightarrow> pop_all F heap q' (out @ print_deltas heap ds))
      else Some (q, out))"

definition deps :: "loc \<Rightarrow> named" where
  "deps l = (case l of
       dep1 \<Rightarrow> \<lparr>nd_Namespace = ''default'', nd_Name = ''dep1''\<rparr>
     | dep2 \<Rightarrow> \<lparr>nd_Namespace = ''default'', nd_Name = ''dep2''\<rparr>)"

definition rename :: "loc \<Rightarrow> string \<Rightarrow> (loc \<Rightarrow> named) \<Rightarrow> loc \<Rightarrow> named" where
  "rename l n heap = heap(l := (heap l)\<lparr>nd_Name := n\<rparr>)"

definition deltafifo_main :: "'q fifo_env \<Rightarrow> line list option" where
  "deltafifo_main F =
     (let q2 = fifo_put F Added deps dep2 (fifo_put F Added deps dep1 (ff_New F));
          heap = rename dep1 ''dep1-modified'' deps;
          q3 = fifo_put F Updated heap dep1 q2;
          q4 = fifo_put F Deleted heap dep1 q3
      in (case pop_all F heap q4 [] of
            None \<Rightarrow> None
          | Some (q5, out) \<Rightarrow>
              Some ([NumKeys (length (ff_ListKeys F q2)), NumKeys (length (ff_ListKeys F q3)), Keys (ff_ListKeys F q3),
                NumKeys (length (ff_ListKeys F q4))] @ out @ [NumKeys (length (ff_ListKeys F q5))])))"

subsection \<open>What the queue promises\<close>

text \<open>
  An event for a key that is waiting joins the events of that key, except that a deletion right after a deletion may be
  dropped, which is left open; a deletion of an unknown key is ignored; any other event of a new key waits at the end. \<open>Pop\<close>
  takes the first key with all its events. Keys are listed once each, in any order.
\<close>

definition after_put :: "DeltaType \<Rightarrow> string \<Rightarrow> loc \<Rightarrow> (string \<times> deltas) list \<Rightarrow> (string \<times> deltas) list" where
  "after_put t k l c =
     (if k \<in> fst ` set c then map (\<lambda>(k', ds). if k' = k then (k', ds @ [(t, l)]) else (k', ds)) c
      else if t = Deleted then c
      else c @ [(k, [(t, l)])])"

definition twice_deleted :: "DeltaType \<Rightarrow> string \<Rightarrow> (string \<times> deltas) list \<Rightarrow> bool" where
  "twice_deleted t k c \<longleftrightarrow> t = Deleted \<and> (\<exists>ds l. (k, ds @ [(Deleted, l)]) \<in> set c)"

definition fifo_law :: "'q fifo_env \<Rightarrow> ('q \<Rightarrow> (string \<times> deltas) list) \<Rightarrow> bool" where
  "fifo_law F content \<longleftrightarrow>
     content (ff_New F) = [] \<and>
     (\<forall>t k l q. \<not> twice_deleted t k (content q) \<longrightarrow> content (ff_Put F t k l q) = after_put t k l (content q)) \<and>
     (\<forall>q. distinct (ff_ListKeys F q) \<and> set (ff_ListKeys F q) = fst ` set (content q)) \<and>
     (\<forall>q x xs. content q = x # xs \<longrightarrow> (\<exists>q'. ff_Pop F q = (x, q') \<and> content q' = xs))"

definition key_law :: "'q fifo_env \<Rightarrow> bool" where
  "key_law F \<longleftrightarrow> (\<forall>x. nd_Namespace x \<noteq> '''' \<longrightarrow> ff_KeyFunc F x = Inr (nd_Namespace x @ ''/'' @ nd_Name x))"

definition list_fifo :: "(string \<times> deltas) list fifo_env" where
  "list_fifo = \<lparr>ff_New = [], ff_KeyFunc = (\<lambda>x. Inr (if nd_Namespace x = '''' then nd_Name x else nd_Namespace x @ ''/'' @ nd_Name x)),
     ff_Put = after_put, ff_ListKeys = (\<lambda>q. remdups (map fst q)),
     ff_Pop = (\<lambda>q. case q of x # xs \<Rightarrow> (x, xs) | [] \<Rightarrow> (('''', []), []))\<rparr>"

section \<open>Lemmas\<close>

text \<open>What a client of any queue that keeps its promises can rely on.\<close>

locale delta_queue =
  fixes F :: "'q fifo_env" and content :: "'q \<Rightarrow> (string \<times> deltas) list"
  assumes law: "fifo_law F content"
begin

lemma content_New [simp]: "content (ff_New F) = []"
  using law by (simp add: fifo_law_def)

lemma content_put [simp]: "\<not> twice_deleted t k (content q) \<Longrightarrow> content (ff_Put F t k l q) = after_put t k l (content q)"
  using law by (simp add: fifo_law_def)

lemma ListKeys_content: "distinct (ff_ListKeys F q)" "set (ff_ListKeys F q) = fst ` set (content q)"
  using law by (simp_all add: fifo_law_def)

lemma ListKeys_length: "distinct (map fst (content q)) \<Longrightarrow> length (ff_ListKeys F q) = length (content q)"
  using ListKeys_content [of q] distinct_card by (metis length_map set_map)

lemma pop_all_content:
  "\<exists>q'. pop_all F heap q out = Some (q', out @ concat (map (print_deltas heap \<circ> snd) (content q))) \<and> content q' = []"
proof (induction "content q" arbitrary: q out)
  case Nil
  then have "ff_ListKeys F q = []" using ListKeys_content(2) [of q] by simp
  then show ?case using Nil by (subst pop_all.simps) simp
next
  case (Cons x xs)
  obtain q' where q': "ff_Pop F q = (x, q')" "content q' = xs" using law Cons.hyps(2) unfolding fifo_law_def by metis
  have "ff_ListKeys F q \<noteq> []" using ListKeys_content(2) [of q] Cons.hyps(2) [symmetric] by auto
  then have "pop_all F heap q out = pop_all F heap q' (out @ print_deltas heap (snd x))"
    using q'(1) by (subst pop_all.simps) (simp split: prod.split)
  then show ?case using Cons.hyps(1) [of q' "out @ print_deltas heap (snd x)"] q'(2) Cons.hyps(2) [symmetric] by simp
qed

end

lemma list_fifo_laws: "fifo_law list_fifo (\<lambda>q. q)" "key_law list_fifo"
  by (simp_all add: fifo_law_def key_law_def list_fifo_def)

interpretation list_queue: delta_queue list_fifo "\<lambda>q. q"
  by unfold_locales (rule list_fifo_laws)

section \<open>Properties\<close>

text \<open>The walk through the queue ends and prints these events. Because the queue holds pointers and keys are computed when
  an event arrives, renaming \<open>dep1\<close> has two effects: its update and its deletion are filed under a third key, and the event
  that reports its addition, still filed under the old key, prints the new name. All keys are gone at the end.\<close>

theorem deltafifo_output:
  assumes "fifo_law F content" and "key_law F"
  shows "\<exists>ks. deltafifo_main F = Some
     [NumKeys 2, NumKeys 3, Keys ks, NumKeys 3,
      Event Added ''default'' ''dep1-modified'',
      Event Added ''default'' ''dep2'',
      Event Updated ''default'' ''dep1-modified'', Event Deleted ''default'' ''dep1-modified'',
      NumKeys 0] \<and>
    distinct ks \<and> set ks = {''default/dep1'', ''default/dep2'', ''default/dep1-modified''}"
proof -
  note q = delta_queue.intro [OF assms(1)]
  note simps = delta_queue.content_New [OF q] delta_queue.content_put [OF q]
  let ?h = "rename dep1 ''dep1-modified'' deps"
  let ?q2 = "fifo_put F Added deps dep2 (fifo_put F Added deps dep1 (ff_New F))"
  let ?q3 = "fifo_put F Updated ?h dep1 ?q2"
  let ?q4 = "fifo_put F Deleted ?h dep1 ?q3"
  have keys: "ff_KeyFunc F (deps dep1) = Inr ''default/dep1''" "ff_KeyFunc F (deps dep2) = Inr ''default/dep2''"
    "ff_KeyFunc F (?h dep1) = Inr ''default/dep1-modified''"
    using assms(2) by (simp_all add: key_law_def deps_def rename_def)
  have c2: "content ?q2 = [(''default/dep1'', [(Added, dep1)]), (''default/dep2'', [(Added, dep2)])]"
    by (simp add: fifo_put_def keys simps after_put_def twice_deleted_def)
  have c3: "content ?q3 = content ?q2 @ [(''default/dep1-modified'', [(Updated, dep1)])]"
    by (simp add: fifo_put_def [of F Updated] keys simps after_put_def twice_deleted_def c2)
  have c4: "content ?q4 = content ?q2 @ [(''default/dep1-modified'', [(Updated, dep1), (Deleted, dep1)])]"
    by (simp add: fifo_put_def [of F Deleted] keys simps after_put_def twice_deleted_def c2 c3)
  have len: "length (ff_ListKeys F ?q2) = 2" "length (ff_ListKeys F ?q3) = 3" "length (ff_ListKeys F ?q4) = 3"
    by (simp_all add: delta_queue.ListKeys_length [OF q] c2 c3 c4)
  obtain q5 where q5: "pop_all F ?h ?q4 [] = Some (q5, concat (map (print_deltas ?h \<circ> snd) (content ?q4)))" "content q5 = []"
    using delta_queue.pop_all_content [OF q, of ?h ?q4 "[]"] by auto
  have "length (ff_ListKeys F q5) = 0" using delta_queue.ListKeys_length [OF q, of q5] q5(2) by simp
  moreover have "concat (map (print_deltas ?h \<circ> snd) (content ?q4)) =
      [Event Added ''default'' ''dep1-modified'', Event Added ''default'' ''dep2'',
       Event Updated ''default'' ''dep1-modified'', Event Deleted ''default'' ''dep1-modified'']"
    unfolding c4 c2 by (simp add: rename_def deps_def)
  ultimately show ?thesis using q5(1) len delta_queue.ListKeys_content [OF q, of ?q3]
    by (intro exI [of _ "ff_ListKeys F ?q3"]) (auto simp: deltafifo_main_def Let_def c3 c2)
qed

theorem deltafifo_output_witness:
  "\<exists>ks. deltafifo_main list_fifo = Some
     [NumKeys 2, NumKeys 3, Keys ks, NumKeys 3,
      Event Added ''default'' ''dep1-modified'',
      Event Added ''default'' ''dep2'',
      Event Updated ''default'' ''dep1-modified'', Event Deleted ''default'' ''dep1-modified'',
      NumKeys 0]"
  using deltafifo_output [OF list_fifo_laws] by blast

end
