(* ===== verification/Reflector_Programs.thy ===== *)
theory Reflector_Programs
  imports Client_Config
begin

text \<open>
  Programs that read the local store of a reflector or an informer: \<open>src/client-go/using-reflector/main.go\<close>,
  \<open>src/client-go/using-reflector/examples/advanced_example.go\<close> and \<open>src/client-go/using-controller/main.go\<close>.

  The store is written by the library in another goroutine, so what a program reads is a history: one value for each
  moment at which it reads. The polling loops are partial functions whose value \<open>None\<close> is a loop that never ends. The
  shutdown of the advanced example, where two goroutines wait for the same signal, is a step relation.
\<close>

section \<open>Definitions\<close>

subsection \<open>Polling a store\<close>

text \<open>\<open>keys t\<close> is the answer of the read of the keys at moment \<open>t\<close>, \<open>get t k\<close> the answer of the lookup of \<open>k\<close>.\<close>

text \<open>A line is what is printed up to its newline; the key is printed with \<open>%q\<close>.\<close>

definition key_line :: "(string \<Rightarrow> string) \<Rightarrow> string \<Rightarrow> string" where
  "key_line wide k = ''Local store cached a key: '' @ go_quote wide k"

partial_function (option) poll_key :: "(string \<Rightarrow> string) \<Rightarrow> (nat \<Rightarrow> string list) \<Rightarrow> nat \<Rightarrow> string outcome option" where
  "poll_key wide keys t =
     (if length (keys t) > 0
      then Some (map_outcome (\<lambda>k. key_line wide k) (slice_at (keys (t + 1)) 0))
      else poll_key wide keys (t + 1))"

definition print_object :: "(nat \<Rightarrow> string \<Rightarrow> go_error + 'o option) \<Rightarrow> ('o \<Rightarrow> string) \<Rightarrow> nat \<Rightarrow> string outcome \<Rightarrow> string outcome" where
  "print_object get name t key =
     (case key of
        Panic p \<Rightarrow> Panic p
      | Ret k \<Rightarrow>
          (case get t k of
             Inl err \<Rightarrow> Panic (PanicErr (Error err))
           | Inr None \<Rightarrow> Panic NilDereference
           | Inr (Some obj) \<Rightarrow> Ret (''Resource name: '' @ name obj)))"

partial_function (option) poll_object ::
  "(nat \<Rightarrow> string list) \<Rightarrow> (nat \<Rightarrow> string \<Rightarrow> go_error + 'o option) \<Rightarrow> ('o \<Rightarrow> string) \<Rightarrow> nat \<Rightarrow> string outcome option" where
  "poll_object keys get name t =
     (if length (keys t) > 0
      then Some (print_object get name (t + 2) (slice_at (keys (t + 1)) 0))
      else poll_object keys get name (t + 1))"

record 'cfg store_env = "'cfg config_env" +
  se_NewForConfig :: "'cfg \<Rightarrow> go_error option"
  se_HasSynced :: bool

text \<open>The main function of the reflector program waits for the goroutine that polls.\<close>

definition reflector_main :: "'cfg store_env \<Rightarrow> (string \<Rightarrow> string) \<Rightarrow> (nat \<Rightarrow> string list) \<Rightarrow> string outcome option" where
  "reflector_main e wide keys =
     (case load_config e (env_kubeconfig e) of
        Panic p \<Rightarrow> Some (Panic p)
      | Ret config \<Rightarrow>
          (case se_NewForConfig e config of
             Some err \<Rightarrow> Some (Panic (PanicErr (Error err)))
           | None \<Rightarrow> poll_key wide keys 0))"

text \<open>The advanced example starts the same way, with a namespace of its own choice and another period (in seconds).\<close>

record reflector_conf =
  rc_resource :: string
  rc_namespace :: string
  rc_resync :: nat

definition adv_setup :: "'cfg store_env \<Rightarrow> reflector_conf outcome" where
  "adv_setup e =
     (let kubeconfig = env_kubeconfig e; namespace = flag_String e ''namespace'' '''' in
      (case load_config e kubeconfig of
         Panic p \<Rightarrow> Panic p
       | Ret config \<Rightarrow>
           (case se_NewForConfig e config of
              Some err \<Rightarrow> Panic (PanicErr (Error err))
            | None \<Rightarrow> Ret \<lparr>rc_resource = ''pods'', rc_namespace = namespace, rc_resync = 30\<rparr>)))"

text \<open>
  The controller program logs a fatal error and exits on a bad configuration, returns when the cache does not sync, and
  otherwise blocks for ever beside the goroutine that polls; a panic of that goroutine ends the process.
\<close>

datatype program_end = FatalExit string | TimedOut | Waits "string outcome option"

definition controller_main ::
  "'cfg store_env \<Rightarrow> (nat \<Rightarrow> string list) \<Rightarrow> (nat \<Rightarrow> string \<Rightarrow> go_error + 'o option) \<Rightarrow> ('o \<Rightarrow> string) \<Rightarrow> program_end" where
  "controller_main e keys get name =
     (case cf_BuildConfigFromFlags e '''' (env_kubeconfig e) of
        Inl err \<Rightarrow> FatalExit (Error err)
      | Inr config \<Rightarrow>
          (case se_NewForConfig e config of
             Some err \<Rightarrow> FatalExit (Error err)
           | None \<Rightarrow> if \<not> se_HasSynced e then TimedOut else Waits (poll_object keys get name 0)))"

text \<open>The answers come from one store whose content is \<open>st t\<close> at moment \<open>t\<close>.\<close>

definition store_reads ::
  "(nat \<Rightarrow> string list) \<Rightarrow> (nat \<Rightarrow> string \<Rightarrow> go_error + 'o option) \<Rightarrow> (nat \<Rightarrow> string \<rightharpoonup> 'o) \<Rightarrow> bool" where
  "store_reads keys get st \<longleftrightarrow> (\<forall>t. set (keys t) = dom (st t) \<and> (\<forall>k. get t k = Inr (st t k)))"

subsection \<open>Statistics\<close>

record Stats =
  sc_lastSeen :: "(string \<rightharpoonup> string) option"
  sc_podCount :: "(string \<rightharpoonup> int64) option"

definition Stats0 :: Stats where
  "Stats0 = \<lparr>sc_lastSeen = None, sc_podCount = None\<rparr>"

definition count_of :: "(string \<rightharpoonup> int64) \<Rightarrow> string \<Rightarrow> int64" where
  "count_of m k = (case m k of None \<Rightarrow> 0 | Some n \<Rightarrow> n)"

definition UpdateLastSeen :: "Stats \<Rightarrow> string \<Rightarrow> string \<Rightarrow> string \<Rightarrow> Stats outcome" where
  "UpdateLastSeen s now namespace name =
     (let s = (if sc_lastSeen s = None then s\<lparr>sc_lastSeen := Some Map.empty, sc_podCount := Some Map.empty\<rparr> else s);
          key = namespace @ ''/'' @ name
      in (case (sc_lastSeen s, sc_podCount s) of
            (Some seen, Some cnt) \<Rightarrow>
              Ret (s\<lparr>sc_lastSeen := Some (seen(key \<mapsto> now)), sc_podCount := Some (cnt(namespace \<mapsto> count_of cnt namespace + 1))\<rparr>)
          | _ \<Rightarrow> Panic (PanicErr ''assignment to entry in nil map'')))"

record stats_report =
  sr_total :: nat
  sr_by_namespace :: "string \<rightharpoonup> int64"
  sr_recent :: "(string \<times> string option) list"

definition Stats_Print :: "Stats \<Rightarrow> string list \<Rightarrow> stats_report" where
  "Stats_Print s keys = \<lparr>sr_total = length keys,
     sr_by_namespace = (case sc_podCount s of None \<Rightarrow> Map.empty | Some cnt \<Rightarrow> cnt),
     sr_recent = map (\<lambda>k. (k, case sc_lastSeen s of None \<Rightarrow> None | Some seen \<Rightarrow> seen k)) (take 5 keys)\<rparr>"

text \<open>One round of the goroutine that handles events: it looks at the first pod of the store, if there is one.\<close>

definition observe :: "Stats \<Rightarrow> string \<Rightarrow> (string \<times> string) list \<Rightarrow> Stats outcome" where
  "observe s now pods = (case pods of [] \<Rightarrow> Ret s | (namespace, name) # _ \<Rightarrow> UpdateLastSeen s now namespace name)"

fun observe_all :: "Stats \<Rightarrow> (string \<times> (string \<times> string) list) list \<Rightarrow> Stats outcome" where
  "observe_all s [] = Ret s"
| "observe_all s ((now, pods) # rounds) =
     (case observe s now pods of Panic p \<Rightarrow> Panic p | Ret s' \<Rightarrow> observe_all s' rounds)"

subsection \<open>Shutdown of the advanced example\<close>

text \<open>
  The channel of signals holds one; a signal that arrives when it is full is dropped. The main function starts the
  goroutines, sleeps, and then waits for a signal itself; another goroutine waits for a signal and closes the stop
  channel; the two other goroutines run until that channel is closed. When the main function is done the process ends.
\<close>

datatype main_state = Starting | Waiting | Stopping | Done

record shutdown =
  sd_buffered :: bool
  sd_main :: main_state
  sd_closer_waits :: bool
  sd_closed :: bool
  sd_printer :: bool
  sd_observer :: bool
  sd_signals :: nat

definition sd_init :: shutdown where
  "sd_init = \<lparr>sd_buffered = False, sd_main = Starting, sd_closer_waits = True, sd_closed = False, sd_printer = True,
     sd_observer = True, sd_signals = 0\<rparr>"

inductive sd_step :: "shutdown \<Rightarrow> shutdown \<Rightarrow> bool" where
  wait: "sd_main s = Starting \<Longrightarrow> sd_step s (s\<lparr>sd_main := Waiting\<rparr>)"
| signal: "sd_main s \<noteq> Done \<Longrightarrow> sd_step s (s\<lparr>sd_buffered := True, sd_signals := sd_signals s + 1\<rparr>)"
| recv_main: "sd_buffered s \<Longrightarrow> sd_main s = Waiting \<Longrightarrow> sd_step s (s\<lparr>sd_buffered := False, sd_main := Stopping\<rparr>)"
| recv_closer: "sd_buffered s \<Longrightarrow> sd_closer_waits s \<Longrightarrow> sd_main s \<noteq> Done \<Longrightarrow>
    sd_step s (s\<lparr>sd_buffered := False, sd_closer_waits := False, sd_closed := True\<rparr>)"
| printer_exits: "sd_closed s \<Longrightarrow> sd_printer s \<Longrightarrow> sd_main s \<noteq> Done \<Longrightarrow> sd_step s (s\<lparr>sd_printer := False\<rparr>)"
| observer_exits: "sd_closed s \<Longrightarrow> sd_observer s \<Longrightarrow> sd_main s \<noteq> Done \<Longrightarrow> sd_step s (s\<lparr>sd_observer := False\<rparr>)"
| finish: "sd_main s = Stopping \<Longrightarrow> sd_step s (s\<lparr>sd_main := Done\<rparr>)"

inductive_cases sd_stepE: "sd_step s s'"

text \<open>No step is left but the arrival of a signal.\<close>

definition only_signals :: "shutdown \<Rightarrow> bool" where
  "only_signals s \<longleftrightarrow> (\<forall>s'. sd_step s s' \<longrightarrow> sd_signals s' = sd_signals s + 1)"

section \<open>Lemmas\<close>

subsection \<open>Polling\<close>

lemma poll_key_found:
  "keys t = [] \<Longrightarrow> poll_key wide keys t = poll_key wide keys (t + 1)"
  "keys t \<noteq> [] \<Longrightarrow> poll_key wide keys t =
     Some (map_outcome (\<lambda>k. key_line wide k) (slice_at (keys (t + 1)) 0))"
  by (subst poll_key.simps; simp)+

lemma poll_object_found:
  "keys t = [] \<Longrightarrow> poll_object keys get name t = poll_object keys get name (t + 1)"
  "keys t \<noteq> [] \<Longrightarrow> poll_object keys get name t = Some (print_object get name (t + 2) (slice_at (keys (t + 1)) 0))"
  by (subst poll_object.simps; simp)+

lemma poll_skips:
  "(\<And>s. s < n \<Longrightarrow> keys (t + s) = []) \<Longrightarrow> poll_key wide keys t = poll_key wide keys (t + n)"
  "(\<And>s. s < n \<Longrightarrow> keys (t + s) = []) \<Longrightarrow> poll_object keys get name t = poll_object keys get name (t + n)"
proof (induction n)
  case (Suc n)
  {
    case 1
    then show ?case using Suc.IH(1) poll_key_found(1) [of keys "t + n"] by simp
  next
    case 2
    then show ?case using Suc.IH(2) poll_object_found(1) [of keys "t + n"] by simp
  }
qed simp_all

text \<open>A loop that returns has seen a key: a loop over an empty store never returns.\<close>

lemma poll_key_Some:
  assumes "poll_key wide keys t = Some r" shows "\<exists>s\<ge>t. keys s \<noteq> []"
proof (rule poll_key.raw_induct [OF _ assms, of "\<lambda>wide keys t r. \<exists>s\<ge>t. keys s \<noteq> []"], goal_cases)
  case (1 f wide keys t y)
  show ?case
  proof (cases "keys t = []")
    case True
    then have "\<exists>s\<ge>t + 1. keys s \<noteq> []" using 1(1) [of wide keys "t + 1" y] 1(2) by simp
    then show ?thesis by (meson add_leD1)
  qed blast
qed

lemma poll_object_Some:
  assumes "poll_object keys get name t = Some r" shows "\<exists>s\<ge>t. keys s \<noteq> []"
proof (rule poll_object.raw_induct [OF _ assms, of "\<lambda>keys get name t r. \<exists>s\<ge>t. keys s \<noteq> []"], goal_cases)
  case (1 f keys get name t y)
  show ?case
  proof (cases "keys t = []")
    case True
    then have "\<exists>s\<ge>t + 1. keys s \<noteq> []" using 1(1) [of keys get name "t + 1" y] 1(2) by simp
    then show ?thesis by (meson add_leD1)
  qed blast
qed

text \<open>With the first moment at which there is a key, the loops return.\<close>

lemma poll_at_first:
  assumes "keys T \<noteq> []" and "\<And>t. t < T \<Longrightarrow> keys t = []"
  shows "poll_key wide keys 0 = Some (map_outcome (\<lambda>k. key_line wide k) (slice_at (keys (T + 1)) 0))"
    and "poll_object keys get name 0 = Some (print_object get name (T + 2) (slice_at (keys (T + 1)) 0))"
proof -
  have "poll_key wide keys 0 = poll_key wide keys T" "poll_object keys get name 0 = poll_object keys get name T"
    using poll_skips(1) [of T keys 0] poll_skips(2) [of T keys 0 get name] assms(2) by simp_all
  then show "poll_key wide keys 0 = Some (map_outcome (\<lambda>k. key_line wide k) (slice_at (keys (T + 1)) 0))"
    and "poll_object keys get name 0 = Some (print_object get name (T + 2) (slice_at (keys (T + 1)) 0))"
    using poll_key_found(2) poll_object_found(2) assms(1) by simp_all
qed

lemma slice_at_0: "slice_at xs 0 = (case xs of [] \<Rightarrow> Panic IndexOutOfRange | x # _ \<Rightarrow> Ret x)"
  by (cases xs) (simp_all add: slice_at_def)

subsection \<open>Statistics\<close>

text \<open>The pods observed, with the time: the first of every round that found one.\<close>

fun observed :: "(string \<times> (string \<times> string) list) list \<Rightarrow> (string \<times> string \<times> string) list" where
  "observed [] = []"
| "observed ((now, []) # rounds) = observed rounds"
| "observed ((now, (ns, name) # _) # rounds) = (now, ns, name) # observed rounds"

text \<open>The statistics after a list of observations.\<close>

definition stats_ok :: "(string \<times> string \<times> string) list \<Rightarrow> Stats \<Rightarrow> bool" where
  "stats_ok obs s \<longleftrightarrow>
     (sc_lastSeen s = None \<longleftrightarrow> obs = []) \<and> (sc_podCount s = None \<longleftrightarrow> obs = []) \<and>
     (\<forall>seen. sc_lastSeen s = Some seen \<longrightarrow> seen = map_of (map (\<lambda>(now, ns, name). (ns @ ''/'' @ name, now)) (rev obs))) \<and>
     (\<forall>cnt. sc_podCount s = Some cnt \<longrightarrow>
        (\<forall>ns. cnt ns = (let n = length (filter (\<lambda>(_, ns', _). ns' = ns) obs) in if n = 0 then None else Some (of_nat n))))"

lemma stats_ok_0: "stats_ok [] Stats0"
  by (simp add: stats_ok_def Stats0_def)

lemma stats_ok_update:
  assumes "stats_ok obs s"
  shows "\<exists>s'. UpdateLastSeen s now ns name = Ret s' \<and> stats_ok (obs @ [(now, ns, name)]) s'"
proof (cases "sc_lastSeen s")
  case None
  then have "obs = []" using assms by (simp add: stats_ok_def)
  then show ?thesis using None by (auto simp: UpdateLastSeen_def Let_def stats_ok_def count_of_def)
next
  case (Some seen)
  then obtain cnt where cnt: "sc_podCount s = Some cnt" using assms by (auto simp: stats_ok_def)
  have seen: "seen = map_of (map (\<lambda>(now, ns, name). (ns @ ''/'' @ name, now)) (rev obs))"
    and c: "\<And>k. cnt k = (let n = length (filter (\<lambda>(_, ns', _). ns' = k) obs) in if n = 0 then None else Some (of_nat n))"
    using assms Some cnt by (simp_all add: stats_ok_def)
  show ?thesis using Some cnt seen
    by (auto simp: UpdateLastSeen_def Let_def stats_ok_def count_of_def c)
qed

lemma observe_all_ok:
  "stats_ok obs s \<Longrightarrow> \<exists>s'. observe_all s rounds = Ret s' \<and> stats_ok (obs @ observed rounds) s'"
proof (induction rounds arbitrary: obs s)
  case Nil
  then show ?case by simp
next
  case (Cons r rounds)
  obtain now pods where r: "r = (now, pods)" by (cases r)
  show ?case
  proof (cases pods)
    case Nil
    then show ?thesis using Cons r by (simp add: observe_def)
  next
    case (Cons p ps)
    obtain ns name where p: "p = (ns, name)" by (cases p)
    obtain s' where "UpdateLastSeen s now ns name = Ret s'" "stats_ok (obs @ [(now, ns, name)]) s'"
      using stats_ok_update Cons.prems by blast
    then show ?thesis using Cons.IH [of "obs @ [(now, ns, name)]" s'] r Cons p by (simp add: observe_def)
  qed
qed

subsection \<open>Shutdown\<close>

lemmas sd_path = rtranclp.rtrancl_into_rtrancl [of sd_step]

definition sd_inv :: "shutdown \<Rightarrow> bool" where
  "sd_inv s \<longleftrightarrow> (sd_closer_waits s \<longleftrightarrow> \<not> sd_closed s) \<and>
     (0 < sd_signals s \<and> \<not> sd_buffered s \<and> sd_main s \<in> {Starting, Waiting} \<longrightarrow> sd_closed s) \<and>
     (sd_buffered s \<longrightarrow> 0 < sd_signals s)"

lemma sd_inv_reach: "sd_step\<^sup>*\<^sup>* sd_init s \<Longrightarrow> sd_inv s"
proof (induction rule: rtranclp_induct)
  case base
  show ?case by (simp add: sd_inv_def sd_init_def)
next
  case (step s s')
  from step.hyps(2) step.IH show ?case by cases (auto simp: sd_inv_def)
qed

lemma only_signalsD:
  assumes "only_signals s" and "sd_main s \<noteq> Done"
  shows "sd_main s = Waiting \<and> \<not> sd_buffered s \<and> (sd_closed s \<longrightarrow> \<not> sd_printer s \<and> \<not> sd_observer s)"
proof -
  have n: "\<not> sd_step s s'" if "sd_signals s' = sd_signals s" for s' using assms(1) that by (auto simp: only_signals_def)
  have "sd_main s \<noteq> Starting" using n [of "s\<lparr>sd_main := Waiting\<rparr>"] wait by auto
  moreover have "sd_main s \<noteq> Stopping" using n [of "s\<lparr>sd_main := Done\<rparr>"] finish by auto
  moreover have "\<not> (sd_closed s \<and> sd_printer s)" using n [of "s\<lparr>sd_printer := False\<rparr>"] printer_exits assms(2) by auto
  moreover have "\<not> (sd_closed s \<and> sd_observer s)" using n [of "s\<lparr>sd_observer := False\<rparr>"] observer_exits assms(2) by auto
  ultimately show ?thesis
    using n [of "s\<lparr>sd_buffered := False, sd_main := Stopping\<rparr>"] recv_main [of s] assms(2) by (cases "sd_main s") auto
qed

text \<open>The two reflector programs fail to start alike, and only then does the first not poll.\<close>

lemma reflector_main_setup:
  "reflector_main e wide keys = (case adv_setup e of Panic p \<Rightarrow> Some (Panic p) | Ret conf \<Rightarrow> poll_key wide keys 0)"
  by (simp add: reflector_main_def adv_setup_def split: outcome.split option.split)

section \<open>Properties\<close>

text \<open>C37. The polling loops end exactly when the store is filled at some moment, and their result is determined by the first
  such moment: they read the keys a second time, so they panic when the store is empty again by then, and the controller
  program dereferences nil when the object is gone at the lookup. When the store never loses a key they print one, the
  reflector program in quotes and escaped, which for a key of plain ASCII characters only puts it between quotes.\<close>

theorem poll_liveness:
  assumes "store_reads keys get st"
  shows "((\<exists>r. poll_key wide keys 0 = Some r) \<longleftrightarrow> (\<exists>t. st t \<noteq> Map.empty)) \<and>
    ((\<exists>r. poll_object keys get name 0 = Some r) \<longleftrightarrow> (\<exists>t. st t \<noteq> Map.empty)) \<and>
    (\<forall>T. st T \<noteq> Map.empty \<and> (\<forall>t<T. st t = Map.empty) \<longrightarrow>
       (case keys (T + 1) of
          [] \<Rightarrow> poll_key wide keys 0 = Some (Panic IndexOutOfRange) \<and> poll_object keys get name 0 = Some (Panic IndexOutOfRange)
        | k # _ \<Rightarrow> poll_key wide keys 0 = Some (Ret (key_line wide k)) \<and>
            poll_object keys get name 0 = Some (case st (T + 2) k of
               None \<Rightarrow> Panic NilDereference | Some obj \<Rightarrow> Ret (''Resource name: '' @ name obj)))) \<and>
    ((\<exists>t. st t \<noteq> Map.empty) \<and> (\<forall>t. dom (st t) \<subseteq> dom (st (t + 1))) \<longrightarrow>
       (\<exists>a b. poll_key wide keys 0 = Some (Ret a) \<and> poll_object keys get name 0 = Some (Ret b))) \<and>
    (\<forall>k. list_all plain_char k \<longrightarrow> key_line wide k = ''Local store cached a key: \"'' @ k @ ''\"'')"
proof -
  have empty: "keys t = [] \<longleftrightarrow> st t = Map.empty" for t
    using assms unfolding store_reads_def by (metis dom_eq_empty_conv set_empty)
  have get: "get t k = Inr (st t k)" for t k using assms by (simp add: store_reads_def)
  have first: "\<exists>T. st T \<noteq> Map.empty \<and> (\<forall>t<T. st t = Map.empty)" if "st t \<noteq> Map.empty" for t
    using that exists_least_iff [of "\<lambda>t. st t \<noteq> Map.empty"] by blast
  have result: "case keys (T + 1) of
          [] \<Rightarrow> poll_key wide keys 0 = Some (Panic IndexOutOfRange) \<and> poll_object keys get name 0 = Some (Panic IndexOutOfRange)
        | k # _ \<Rightarrow> poll_key wide keys 0 = Some (Ret (key_line wide k)) \<and>
            poll_object keys get name 0 = Some (case st (T + 2) k of
               None \<Rightarrow> Panic NilDereference | Some obj \<Rightarrow> Ret (''Resource name: '' @ name obj))"
    if "st T \<noteq> Map.empty \<and> (\<forall>t<T. st t = Map.empty)" for T
  proof -
    have "keys T \<noteq> []" "\<forall>t<T. keys t = []" using that empty by auto
    then show ?thesis using poll_at_first(1) [of keys T] poll_at_first(2) [of keys T get name]
      by (cases "keys (T + 1)") (simp_all add: slice_at_0 print_object_def get split: option.split)
  qed
  have ends: "(\<exists>r. poll_key wide keys 0 = Some r) \<and> (\<exists>r. poll_object keys get name 0 = Some r)" if t: "st t \<noteq> Map.empty" for t
  proof -
    obtain T where "st T \<noteq> Map.empty \<and> (\<forall>t<T. st t = Map.empty)" using first [OF t] by blast
    from result [OF this] show ?thesis by (cases "keys (T + 1)") auto
  qed
  have "\<exists>a b. poll_key wide keys 0 = Some (Ret a) \<and> poll_object keys get name 0 = Some (Ret b)"
    if t: "st t \<noteq> Map.empty" and mono: "\<forall>t. dom (st t) \<subseteq> dom (st (t + 1))" for t
  proof -
    obtain T where T: "st T \<noteq> Map.empty \<and> (\<forall>t<T. st t = Map.empty)" using first [OF t] by blast
    have "keys (T + 1) \<noteq> []" using empty T mono by (metis dom_eq_empty_conv subset_empty)
    then obtain k ks where k: "keys (T + 1) = k # ks" by (cases "keys (T + 1)") auto
    then have "k \<in> dom (st (T + 1))" using assms unfolding store_reads_def by (metis list.set_intros(1))
    then have "k \<in> dom (st (T + 2))" using mono [rule_format, of "T + 1"] by auto
    then show ?thesis using result [OF T] k by auto
  qed
  moreover have "\<forall>k. list_all plain_char k \<longrightarrow> key_line wide k = ''Local store cached a key: \"'' @ k @ ''\"''"
    by (simp add: key_line_def quote_plain)
  ultimately show ?thesis using ends result poll_key_Some [of wide keys 0] poll_object_Some [of keys get name 0] empty by blast
qed

theorem poll_liveness_witness:
  "\<exists>keys get. store_reads keys get (\<lambda>t. if t < 3 then Map.empty else [''default/web'' \<mapsto> ''web'']) \<and>
     (\<exists>a b. poll_key id keys 0 = Some (Ret a) \<and> poll_object keys get id 0 = Some (Ret b)) \<and>
     key_line id ''default/web'' = ''Local store cached a key: \"default/web\"''"
proof -
  let ?st = "\<lambda>t :: nat. if t < 3 then Map.empty else [''default/web'' \<mapsto> ''web'']"
  let ?keys = "\<lambda>t :: nat. if t < 3 then [] else [''default/web'']" and ?get = "\<lambda>t k. Inr (?st t k)"
  have r: "store_reads ?keys ?get ?st" by (simp add: store_reads_def)
  moreover have "?st 3 \<noteq> Map.empty" "\<forall>t. dom (?st t) \<subseteq> dom (?st (t + 1))" by simp_all
  ultimately have "\<exists>a b. poll_key id ?keys 0 = Some (Ret a) \<and> poll_object ?keys ?get id 0 = Some (Ret b)"
    using poll_liveness [OF r, of id] by blast
  moreover have "list_all plain_char ''default/web''" by (simp add: plain_char_def)
  then have "key_line id ''default/web'' = ''Local store cached a key: \"default/web\"''"
    using poll_liveness [OF r, of id] by simp
  ultimately show ?thesis using r by blast
qed

text \<open>The statistics never panic, and they count observations: after any rounds of the event goroutine, the number
  shown for a namespace is how often a pod of it was first in the store (in 64 bits), not how many pods it has, and the time
  shown for a key is that of its last observation. The total is the number of keys in the store; at most five are shown.\<close>

theorem stats_count_observations:
  "\<exists>s. observe_all Stats0 rounds = Ret s \<and>
     (\<forall>keys. Stats_Print s keys =
        \<lparr>sr_total = length keys,
         sr_by_namespace = (\<lambda>ns. let n = length (filter (\<lambda>(_, ns', _). ns' = ns) (observed rounds)) in
            if n = 0 then None else Some (of_nat n)),
         sr_recent = map (\<lambda>k. (k, map_of (map (\<lambda>(now, ns, name). (ns @ ''/'' @ name, now)) (rev (observed rounds))) k))
           (take 5 keys)\<rparr>)"
proof -
  obtain s where s: "observe_all Stats0 rounds = Ret s" "stats_ok (observed rounds) s"
    using observe_all_ok [OF stats_ok_0] by auto
  show ?thesis
  proof (cases "observed rounds = []")
    case True
    then show ?thesis using s by (auto simp: stats_ok_def Stats_Print_def Let_def)
  next
    case False
    then obtain seen cnt where "sc_lastSeen s = Some seen" "sc_podCount s = Some cnt"
      using s(2) by (auto simp: stats_ok_def)
    then show ?thesis using s by (auto simp: stats_ok_def Stats_Print_def Let_def)
  qed
qed

text \<open>C38. One signal need not stop the advanced example. Two goroutines receive from the channel of signals, and when the one
  that closes the stop channel wins, everything but the main function stops and only another signal can end the process;
  when the main function wins, the process ends with the stop channel still open. A process in which nothing but a signal
  can happen either is still waiting for its first signal or is in that half-stopped state.\<close>

theorem shutdown_race:
  "(\<exists>s. sd_step\<^sup>*\<^sup>* sd_init s \<and> sd_signals s = 1 \<and> sd_main s = Waiting \<and> sd_closed s \<and> \<not> sd_printer s \<and> \<not> sd_observer s \<and>
      only_signals s) \<and>
   (\<exists>s. sd_step\<^sup>*\<^sup>* sd_init s \<and> sd_signals s = 1 \<and> sd_main s = Done \<and> \<not> sd_closed s) \<and>
   (\<forall>s. sd_step\<^sup>*\<^sup>* sd_init s \<and> only_signals s \<and> sd_main s \<noteq> Done \<longrightarrow>
      sd_main s = Waiting \<and> (sd_signals s = 0 \<or> sd_closed s \<and> \<not> sd_printer s \<and> \<not> sd_observer s))"
proof (intro conjI allI impI)
  let ?s1 = "sd_init\<lparr>sd_main := Waiting\<rparr>"
  let ?s2 = "?s1\<lparr>sd_buffered := True, sd_signals := sd_signals ?s1 + 1\<rparr>"
  let ?s3 = "?s2\<lparr>sd_buffered := False, sd_closer_waits := False, sd_closed := True\<rparr>"
  let ?s5 = "?s3\<lparr>sd_printer := False\<rparr>\<lparr>sd_observer := False\<rparr>"
  have s2: "sd_step\<^sup>*\<^sup>* sd_init ?s2"
    by (intro sd_path [OF sd_path [OF rtranclp.rtrancl_refl wait] signal]) (simp_all add: sd_init_def)
  have "sd_step\<^sup>*\<^sup>* sd_init ?s5"
    by (intro sd_path [OF sd_path [OF sd_path [OF s2 recv_closer] printer_exits] observer_exits]) (simp_all add: sd_init_def)
  moreover have "only_signals ?s5"
    unfolding only_signals_def by (auto elim!: sd_stepE simp: sd_init_def)
  ultimately show "\<exists>s. sd_step\<^sup>*\<^sup>* sd_init s \<and> sd_signals s = 1 \<and> sd_main s = Waiting \<and> sd_closed s \<and> \<not> sd_printer s \<and>
      \<not> sd_observer s \<and> only_signals s"
    by (intro exI [of _ ?s5]) (simp add: sd_init_def)
  have "sd_step\<^sup>*\<^sup>* sd_init (?s2\<lparr>sd_buffered := False, sd_main := Stopping\<rparr>\<lparr>sd_main := Done\<rparr>)"
    by (intro sd_path [OF sd_path [OF s2 recv_main] finish]) (simp_all add: sd_init_def)
  then show "\<exists>s. sd_step\<^sup>*\<^sup>* sd_init s \<and> sd_signals s = 1 \<and> sd_main s = Done \<and> \<not> sd_closed s"
    by (intro exI [of _ "?s2\<lparr>sd_buffered := False, sd_main := Stopping\<rparr>\<lparr>sd_main := Done\<rparr>"]) (simp add: sd_init_def)
next
  fix s
  assume s: "sd_step\<^sup>*\<^sup>* sd_init s \<and> only_signals s \<and> sd_main s \<noteq> Done"
  note w = only_signalsD [of s]
  show "sd_main s = Waiting" using s w by blast
  show "sd_signals s = 0 \<or> sd_closed s \<and> \<not> sd_printer s \<and> \<not> sd_observer s"
    using s w sd_inv_reach [of s] by (auto simp: sd_inv_def)
qed

theorem shutdown_race_witness:
  "\<exists>s. sd_step\<^sup>*\<^sup>* sd_init s \<and> only_signals s \<and> sd_main s \<noteq> Done \<and> sd_signals s = 1 \<and> \<not> sd_printer s"
  using shutdown_race by fastforce

end
