(* ===== verification/Json_Patch.thy ===== *)
theory Json_Patch
  imports Go_Prelude "HOL-Library.Char_ord" "HOL-Library.List_Lexorder" "HOL-Library.Multiset"
begin

text \<open>
  The JSON Patch operations both hand-written webhooks build
  (\<open>patchOperation\<close> in \<open>src/webhook/using-byhand/by-service/webhook.go\<close> and
  \<open>src/webhook/using-byhand/by-baremetal/main.go\<close>), the bytes \<open>json.Marshal\<close> gives for them, and the
  effect of such a patch on the annotations and labels of an object as RFC 6902 defines it.

  Strings are taken to be ASCII. As in \<open>encoding/json\<close>, map keys are written in sorted order, quotes,
  backslashes and control characters are escaped, and so are the characters less-than, greater-than and
  ampersand. The lemmas show that the bytes do not depend on the order in which a map is visited and that
  they determine the patch.
\<close>

section \<open>Definitions\<close>

datatype patch_value = StrVal string | MapVal entries

record patchOperation =
  Op :: string
  Path :: string
  Value :: patch_value

subsection \<open>Encoding\<close>

abbreviation dquote :: char where "dquote \<equiv> CHR 0x22"

abbreviation backslash :: char where "backslash \<equiv> CHR 0x5C"

definition hex_digit :: "nat \<Rightarrow> char" where
  "hex_digit n = (if n < 10 then char_of (48 + n) else char_of (87 + n))"

definition json_escape_char :: "char \<Rightarrow> string" where
  "json_escape_char c =
     (let n = of_char c :: nat in
      if n = 34 then [backslash, dquote]
      else if n = 92 then [backslash, backslash]
      else if n = 8 then [backslash, CHR ''b'']
      else if n = 9 then [backslash, CHR ''t'']
      else if n = 10 then [backslash, CHR ''n'']
      else if n = 12 then [backslash, CHR ''f'']
      else if n = 13 then [backslash, CHR ''r'']
      else if n < 32 \<or> n = 38 \<or> n = 60 \<or> n = 62 then
        [backslash, CHR ''u'', CHR ''0'', CHR ''0'', hex_digit (n div 16), hex_digit (n mod 16)]
      else [c])"

definition json_string :: "string \<Rightarrow> string" where
  "json_string s = dquote # concat (map json_escape_char s) @ [dquote]"

fun json_members :: "entries \<Rightarrow> string" where
  "json_members [] = ''''"
| "json_members [(k, v)] = json_string k @ '':'' @ json_string v"
| "json_members ((k, v) # es) = json_string k @ '':'' @ json_string v @ '','' @ json_members es"

definition json_map :: "entries \<Rightarrow> string" where
  "json_map es = ''{'' @ json_members (sort_key fst es) @ ''}''"

fun json_value :: "patch_value \<Rightarrow> string" where
  "json_value (StrVal s) = json_string s"
| "json_value (MapVal es) = json_map es"

definition json_op :: "patchOperation \<Rightarrow> string" where
  "json_op p = ''{'' @ json_string ''op'' @ '':'' @ json_string (Op p) @ '','' @ json_string ''path'' @ '':'' @
     json_string (Path p) @ '','' @ json_string ''value'' @ '':'' @ json_value (Value p) @ ''}''"

fun json_ops :: "patchOperation list \<Rightarrow> string" where
  "json_ops [] = '''' "
| "json_ops [p] = json_op p"
| "json_ops (p # ps) = json_op p @ '','' @ json_ops ps"

definition Marshal_patch :: "patchOperation list \<Rightarrow> string" where
  "Marshal_patch ps = ''['' @ json_ops ps @ '']''"

text \<open>A patch with the entries of its maps in the order of their keys.\<close>

fun norm_value :: "patch_value \<Rightarrow> patch_value" where
  "norm_value (StrVal s) = StrVal s"
| "norm_value (MapVal es) = MapVal (sort_key fst es)"

definition norm_patch :: "patchOperation list \<Rightarrow> patchOperation list" where
  "norm_patch ps = map (\<lambda>p. p\<lparr>Value := norm_value (Value p)\<rparr>) ps"

subsection \<open>Effect of a patch\<close>

text \<open>The operation add on an existing member replaces the member as a whole. Other operations and paths
  are not interpreted.\<close>

record marks =
  mk_annotations :: strmap
  mk_labels :: strmap

definition apply_op :: "patchOperation \<Rightarrow> marks \<Rightarrow> marks option" where
  "apply_op p m =
     (case Value p of
        MapVal es \<Rightarrow>
          if Op p = ''add'' \<and> Path p = ''/metadata/annotations'' then Some (m\<lparr>mk_annotations := Some es\<rparr>)
          else if Op p = ''add'' \<and> Path p = ''/metadata/labels'' then Some (m\<lparr>mk_labels := Some es\<rparr>)
          else None
      | StrVal s \<Rightarrow> None)"

fun apply_patch :: "patchOperation list \<Rightarrow> marks \<Rightarrow> marks option" where
  "apply_patch [] m = Some m"
| "apply_patch (p # ps) m = (case apply_op p m of None \<Rightarrow> None | Some m' \<Rightarrow> apply_patch ps m')"

subsection \<open>Reading an escaped string back\<close>

definition unhex :: "char \<Rightarrow> nat" where
  "unhex c = (let n = of_char c :: nat in if n < 58 then n - 48 else n - 87)"

definition unescape1 :: "char \<Rightarrow> char" where
  "unescape1 c = (if c = CHR ''b'' then char_of (8::nat) else if c = CHR ''t'' then char_of (9::nat)
     else if c = CHR ''n'' then char_of (10::nat) else if c = CHR ''f'' then char_of (12::nat)
     else if c = CHR ''r'' then char_of (13::nat) else c)"

fun json_scan :: "string \<Rightarrow> (string \<times> string) option" where
  "json_scan [] = None"
| "json_scan (c # cs) =
     (if c = dquote then Some ([], cs)
      else if c = backslash then
        (case cs of
           [] \<Rightarrow> None
         | d # ds \<Rightarrow>
             if d = CHR ''u'' then
               (case ds of
                  z1 # z2 # x # y # r \<Rightarrow>
                    map_option (\<lambda>(s, t). (char_of (16 * unhex x + unhex y) # s, t)) (json_scan r)
                | _ \<Rightarrow> None)
             else map_option (\<lambda>(s, t). (unescape1 d # s, t)) (json_scan ds))
      else map_option (\<lambda>(s, t). (c # s, t)) (json_scan cs))"

subsection \<open>Reading a patch back\<close>

text \<open>A reader of the text that \<open>Marshal_patch\<close> writes, as a server that receives the patch has one. The number bounds
  how many members or operations are read; the length of the text is always enough.\<close>

fun expect :: "string \<Rightarrow> string \<Rightarrow> string option" where
  "expect [] s = Some s"
| "expect (c # cs) [] = None"
| "expect (c # cs) (d # ds) = (if c = d then expect cs ds else None)"

definition parse_string :: "string \<Rightarrow> (string \<times> string) option" where
  "parse_string s = Option.bind (expect [dquote] s) json_scan"

fun parse_members :: "nat \<Rightarrow> string \<Rightarrow> (entries \<times> string) option" where
  "parse_members 0 s = None"
| "parse_members (Suc n) s =
     (case expect ''}'' s of
        Some r \<Rightarrow> Some ([], r)
      | None \<Rightarrow> do {
          (k, s1) \<leftarrow> parse_string s;
          s2 \<leftarrow> expect '':'' s1;
          (v, s3) \<leftarrow> parse_string s2;
          (case expect '','' s3 of
             Some r \<Rightarrow> do { (es, t) \<leftarrow> parse_members n r; Some ((k, v) # es, t) }
           | None \<Rightarrow> do { t \<leftarrow> expect ''}'' s3; Some ([(k, v)], t) })
        })"

definition parse_value :: "string \<Rightarrow> (patch_value \<times> string) option" where
  "parse_value s =
     (case expect ''{'' s of
        Some r \<Rightarrow> map_option (\<lambda>(es, t). (MapVal es, t)) (parse_members (length r) r)
      | None \<Rightarrow> map_option (\<lambda>(v, t). (StrVal v, t)) (parse_string s))"

definition parse_op :: "string \<Rightarrow> (patchOperation \<times> string) option" where
  "parse_op s = do {
     s1 \<leftarrow> expect (''{'' @ json_string ''op'' @ '':'') s;
     (ope, s2) \<leftarrow> parse_string s1;
     s3 \<leftarrow> expect ('','' @ json_string ''path'' @ '':'') s2;
     (pth, s4) \<leftarrow> parse_string s3;
     s5 \<leftarrow> expect ('','' @ json_string ''value'' @ '':'') s4;
     (val, s6) \<leftarrow> parse_value s5;
     t \<leftarrow> expect ''}'' s6;
     Some (\<lparr>Op = ope, Path = pth, Value = val\<rparr>, t)
   }"

fun parse_ops :: "nat \<Rightarrow> string \<Rightarrow> (patchOperation list \<times> string) option" where
  "parse_ops 0 s = None"
| "parse_ops (Suc n) s =
     (case expect '']'' s of
        Some r \<Rightarrow> Some ([], r)
      | None \<Rightarrow> do {
          (p, s1) \<leftarrow> parse_op s;
          (case expect '','' s1 of
             Some r \<Rightarrow> do { (ps, t) \<leftarrow> parse_ops n r; Some (p # ps, t) }
           | None \<Rightarrow> do { t \<leftarrow> expect '']'' s1; Some ([p], t) })
        })"

definition parse_patch :: "string \<Rightarrow> patchOperation list option" where
  "parse_patch s = do {
     r \<leftarrow> expect ''['' s;
     (ps, t) \<leftarrow> parse_ops (length r) r;
     (if t = '''' then Some ps else None)
   }"

section \<open>Lemmas\<close>

lemma unhex_digit: "n < 16 \<Longrightarrow> unhex (hex_digit n) = n"
  by (auto simp: unhex_def hex_digit_def Let_def)

lemma char_eq_of_nat: "c = d \<longleftrightarrow> (of_char c :: nat) = of_char d"
  by (metis char_of_char)

lemma scan_escape_char:
  assumes "json_scan r = Some (s, t)"
  shows "json_scan (json_escape_char c @ r) = Some (c # s, t)"
proof -
  define n where "n = (of_char c :: nat)"
  have c: "c = char_of n" by (simp add: n_def)
  have n: "n < 256" unfolding n_def by (rule nat_of_char_less_256)
  have q: "char_of (34::nat) = dquote" "char_of (92::nat) = backslash"
    by (simp_all add: char_eq_of_nat)
  consider "n \<in> {34, 92, 8, 9, 10, 12, 13}" | "n < 32 \<or> n = 38 \<or> n = 60 \<or> n = 62" "n \<notin> {34, 92, 8, 9, 10, 12, 13}"
    | "\<not> (n < 32 \<or> n = 38 \<or> n = 60 \<or> n = 62)" "n \<notin> {34, 92, 8, 9, 10, 12, 13}"
    by blast
  then show ?thesis
  proof cases
    case 1
    then show ?thesis
      using assms unfolding json_escape_char_def n_def [symmetric] c
      by (auto simp: unescape1_def Let_def q)
  next
    case 2
    then have "n div 16 < 16" "n mod 16 < 16" using n by auto
    then show ?thesis
      using assms 2 unfolding json_escape_char_def n_def [symmetric]
      by (auto simp: Let_def unhex_digit c)
  next
    case 3
    then have "c \<noteq> dquote" "c \<noteq> backslash"
      unfolding char_eq_of_nat n_def [symmetric] by auto
    then show ?thesis
      using assms 3 unfolding json_escape_char_def n_def [symmetric] by (auto simp: Let_def)
  qed
qed

lemma json_scan_string: "json_scan (concat (map json_escape_char s) @ dquote # r) = Some (s, r)"
  by (induction s) (auto intro: scan_escape_char)

text \<open>An encoded string is recognised in front of any text.\<close>

lemma json_string_split: "json_string s @ r = json_string t @ r' \<longleftrightarrow> s = t \<and> r = r'"
proof
  assume "json_string s @ r = json_string t @ r'"
  then have "concat (map json_escape_char s) @ dquote # r = concat (map json_escape_char t) @ dquote # r'"
    by (simp add: json_string_def)
  then have "json_scan (concat (map json_escape_char s) @ dquote # r) =
      json_scan (concat (map json_escape_char t) @ dquote # r')" by simp
  then show "s = t \<and> r = r'" by (simp add: json_scan_string)
qed simp

lemma json_string_hd [simp]: "json_string s \<noteq> []" "hd (json_string s) = dquote"
  by (simp_all add: json_string_def)

lemma json_members_Cons:
  "json_members ((k, v) # es) = json_string k @ '':'' @ json_string v @ (if es = [] then '''' else '','' @ json_members es)"
  by (cases es) auto

lemma json_string_not_brace: "json_string s @ r \<noteq> CHR ''}'' # r'"
  by (simp add: json_string_def)

lemma json_members_split:
  "json_members es @ ''}'' @ r = json_members fs @ ''}'' @ r' \<Longrightarrow> es = fs \<and> r = r'"
proof (induction es arbitrary: fs)
  case Nil
  then show ?case
    by (cases fs) (auto simp: json_members_Cons json_string_not_brace [symmetric])
next
  case (Cons e es)
  obtain k v where e: "e = (k, v)" by fastforce
  show ?case
  proof (cases fs)
    case Nil
    with Cons.prems e show ?thesis by (auto simp: json_members_Cons json_string_not_brace)
  next
    case (Cons f fs')
    obtain k' v' where f: "f = (k', v')" by fastforce
    from Cons.prems Cons e f have kv: "k = k'" "v = v'"
      and rest: "(if es = [] then '''' else '','' @ json_members es) @ ''}'' @ r =
        (if fs' = [] then '''' else '','' @ json_members fs') @ ''}'' @ r'"
      by (auto simp: json_members_Cons json_string_split)
    show ?thesis
    proof (cases "es = [] \<or> fs' = []")
      case True
      with rest kv Cons e f show ?thesis by (auto split: if_splits)
    next
      case False
      with rest Cons.IH [of fs'] kv Cons e f show ?thesis by simp
    qed
  qed
qed

lemma json_map_split: "json_map es @ r = json_map fs @ r' \<Longrightarrow> sort_key fst es = sort_key fst fs \<and> r = r'"
  unfolding json_map_def using json_members_split by fastforce

lemma json_value_split:
  assumes "json_value v @ r = json_value w @ r'"
  shows "norm_value v = norm_value w \<and> r = r'"
proof (cases v)
  case (StrVal s)
  with assms show ?thesis
    by (cases w) (auto simp: json_string_split, simp_all add: json_map_def json_string_def)
next
  case (MapVal es)
  with assms show ?thesis
    by (cases w) (auto dest: json_map_split, simp_all add: json_map_def json_string_def)
qed

lemma json_op_split:
  assumes "json_op p @ r = json_op q @ r'"
  shows "p\<lparr>Value := norm_value (Value p)\<rparr> = q\<lparr>Value := norm_value (Value q)\<rparr> \<and> r = r'"
proof -
  have "Op p = Op q" "Path p = Path q" "json_value (Value p) @ ''}'' @ r = json_value (Value q) @ ''}'' @ r'"
    using assms by (auto simp: json_op_def json_string_split)
  with json_value_split [OF this(3)] show ?thesis by (cases p; cases q) auto
qed

lemma json_op_not_bracket: "json_op p @ r \<noteq> CHR '']'' # r'"
  by (simp add: json_op_def)

lemma json_ops_Cons: "json_ops (p # ps) = json_op p @ (if ps = [] then '''' else '','' @ json_ops ps)"
  by (cases ps) auto

lemma json_ops_split: "json_ops ps @ '']'' = json_ops qs @ '']'' \<Longrightarrow> norm_patch ps = norm_patch qs"
proof (induction ps arbitrary: qs)
  case Nil
  then show ?case by (cases qs) (auto simp: json_ops_Cons json_op_not_bracket [symmetric] norm_patch_def)
next
  case (Cons p ps)
  show ?case
  proof (cases qs)
    case Nil
    with Cons.prems show ?thesis by (auto simp: json_ops_Cons json_op_not_bracket)
  next
    case (Cons q qs')
    have "json_op p @ (if ps = [] then '''' else '','' @ json_ops ps) @ '']'' =
        json_op q @ (if qs' = [] then '''' else '','' @ json_ops qs') @ '']''"
      using Cons.prems Cons by (simp add: json_ops_Cons)
    from json_op_split [OF this]
    have pq: "p\<lparr>Value := norm_value (Value p)\<rparr> = q\<lparr>Value := norm_value (Value q)\<rparr>"
      and rest: "(if ps = [] then '''' else '','' @ json_ops ps) @ '']'' =
        (if qs' = [] then '''' else '','' @ json_ops qs') @ '']''" by auto
    show ?thesis
    proof (cases "ps = [] \<or> qs' = []")
      case True
      with rest have "ps = [] \<and> qs' = []" by (auto split: if_splits)
      with pq Cons show ?thesis by (simp add: norm_patch_def)
    next
      case False
      with rest have "json_ops ps @ '']'' = json_ops qs' @ '']''" by simp
      from Cons.IH [OF this] pq Cons show ?thesis by (simp add: norm_patch_def)
    qed
  qed
qed

text \<open>The order in which a map is visited leaves no trace in the bytes.\<close>

lemma sort_key_fst_perm:
  "mset xs = mset ys \<Longrightarrow> distinct (map fst xs) \<Longrightarrow> sort_key fst xs = sort_key fst ys"
  by (rule sort_key_inj_key_eq) (auto simp: distinct_map)

lemma sort_key_fst_idem: "sort_key fst (sort_key fst xs) = (sort_key fst xs :: entries)"
  by (simp add: sort_key_id_if_sorted)

lemma json_map_perm: "mset xs = mset ys \<Longrightarrow> distinct (map fst xs) \<Longrightarrow> json_map xs = json_map ys"
  by (simp add: json_map_def sort_key_fst_perm)

lemma json_op_norm: "json_op (p\<lparr>Value := norm_value (Value p)\<rparr>) = json_op p"
  by (cases "Value p") (simp_all add: json_op_def json_map_def sort_key_fst_idem)

lemma json_ops_norm: "json_ops (norm_patch ps) = json_ops ps"
  unfolding norm_patch_def by (induction ps) (auto simp: json_ops_Cons json_op_norm)

text \<open>The bytes of a patch determine the patch: two patches are encoded alike exactly when they are equal
  up to the order of the entries of their maps, whatever characters their strings hold.\<close>

lemma Marshal_patch_injective:
  "Marshal_patch ps = Marshal_patch qs \<longleftrightarrow> norm_patch ps = norm_patch qs"
proof
  assume "Marshal_patch ps = Marshal_patch qs"
  then show "norm_patch ps = norm_patch qs" by (intro json_ops_split) (simp add: Marshal_patch_def)
next
  assume "norm_patch ps = norm_patch qs"
  then show "Marshal_patch ps = Marshal_patch qs" unfolding Marshal_patch_def by (metis json_ops_norm)
qed

text \<open>Reading back what was written gives the patch with its maps in the order of their keys.\<close>

lemma expect_append [simp]: "expect p (p @ s) = Some s"
  by (induction p) auto

lemma parse_string_text [simp]: "parse_string (json_string v @ r) = Some (v, r)"
  by (simp add: parse_string_def json_string_def json_scan_string)

lemma expect_string [simp]: "c \<noteq> dquote \<Longrightarrow> expect (c # cs) (json_string v @ r) = None"
  by (simp add: json_string_def)

lemma parse_members_text: "length es < n \<Longrightarrow> parse_members n (json_members es @ CHR ''}'' # r) = Some (es, r)"
proof (induction es arbitrary: n)
  case Nil
  then show ?case by (cases n) auto
next
  case (Cons e es)
  obtain k v where e: "e = (k, v)" by fastforce
  obtain m where n: "n = Suc m" using Cons.prems by (cases n) auto
  have "expect ''}'' (json_string k @ t) = None" for t by simp
  with Cons show ?case by (cases es) (auto simp: e n)
qed

lemma length_json_members: "length es \<le> length (json_members es)"
  by (induction es rule: json_members.induct) (auto simp: json_string_def)

lemma parse_value_text: "parse_value (json_value v @ CHR ''}'' # r) = Some (norm_value v, CHR ''}'' # r)"
proof (cases v)
  case (StrVal s)
  then show ?thesis by (simp add: parse_value_def)
next
  case (MapVal es)
  have "length (sort_key fst es) < length (json_members (sort_key fst es) @ ''}'' @ CHR ''}'' # r)"
    using length_json_members [of "sort_key fst es"] by simp
  with MapVal show ?thesis by (simp add: parse_value_def json_map_def parse_members_text del: parse_members.simps)
qed

lemma parse_op_text: "parse_op (json_op p @ r) = Some (p\<lparr>Value := norm_value (Value p)\<rparr>, r)"
proof -
  have "json_op p @ r = (''{'' @ json_string ''op'' @ '':'') @ json_string (Op p) @ ('','' @ json_string ''path'' @ '':'') @
      json_string (Path p) @ ('','' @ json_string ''value'' @ '':'') @ json_value (Value p) @ CHR ''}'' # r"
    by (simp add: json_op_def)
  then show ?thesis by (simp only: parse_op_def expect_append parse_string_text parse_value_text bind.simps prod.case) simp
qed

lemma parse_ops_text: "length ps < n \<Longrightarrow> parse_ops n (json_ops ps @ '']'') = Some (norm_patch ps, '''')"
proof (induction ps arbitrary: n)
  case Nil
  then show ?case by (cases n) (auto simp: norm_patch_def)
next
  case (Cons p ps)
  obtain m where n: "n = Suc m" using Cons.prems by (cases n) auto
  have "expect '']'' (json_op p @ t) = None" for t by (simp add: json_op_def)
  with Cons parse_op_text [of p] show ?case by (cases ps) (auto simp: n norm_patch_def)
qed

lemma length_json_ops: "length ps \<le> length (json_ops ps)"
  by (induction ps rule: json_ops.induct) (auto simp: json_op_def)

lemma parse_patch_Marshal: "parse_patch (Marshal_patch ps) = Some (norm_patch ps)"
  using length_json_ops [of ps] by (simp add: parse_patch_def Marshal_patch_def parse_ops_text del: parse_ops.simps)

end
