(* ===== verification/Admission_Webhook.thy ===== *)
theory Admission_Webhook
  imports Kube_Api Json_Patch
begin

text \<open>
  The admission webhook of \<open>src/webhook/using-byhand/by-service/webhook.go\<close>: which objects need
  admission, the patch that marks an object as mutated and adds the recommended labels, the validation of
  the required labels, and the HTTP handler.

  Decoding of requests and of Deployments and Services is done by Kubernetes libraries and is a parameter
  (\<open>webhook_env\<close>), as are the order in which a map is ranged over and the result of writing the response.
\<close>

section \<open>Definitions\<close>

subsection \<open>Policy\<close>

definition ignoredNamespaces :: "string list" where
  "ignoredNamespaces = [''kube-system'', ''kube-public'']"

definition nameLabel :: string where "nameLabel = ''app.kubernetes.io/name''"

definition instanceLabel :: string where "instanceLabel = ''app.kubernetes.io/instance''"

definition versionLabel :: string where "versionLabel = ''app.kubernetes.io/version''"

definition componentLabel :: string where "componentLabel = ''app.kubernetes.io/component''"

definition partOfLabel :: string where "partOfLabel = ''app.kubernetes.io/part-of''"

definition managedByLabel :: string where "managedByLabel = ''app.kubernetes.io/managed-by''"

definition NA :: string where "NA = ''not_available''"

definition requiredLabels :: "string list" where
  "requiredLabels = [nameLabel, instanceLabel, versionLabel, componentLabel, partOfLabel, managedByLabel]"

definition addLabels :: entries where
  "addLabels = [(nameLabel, NA), (instanceLabel, NA), (versionLabel, NA), (componentLabel, NA),
     (partOfLabel, NA), (managedByLabel, NA)]"

definition validateKey :: string where
  "validateKey = ''admission-webhook-example.qikqiak.com/validate''"

definition mutateKey :: string where
  "mutateKey = ''admission-webhook-example.qikqiak.com/mutate''"

definition statusKey :: string where
  "statusKey = ''admission-webhook-example.qikqiak.com/status''"

fun in_ignored :: "string list \<Rightarrow> string \<Rightarrow> bool" where
  "in_ignored [] ns = False"
| "in_ignored (n # rest) ns = (if ns = n then True else in_ignored rest ns)"

definition admissionRequired :: "string list \<Rightarrow> string \<Rightarrow> ObjectMeta \<Rightarrow> bool" where
  "admissionRequired ignoredList key metadata =
     (if in_ignored ignoredList (om_Namespace metadata) then False
      else
        (let annotations = (case om_Annotations metadata of None \<Rightarrow> Some [] | Some m \<Rightarrow> Some m);
             v = ToLower (mget annotations key) in
         if v = ''n'' \<or> v = ''no'' \<or> v = ''false'' \<or> v = ''off'' then False else True))"

definition mutationRequired :: "string list \<Rightarrow> ObjectMeta \<Rightarrow> bool" where
  "mutationRequired ignoredList metadata =
     (let required = admissionRequired ignoredList mutateKey metadata;
          annotations = (case om_Annotations metadata of None \<Rightarrow> Some [] | Some m \<Rightarrow> Some m);
          status = mget annotations statusKey in
      if ToLower status = ''mutated'' then False else required)"

definition validationRequired :: "string list \<Rightarrow> ObjectMeta \<Rightarrow> bool" where
  "validationRequired ignoredList metadata = admissionRequired ignoredList validateKey metadata"

subsection \<open>Patches\<close>

text \<open>The loops over \<open>added\<close>; the list is in the order in which the map is visited.\<close>

fun updateAnnotation :: "strmap \<Rightarrow> entries \<Rightarrow> patchOperation list" where
  "updateAnnotation target [] = []"
| "updateAnnotation target ((key, val) # added) =
     (if target = None \<or> mget target key = ''''
      then \<lparr>Op = ''add'', Path = ''/metadata/annotations'', Value = MapVal [(key, val)]\<rparr> #
        updateAnnotation (Some []) added
      else \<lparr>Op = ''replace'', Path = ''/metadata/annotations/'' @ key, Value = StrVal val\<rparr> #
        updateAnnotation target added)"

fun missing_labels :: "strmap \<Rightarrow> entries \<Rightarrow> entries" where
  "missing_labels target [] = []"
| "missing_labels target ((key, val) # added) =
     (if target = None \<or> mget target key = '''' then (key, val) # missing_labels target added
      else missing_labels target added)"

definition updateLabels :: "strmap \<Rightarrow> entries \<Rightarrow> patchOperation list" where
  "updateLabels target added =
     [\<lparr>Op = ''add'', Path = ''/metadata/labels'', Value = MapVal (missing_labels target added)\<rparr>]"

definition patch_ops :: "(entries \<Rightarrow> entries) \<Rightarrow> strmap \<Rightarrow> entries \<Rightarrow> strmap \<Rightarrow> entries \<Rightarrow> patchOperation list" where
  "patch_ops rng availableAnnotations annotations availableLabels labels =
     updateAnnotation availableAnnotations (rng annotations) @ updateLabels availableLabels (rng labels)"

definition createPatch :: "(entries \<Rightarrow> entries) \<Rightarrow> strmap \<Rightarrow> entries \<Rightarrow> strmap \<Rightarrow> entries \<Rightarrow> string + string" where
  "createPatch rng availableAnnotations annotations availableLabels labels =
     Inr (Marshal_patch (patch_ops rng availableAnnotations annotations availableLabels labels))"

subsection \<open>Requests and responses\<close>

record AdmissionRequest =
  rq_UID :: string
  rq_Kind :: string
  rq_Raw :: string

record Status =
  sts_Message :: string
  sts_Reason :: string

record AdmissionResponse =
  rs_UID :: string
  rs_Allowed :: bool
  rs_Result :: "Status option"
  rs_Patch :: "string option"
  rs_PatchType :: "string option"

definition response0 :: AdmissionResponse where
  "response0 = \<lparr>rs_UID = '''', rs_Allowed = False, rs_Result = None, rs_Patch = None, rs_PatchType = None\<rparr>"

definition error_response :: "string \<Rightarrow> AdmissionResponse" where
  "error_response msg = response0\<lparr>rs_Result := Some \<lparr>sts_Message = msg, sts_Reason = ''''\<rparr>\<rparr>"

text \<open>The decoded review: its request may be nil. The response of the outgoing review may be nil.\<close>

record review_in =
  ar_Request :: "AdmissionRequest option"

record review_out =
  ao_APIVersion :: string
  ao_Kind :: string
  ao_Response :: "AdmissionResponse option"

datatype http_out = HttpError string nat | HttpBody string

record webhook_env =
  we_unmarshal :: "string \<Rightarrow> string \<Rightarrow> string + ObjectMeta"
  we_decode :: "string \<Rightarrow> string option \<times> review_in"
  we_marshal :: "review_out \<Rightarrow> string + string"
  we_write :: "string \<Rightarrow> string option"
  we_range :: "entries \<Rightarrow> entries"

record http_request =
  hr_Body :: "(string + string) option"
  hr_ContentType :: string
  hr_Path :: string

text \<open>
  The switch on the kind. For another kind than Deployment and Service the pointer to the metadata
  stays nil and the labels stay nil.
\<close>

definition decode_object :: "webhook_env \<Rightarrow> AdmissionRequest \<Rightarrow> string + ObjectMeta option" where
  "decode_object e req =
     (if rq_Kind req = ''Deployment'' \<or> rq_Kind req = ''Service'' then
        (case we_unmarshal e (rq_Kind req) (rq_Raw req) of
           Inl err \<Rightarrow> Inl err
         | Inr meta \<Rightarrow> Inr (Some meta))
      else Inr None)"

fun check_labels :: "strmap \<Rightarrow> string list \<Rightarrow> bool \<times> Status option" where
  "check_labels avail [] = (True, None)"
| "check_labels avail (rl # rest) =
     (if \<not> has_key avail rl then (False, Some \<lparr>sts_Message = '''', sts_Reason = ''required labels are not set''\<rparr>)
      else check_labels avail rest)"

definition validate :: "webhook_env \<Rightarrow> review_in \<Rightarrow> AdmissionResponse outcome" where
  "validate e ar =
     (case ar_Request ar of
        None \<Rightarrow> Panic NilDereference
      | Some req \<Rightarrow>
          (case decode_object e req of
             Inl err \<Rightarrow> Ret (error_response err)
           | Inr None \<Rightarrow> Panic NilDereference
           | Inr (Some meta) \<Rightarrow>
               if \<not> validationRequired ignoredNamespaces meta then Ret (response0\<lparr>rs_Allowed := True\<rparr>)
               else (case check_labels (om_Labels meta) requiredLabels of
                       (allowed, result) \<Rightarrow> Ret (response0\<lparr>rs_Allowed := allowed, rs_Result := result\<rparr>))))"

definition mutate :: "webhook_env \<Rightarrow> review_in \<Rightarrow> AdmissionResponse outcome" where
  "mutate e ar =
     (case ar_Request ar of
        None \<Rightarrow> Panic NilDereference
      | Some req \<Rightarrow>
          (case decode_object e req of
             Inl err \<Rightarrow> Ret (error_response err)
           | Inr None \<Rightarrow> Panic NilDereference
           | Inr (Some meta) \<Rightarrow>
               if \<not> mutationRequired ignoredNamespaces meta then Ret (response0\<lparr>rs_Allowed := True\<rparr>)
               else (case createPatch (we_range e) None [(statusKey, ''mutated'')] (om_Labels meta) addLabels of
                       Inl err \<Rightarrow> Ret (error_response err)
                     | Inr bytes \<Rightarrow> Ret (response0\<lparr>rs_Allowed := True, rs_Patch := Some bytes,
                         rs_PatchType := Some ''JSONPatch''\<rparr>))))"

text \<open>The dispatch on the path; on another path the response stays nil.\<close>

definition dispatch :: "webhook_env \<Rightarrow> string \<Rightarrow> review_in \<Rightarrow> AdmissionResponse option outcome" where
  "dispatch e path ar =
     (if path = ''/mutate'' then (case mutate e ar of Ret r \<Rightarrow> Ret (Some r) | Panic p \<Rightarrow> Panic p)
      else if path = ''/validate'' then (case validate e ar of Ret r \<Rightarrow> Ret (Some r) | Panic p \<Rightarrow> Panic p)
      else Ret None)"

definition make_review :: "review_in \<Rightarrow> AdmissionResponse option \<Rightarrow> review_out" where
  "make_review ar resp = \<lparr>ao_APIVersion = ''admission.k8s.io/v1'', ao_Kind = ''AdmissionReview'',
     ao_Response = (case resp of
        None \<Rightarrow> None
      | Some r \<Rightarrow> Some (case ar_Request ar of None \<Rightarrow> r | Some req \<Rightarrow> r\<lparr>rs_UID := rq_UID req\<rparr>))\<rparr>"

definition write_review :: "webhook_env \<Rightarrow> review_out \<Rightarrow> http_out list" where
  "write_review e rv =
     (let (errs, resp) = (case we_marshal e rv of
            Inl err \<Rightarrow> ([HttpError (''could not encode response: '' @ err) 500], '''')
          | Inr bytes \<Rightarrow> ([], bytes)) in
      errs @ [HttpBody resp] @
      (case we_write e resp of None \<Rightarrow> [] | Some err \<Rightarrow> [HttpError (''could not write response: '' @ err) 500]))"

definition serve :: "webhook_env \<Rightarrow> http_request \<Rightarrow> http_out list outcome" where
  "serve e r =
     (let body = (case hr_Body r of Some (Inr bytes) \<Rightarrow> bytes | _ \<Rightarrow> '''') in
      if body = '''' then Ret [HttpError ''empty body'' 400]
      else if hr_ContentType r \<noteq> ''application/json''
      then Ret [HttpError ''invalid Content-Type, expect `application/json`'' 415]
      else
        (case we_decode e body of
           (Some err, ar) \<Rightarrow> Ret (write_review e (make_review ar (Some (error_response err))))
         | (None, ar) \<Rightarrow>
             (case dispatch e (hr_Path r) ar of
                Panic p \<Rightarrow> Panic p
              | Ret resp \<Rightarrow> Ret (write_review e (make_review ar resp)))))"

subsection \<open>Objects as seen by a patch\<close>

definition marks_of :: "ObjectMeta \<Rightarrow> marks" where
  "marks_of meta = \<lparr>mk_annotations = om_Annotations meta, mk_labels = om_Labels meta\<rparr>"

definition remark :: "ObjectMeta \<Rightarrow> marks \<Rightarrow> ObjectMeta" where
  "remark meta m = meta\<lparr>om_Annotations := mk_annotations m, om_Labels := mk_labels m\<rparr>"

text \<open>\<open>decodes e ar meta\<close>: the review asks about a Deployment or Service with this metadata.\<close>

definition decodes :: "webhook_env \<Rightarrow> review_in \<Rightarrow> ObjectMeta \<Rightarrow> bool" where
  "decodes e ar meta \<longleftrightarrow> (\<exists>req. ar_Request ar = Some req \<and> rq_Kind req \<in> {''Deployment'', ''Service''} \<and>
     we_unmarshal e (rq_Kind req) (rq_Raw req) = Inr meta)"

definition opted_out :: "string \<Rightarrow> ObjectMeta \<Rightarrow> bool" where
  "opted_out key meta \<longleftrightarrow> ToLower (mget (om_Annotations meta) key) \<in> {''n'', ''no'', ''false'', ''off''}"

definition range_law :: "webhook_env \<Rightarrow> bool" where
  "range_law e \<longleftrightarrow> (\<forall>m. mset (we_range e m) = mset m)"

subsection \<open>An example environment\<close>

definition demo_meta :: "strmap \<Rightarrow> ObjectMeta" where
  "demo_meta labels = meta0\<lparr>om_Name := ''web'', om_Namespace := ''default'', om_Labels := labels\<rparr>"

definition demo_hook :: "ObjectMeta \<Rightarrow> webhook_env" where
  "demo_hook meta = \<lparr>we_unmarshal = (\<lambda>k raw. Inr meta),
     we_decode = (\<lambda>body. (None, \<lparr>ar_Request = Some \<lparr>rq_UID = body, rq_Kind = ''Deployment'', rq_Raw = body\<rparr>\<rparr>)),
     we_marshal = (\<lambda>rv. Inr ''review''), we_write = (\<lambda>_. None), we_range = rev\<rparr>"

definition demo_review :: "string \<Rightarrow> review_in" where
  "demo_review kind = \<lparr>ar_Request = Some \<lparr>rq_UID = ''u1'', rq_Kind = kind, rq_Raw = ''raw''\<rparr>\<rparr>"

section \<open>Lemmas\<close>

lemmas label_names = nameLabel_def instanceLabel_def versionLabel_def componentLabel_def partOfLabel_def
  managedByLabel_def

lemma in_ignored_iff [simp]: "in_ignored xs ns \<longleftrightarrow> ns \<in> set xs"
  by (induction xs) auto

lemma mget_nil_default [simp]: "mget (case m of None \<Rightarrow> Some [] | Some x \<Rightarrow> Some x) k = mget m k"
  by (cases m) (simp_all add: mget_Some)

lemma admissionRequired_iff:
  "admissionRequired ign key meta \<longleftrightarrow> om_Namespace meta \<notin> set ign \<and> \<not> opted_out key meta"
  by (simp add: admissionRequired_def opted_out_def Let_def)

lemma mutationRequired_iff:
  "mutationRequired ign meta \<longleftrightarrow> om_Namespace meta \<notin> set ign \<and> \<not> opted_out mutateKey meta \<and>
     ToLower (mget (om_Annotations meta) statusKey) \<noteq> ''mutated''"
  by (simp add: mutationRequired_def admissionRequired_iff Let_def)

lemma missing_labels_filter: "missing_labels t added = filter (\<lambda>(k, v). mget t k = '''') added"
  by (induction t added rule: missing_labels.induct) auto

lemma check_labels_eq:
  "check_labels avail rls =
     (if \<forall>l\<in>set rls. has_key avail l then (True, None)
      else (False, Some \<lparr>sts_Message = '''', sts_Reason = ''required labels are not set''\<rparr>))"
  by (induction rls) auto

lemma addLabels_keys [simp]: "map fst addLabels = requiredLabels"
  by (simp add: addLabels_def requiredLabels_def)

lemma requiredLabels_distinct: "distinct requiredLabels"
  by (simp add: requiredLabels_def label_names)

lemma addLabels_values: "(k, v) \<in> set addLabels \<longleftrightarrow> k \<in> set requiredLabels \<and> v = NA"
  by (auto simp: addLabels_def requiredLabels_def)

lemma validate_decodes:
  assumes "decodes e ar meta"
  shows "validate e ar = Ret (
    if \<not> validationRequired ignoredNamespaces meta then response0\<lparr>rs_Allowed := True\<rparr>
    else response0\<lparr>rs_Allowed := fst (check_labels (om_Labels meta) requiredLabels),
      rs_Result := snd (check_labels (om_Labels meta) requiredLabels)\<rparr>)"
  using assms by (auto simp: decodes_def validate_def decode_object_def split: prod.splits)

lemma mutate_decodes:
  assumes "decodes e ar meta"
  shows "mutate e ar = Ret (
    if \<not> mutationRequired ignoredNamespaces meta then response0\<lparr>rs_Allowed := True\<rparr>
    else response0\<lparr>rs_Allowed := True,
      rs_Patch := Some (Marshal_patch (patch_ops (we_range e) None [(statusKey, ''mutated'')] (om_Labels meta) addLabels)),
      rs_PatchType := Some ''JSONPatch''\<rparr>)"
  using assms by (auto simp: decodes_def mutate_def decode_object_def createPatch_def)

lemma range_singleton: "range_law e \<Longrightarrow> we_range e [x] = [x]"
  by (simp add: range_law_def) (metis mset_single_iff_right)

text \<open>The patch of a mutation and its effect.\<close>

lemma mutation_ops:
  assumes "range_law e"
  shows "patch_ops (we_range e) None [(statusKey, ''mutated'')] labels addLabels =
    [\<lparr>Op = ''add'', Path = ''/metadata/annotations'', Value = MapVal [(statusKey, ''mutated'')]\<rparr>,
     \<lparr>Op = ''add'', Path = ''/metadata/labels'',
       Value = MapVal (filter (\<lambda>(k, v). mget labels k = '''') (we_range e addLabels))\<rparr>]"
  by (simp add: patch_ops_def range_singleton [OF assms] updateLabels_def missing_labels_filter)

lemma mutation_effect:
  assumes "range_law e"
  shows "apply_patch (patch_ops (we_range e) None [(statusKey, ''mutated'')] (om_Labels meta) addLabels) (marks_of meta) =
    Some \<lparr>mk_annotations = Some [(statusKey, ''mutated'')],
      mk_labels = Some (filter (\<lambda>(k, v). mget (om_Labels meta) k = '''') (we_range e addLabels))\<rparr>"
  by (simp add: mutation_ops [OF assms] apply_op_def marks_of_def)

lemma map_of_addLabels_filter:
  assumes "mset es = mset addLabels"
  shows "map_of (filter (\<lambda>(k, v). P k) es) l = (if l \<in> set requiredLabels \<and> P l then Some NA else None)"
proof -
  have dist: "distinct (map fst es)"
    using requiredLabels_distinct assms by (metis addLabels_keys mset_eq_imp_distinct_iff mset_map)
  have mem: "(k, v) \<in> set es \<longleftrightarrow> k \<in> set requiredLabels \<and> v = NA" for k v
    using assms addLabels_values by (metis mset_eq_setD)
  have "distinct (map fst (filter (\<lambda>(k, v). P k) es))" using dist by (rule distinct_map_filter)
  then show ?thesis
    by (auto simp: mem map_of_eq_None_iff intro!: map_of_is_SomeI)
qed

lemma make_review_uid:
  "ar_Request ar = Some req \<Longrightarrow>
   \<exists>resp'. ao_Response (make_review ar (Some resp)) = Some resp' \<and> rs_UID resp' = rq_UID req"
  by (simp add: make_review_def)

section \<open>Properties\<close>

text \<open>C20. Validation decides as documented: a Deployment or Service is admitted exactly when its namespace is
  ignored, it opted out by annotation, or all six required labels are present; a rejection carries the
  reason, an admission carries none, and validation never patches.\<close>

theorem validate_decision:
  assumes "decodes e ar meta"
  shows "\<exists>r. validate e ar = Ret r \<and>
    (rs_Allowed r \<longleftrightarrow> om_Namespace meta \<in> set ignoredNamespaces \<or> opted_out validateKey meta \<or>
       list_all (has_key (om_Labels meta)) requiredLabels) \<and>
    rs_Result r = (if rs_Allowed r then None
      else Some \<lparr>sts_Message = '''', sts_Reason = ''required labels are not set''\<rparr>) \<and>
    rs_Patch r = None"
  using validate_decodes [OF assms]
  by (auto simp: validationRequired_def admissionRequired_iff check_labels_eq response0_def list_all_iff)

theorem validate_decision_witness:
  "\<exists>r. validate (demo_hook (demo_meta None)) (demo_review ''Service'') = Ret r \<and> \<not> rs_Allowed r"
proof -
  have "decodes (demo_hook (demo_meta None)) (demo_review ''Service'') (demo_meta None)"
    by (simp add: decodes_def demo_hook_def demo_review_def)
  from validate_decision [OF this] show ?thesis
    by (auto simp: demo_meta_def meta0_def ignoredNamespaces_def opted_out_def ToLower_def requiredLabels_def)
qed

text \<open>What a mutation does to an object. The patch replaces the annotations by the status mark alone and the
  labels by exactly the required labels that were missing or empty: every other annotation and every label that
  was set is lost. So the mutated object passes validation exactly when none of the required labels was set
  before: mutating an object that follows the convention in part, or in full, makes it inadmissible.\<close>

theorem mutate_then_validate:
  assumes "range_law e" and dec: "decodes e ar meta" and req: "mutationRequired ignoredNamespaces meta"
    and "decodes e' ar' (remark meta m')"
    and m': "apply_patch ops (marks_of meta) = Some m'"
    and ops: "ops = patch_ops (we_range e) None [(statusKey, ''mutated'')] (om_Labels meta) addLabels"
  shows "(\<exists>r. mutate e ar = Ret r \<and> rs_Allowed r \<and> rs_Patch r = Some (Marshal_patch ops)) \<and>
    mk_annotations m' = Some [(statusKey, ''mutated'')] \<and>
    (\<forall>l. map_of (entries_of (mk_labels m')) l =
       (if l \<in> set requiredLabels \<and> mget (om_Labels meta) l = '''' then Some NA else None)) \<and>
    (\<exists>r. validate e' ar' = Ret r \<and>
       (rs_Allowed r \<longleftrightarrow> list_all (\<lambda>l. mget (om_Labels meta) l = '''') requiredLabels))"
proof -
  have m'_eq: "m' = \<lparr>mk_annotations = Some [(statusKey, ''mutated'')],
      mk_labels = Some (filter (\<lambda>(k, v). mget (om_Labels meta) k = '''') (we_range e addLabels))\<rparr>"
    using m' mutation_effect [OF assms(1), of meta] by (simp add: ops)
  have perm: "mset (we_range e addLabels) = mset addLabels"
    using assms(1) by (simp add: range_law_def)
  have labels: "map_of (entries_of (mk_labels m')) l =
      (if l \<in> set requiredLabels \<and> mget (om_Labels meta) l = '''' then Some NA else None)" for l
    unfolding m'_eq by (simp add: map_of_addLabels_filter [OF perm])
  have keys: "has_key (mk_labels m') l \<longleftrightarrow> mget (om_Labels meta) l = ''''" if "l \<in> set requiredLabels" for l
    using that by (simp add: has_key_def labels)
  have "om_Namespace meta \<notin> set ignoredNamespaces" using req by (simp add: mutationRequired_iff)
  moreover have "\<not> opted_out validateKey (remark meta m')"
    by (simp add: opted_out_def remark_def m'_eq mget_Some validateKey_def statusKey_def ToLower_def)
  ultimately have "\<exists>r. validate e' ar' = Ret r \<and>
      (rs_Allowed r \<longleftrightarrow> list_all (\<lambda>l. mget (om_Labels meta) l = '''') requiredLabels)"
    using validate_decodes [OF assms(4)] keys
    by (simp add: validationRequired_def admissionRequired_iff check_labels_eq remark_def list_all_iff response0_def)
  with labels m'_eq mutate_decodes [OF dec] req show ?thesis by (simp add: ops)
qed

theorem mutate_then_validate_witness:
  "let meta = demo_meta (Some [(nameLabel, ''shop'')]);
       m' = \<lparr>mk_annotations = Some [(statusKey, ''mutated'')],
             mk_labels = Some (filter (\<lambda>(k, v). mget (om_Labels meta) k = '''') (rev addLabels))\<rparr> in
   \<exists>r. validate (demo_hook (remark meta m')) (demo_review ''Deployment'') = Ret r \<and> \<not> rs_Allowed r"
proof -
  let ?meta = "demo_meta (Some [(nameLabel, ''shop'')])"
  let ?m = "\<lparr>mk_annotations = Some [(statusKey, ''mutated'')],
     mk_labels = Some (filter (\<lambda>(k, v). mget (om_Labels ?meta) k = '''') (rev addLabels))\<rparr>"
  have law: "range_law (demo_hook ?meta)" by (simp add: range_law_def demo_hook_def)
  have dec: "decodes (demo_hook x) (demo_review ''Deployment'') x" for x
    by (simp add: decodes_def demo_hook_def demo_review_def)
  have req: "mutationRequired ignoredNamespaces ?meta"
    by (simp add: mutationRequired_iff demo_meta_def meta0_def ignoredNamespaces_def opted_out_def ToLower_def)
  have eff: "apply_patch (patch_ops (we_range (demo_hook ?meta)) None [(statusKey, ''mutated'')] (om_Labels ?meta) addLabels)
      (marks_of ?meta) = Some ?m"
    using mutation_effect [OF law, of ?meta] by (simp add: demo_hook_def)
  have "\<not> list_all (\<lambda>l. mget (om_Labels ?meta) l = '''') requiredLabels"
    by (simp add: requiredLabels_def demo_meta_def mget_Some)
  with mutate_then_validate [OF law dec req dec eff refl] show ?thesis by (auto simp: Let_def)
qed

text \<open>C21. Mutation happens at most once, and its patch does not depend on the order in which Go ranges over its
  maps: a mutated object is admitted unpatched when it comes back, and two servers that visit the map of labels
  in different orders send the same bytes, from which the operations can be recovered up to the order of the entries.\<close>

theorem mutate_once:
  assumes "range_law e" "range_law f" and "decodes e ar meta" "decodes f ar meta"
    and "mutationRequired ignoredNamespaces meta"
    and "apply_patch ops (marks_of meta) = Some m'"
    and "ops = patch_ops (we_range e) None [(statusKey, ''mutated'')] (om_Labels meta) addLabels"
    and "decodes e' ar' (remark meta m')"
  shows "mutate e' ar' = Ret (response0\<lparr>rs_Allowed := True\<rparr>) \<and> mutate e ar = mutate f ar \<and>
    (\<forall>ops'. Marshal_patch ops' = Marshal_patch ops \<longrightarrow> norm_patch ops' = norm_patch ops)"
proof -
  have "mk_annotations m' = Some [(statusKey, ''mutated'')]"
    using assms(6) mutation_effect [OF assms(1), of meta] by (auto simp: assms(7))
  then have "\<not> mutationRequired ignoredNamespaces (remark meta m')"
    by (simp add: mutationRequired_iff remark_def mget_Some ToLower_def lower_char_def Let_def)
  moreover have "norm_patch (patch_ops (we_range e) None [(statusKey, ''mutated'')] (om_Labels meta) addLabels) =
      norm_patch (patch_ops (we_range f) None [(statusKey, ''mutated'')] (om_Labels meta) addLabels)"
  proof -
    have perm: "mset (we_range e addLabels) = mset (we_range f addLabels)"
      using assms(1,2) by (simp add: range_law_def)
    have "mset (map fst (we_range e addLabels)) = mset requiredLabels"
      using assms(1) by (simp add: range_law_def flip: addLabels_keys)
    then have "distinct (map fst (we_range e addLabels))"
      using requiredLabels_distinct mset_eq_imp_distinct_iff by blast
    from sort_key_fst_perm [OF _ distinct_map_filter [OF this]] perm
    have "sort_key fst (filter (\<lambda>(k, v). mget (om_Labels meta) k = '''') (we_range e addLabels)) =
        sort_key fst (filter (\<lambda>(k, v). mget (om_Labels meta) k = '''') (we_range f addLabels))"
      by (metis (no_types, lifting) mset_filter)
    then show ?thesis
      unfolding mutation_ops [OF assms(1)] mutation_ops [OF assms(2)] by (simp add: norm_patch_def)
  qed
  ultimately show ?thesis
    using mutate_decodes [OF assms(3)] mutate_decodes [OF assms(4)] mutate_decodes [OF assms(8)]
    by (simp add: Marshal_patch_injective)
qed

theorem mutate_once_witness:
  "let meta = demo_meta None;
       m' = \<lparr>mk_annotations = Some [(statusKey, ''mutated'')],
             mk_labels = Some (filter (\<lambda>(k, v). mget (om_Labels meta) k = '''') (rev addLabels))\<rparr> in
   mutate (demo_hook (remark meta m')) (demo_review ''Service'') = Ret (response0\<lparr>rs_Allowed := True\<rparr>)"
proof -
  let ?meta = "demo_meta None"
  let ?m = "\<lparr>mk_annotations = Some [(statusKey, ''mutated'')],
     mk_labels = Some (filter (\<lambda>(k, v). mget (om_Labels ?meta) k = '''') (rev addLabels))\<rparr>"
  have law: "range_law (demo_hook ?meta)" by (simp add: range_law_def demo_hook_def)
  have dec: "decodes (demo_hook x) (demo_review ''Service'') x" for x
    by (simp add: decodes_def demo_hook_def demo_review_def)
  have req: "mutationRequired ignoredNamespaces ?meta"
    by (simp add: mutationRequired_iff demo_meta_def meta0_def ignoredNamespaces_def opted_out_def ToLower_def)
  have eff: "apply_patch (patch_ops (we_range (demo_hook ?meta)) None [(statusKey, ''mutated'')] (om_Labels ?meta) addLabels)
      (marks_of ?meta) = Some ?m"
    using mutation_effect [OF law, of ?meta] by (simp add: demo_hook_def)
  from mutate_once [OF law law dec dec req eff refl dec] show ?thesis by (simp add: Let_def)
qed

text \<open>C22. The HTTP handler: an empty body gives 400, another content type 415; a decoded request on
  a served path is answered with a review that carries the request's UID; a request for an object
  that is neither a Deployment nor a Service dereferences the nil metadata pointer, on either path.\<close>

theorem serve_behaviour:
  "(hr_Body r \<in> {None, Some (Inr '''')} \<longrightarrow> serve e r = Ret [HttpError ''empty body'' 400]) \<and>
   (hr_Body r = Some (Inr b) \<and> b \<noteq> '''' \<and> hr_ContentType r \<noteq> ''application/json'' \<longrightarrow>
      serve e r = Ret [HttpError ''invalid Content-Type, expect `application/json`'' 415]) \<and>
   (hr_Body r = Some (Inr b) \<and> b \<noteq> '''' \<and> hr_ContentType r = ''application/json'' \<and>
      hr_Path r \<in> {''/mutate'', ''/validate''} \<and>
      we_decode e b = (None, ar) \<and> ar_Request ar = Some req \<longrightarrow>
      (if rq_Kind req \<in> {''Deployment'', ''Service''}
       then \<exists>rv resp. serve e r = Ret (write_review e rv) \<and> ao_Response rv = Some resp \<and> rs_UID resp = rq_UID req
       else serve e r = Panic NilDereference))"
proof -
  have "if rq_Kind req \<in> {''Deployment'', ''Service''}
      then \<exists>resp. dispatch e (hr_Path r) ar = Ret (Some resp)
      else dispatch e (hr_Path r) ar = Panic NilDereference"
    if "hr_Path r \<in> {''/mutate'', ''/validate''}" "ar_Request ar = Some req"
    using that
    by (auto simp: dispatch_def mutate_def validate_def decode_object_def createPatch_def split: sum.splits prod.splits)
  then show ?thesis
    by (auto simp: serve_def split: if_splits) (metis make_review_uid [of ar req])+
qed

theorem serve_behaviour_witness:
  "serve (demo_hook (demo_meta None)) \<lparr>hr_Body = None, hr_ContentType = '''', hr_Path = ''/''\<rparr> =
     Ret [HttpError ''empty body'' 400] \<and>
   (\<exists>rv resp. serve (demo_hook (demo_meta None)) \<lparr>hr_Body = Some (Inr ''u7''), hr_ContentType = ''application/json'',
      hr_Path = ''/mutate''\<rparr> = Ret (write_review (demo_hook (demo_meta None)) rv) \<and>
      ao_Response rv = Some resp \<and> rs_UID resp = ''u7'')"
  using serve_behaviour [of "\<lparr>hr_Body = None, hr_ContentType = '''', hr_Path = ''/''\<rparr>" "demo_hook (demo_meta None)"]
    serve_behaviour [of "\<lparr>hr_Body = Some (Inr ''u7''), hr_ContentType = ''application/json'', hr_Path = ''/mutate''\<rparr>"
      "demo_hook (demo_meta None)" "''u7''"
      "\<lparr>ar_Request = Some \<lparr>rq_UID = ''u7'', rq_Kind = ''Deployment'', rq_Raw = ''u7''\<rparr>\<rparr>"
      "\<lparr>rq_UID = ''u7'', rq_Kind = ''Deployment'', rq_Raw = ''u7''\<rparr>"]
  by (simp add: demo_hook_def)

end
