(* ===== verification/Baremetal_Webhook.thy ===== *)
theory Baremetal_Webhook
  imports Admission_Webhook
begin

text \<open>
  The mutating webhook of \<open>src/webhook/using-byhand/by-baremetal/main.go\<close>, which marks every pod
  with the annotation \<open>apps.onex.io/miner-type\<close>. It uses the same library types as the webhook of
  \<open>Admission_Webhook\<close>; the environment is the same record, with \<open>we_unmarshal\<close> decoding pods.
\<close>

section \<open>Definitions\<close>

definition minerTypeKey :: string where
  "minerTypeKey = ''apps.onex.io/miner-type''"

definition bm_annotations :: "strmap \<Rightarrow> entries" where
  "bm_annotations annotations =
     (let m = (case annotations of None \<Rightarrow> [] | Some es \<Rightarrow> es) in AList.update minerTypeKey ''S1.SMALL1'' m)"

definition bm_patch :: "ObjectMeta \<Rightarrow> patchOperation list" where
  "bm_patch meta = [\<lparr>Op = ''add'', Path = ''/metadata/annotations'', Value = MapVal (bm_annotations (om_Annotations meta))\<rparr>]"

definition bm_review :: "AdmissionRequest \<Rightarrow> string \<Rightarrow> review_out" where
  "bm_review req patchBytes = \<lparr>ao_APIVersion = ''admission.k8s.io/v1'', ao_Kind = ''AdmissionReview'',
     ao_Response = Some \<lparr>rs_UID = rq_UID req, rs_Allowed = True, rs_Result = None,
       rs_Patch = Some patchBytes, rs_PatchType = Some ''JSONPatch''\<rparr>\<rparr>"

definition bm_mutate :: "webhook_env \<Rightarrow> string + string \<Rightarrow> http_out list outcome" where
  "bm_mutate e body =
     (case body of
        Inl err \<Rightarrow> Ret [HttpError err 500]
      | Inr bytes \<Rightarrow>
          (case we_decode e bytes of
             (Some err, ar) \<Rightarrow> Ret [HttpError err 500]
           | (None, ar) \<Rightarrow>
               (case ar_Request ar of
                  None \<Rightarrow> Panic NilDereference
                | Some req \<Rightarrow>
                    (case we_unmarshal e ''Pod'' (rq_Raw req) of
                       Inl err \<Rightarrow> Ret [HttpError err 500]
                     | Inr meta \<Rightarrow>
                         (case we_marshal e (bm_review req (Marshal_patch (bm_patch meta))) of
                            Inl err \<Rightarrow> Ret [HttpError err 500]
                          | Inr resp \<Rightarrow>
                              Ret (HttpBody resp # (case we_write e resp of
                                 None \<Rightarrow> [] | Some err \<Rightarrow> [HttpError err 500])))))))"

section \<open>Lemmas\<close>

lemma bm_annotations_eq: "bm_annotations a = AList.update minerTypeKey ''S1.SMALL1'' (entries_of a)"
  by (simp add: bm_annotations_def entries_of_def Let_def)

lemma bm_apply:
  "apply_patch (bm_patch meta) (marks_of meta) = Some ((marks_of meta)\<lparr>mk_annotations := Some (bm_annotations (om_Annotations meta))\<rparr>)"
  by (simp add: bm_patch_def apply_op_def)

section \<open>Properties\<close>

text \<open>The bare-metal webhook only adds its mark: the answer to a pod that decodes carries the request's UID,
  admits it, and its patch keeps every other annotation and all labels; marking a marked pod again changes nothing;
  and the bytes of the patch determine the annotations the server will store.\<close>

theorem bm_mutate_adds_mark:
  assumes "we_decode e body = (None, ar)" "ar_Request ar = Some req" "we_unmarshal e ''Pod'' (rq_Raw req) = Inr meta"
    and "we_marshal e (bm_review req (Marshal_patch (bm_patch meta))) = Inr resp" "we_write e resp = None"
  shows "bm_mutate e (Inr body) = Ret [HttpBody resp] \<and>
    (\<exists>m'. apply_patch (bm_patch meta) (marks_of meta) = Some m' \<and> mk_labels m' = om_Labels meta \<and>
      (\<forall>k. map_of (entries_of (mk_annotations m')) k =
         (if k = minerTypeKey then Some ''S1.SMALL1'' else map_of (entries_of (om_Annotations meta)) k)) \<and>
      apply_patch (bm_patch (remark meta m')) m' = Some m' \<and>
      (\<forall>meta'. Marshal_patch (bm_patch meta') = Marshal_patch (bm_patch meta) \<longrightarrow>
         sort_key fst (bm_annotations (om_Annotations meta')) = sort_key fst (entries_of (mk_annotations m'))))"
proof -
  let ?m = "(marks_of meta)\<lparr>mk_annotations := Some (bm_annotations (om_Annotations meta))\<rparr>"
  show ?thesis
  proof (intro conjI exI [of _ ?m])
    show "bm_mutate e (Inr body) = Ret [HttpBody resp]"
      using assms by (simp add: bm_mutate_def)
    show "apply_patch (bm_patch meta) (marks_of meta) = Some ?m" by (rule bm_apply)
    show "mk_labels ?m = om_Labels meta" by (simp add: marks_of_def)
    show "\<forall>k. map_of (entries_of (mk_annotations ?m)) k =
        (if k = minerTypeKey then Some ''S1.SMALL1'' else map_of (entries_of (om_Annotations meta)) k)"
      by (simp add: bm_annotations_eq AList.update_conv')
    show "apply_patch (bm_patch (remark meta ?m)) ?m = Some ?m"
      by (simp add: bm_patch_def apply_op_def remark_def bm_annotations_eq AList.update_last)
    show "\<forall>meta'. Marshal_patch (bm_patch meta') = Marshal_patch (bm_patch meta) \<longrightarrow>
        sort_key fst (bm_annotations (om_Annotations meta')) = sort_key fst (entries_of (mk_annotations ?m))"
      by (simp add: Marshal_patch_injective norm_patch_def bm_patch_def)
  qed
qed

theorem bm_mutate_adds_mark_witness:
  "bm_mutate (demo_hook (demo_meta None)) (Inr ''b'') = Ret [HttpBody ''review''] \<and>
   (\<exists>m'. apply_patch (bm_patch (demo_meta None)) (marks_of (demo_meta None)) = Some m' \<and> mk_labels m' = None)"
  using bm_mutate_adds_mark [of "demo_hook (demo_meta None)" "''b''"
      "\<lparr>ar_Request = Some \<lparr>rq_UID = ''b'', rq_Kind = ''Deployment'', rq_Raw = ''b''\<rparr>\<rparr>"
      "\<lparr>rq_UID = ''b'', rq_Kind = ''Deployment'', rq_Raw = ''b''\<rparr>" "demo_meta None" "''review''"]
  by (auto simp: demo_hook_def demo_meta_def meta0_def)

end
