(* ===== verification/Webhook_Service.thy ===== *)
theory Webhook_Service
  imports Baremetal_Webhook Client_Config
begin

text \<open>
  The hand-written webhooks as the API server meets them: the routes that
  \<open>src/webhook/using-byhand/by-service/main.go\<close> and \<open>by-baremetal/main.go\<close> register with Go's \<open>http.ServeMux\<close>, the
  server that recovers from the panic of a handler by dropping the connection, and an API server which calls the webhooks as
  \<open>deployment/mutatingwebhook.yaml\<close> and \<open>deployment/validatingwebhook.yaml\<close> tell it to: first \<open>/mutate\<close>, whose patch it applies,
  then \<open>/validate\<close>; a call that fails refuses the object (the default failure policy). The main functions of the bare-metal
  webhook and of the aggregated API server of \<open>src/kubernetes-plugins\<close> are here too.

  What the API server writes and reads (\<open>api_server\<close>) is a parameter; \<open>wire_laws\<close> and \<open>renders\<close> say that the two sides understand
  each other. The patch is read by \<open>parse_patch\<close>. Paths hold no percent escapes.
\<close>

section \<open>Definitions\<close>

subsection \<open>Routes\<close>

text \<open>The handlers by path. Registering a pattern twice panics.\<close>

type_synonym 'h mux = "(string \<times> 'h) list"

definition HandleFunc :: "string \<Rightarrow> 'h \<Rightarrow> 'h mux \<Rightarrow> 'h mux outcome" where
  "HandleFunc pattern h mux =
     (if map_of mux pattern \<noteq> None then Panic (PanicErr (''http: multiple registrations for '' @ pattern)) else Ret (mux @ [(pattern, h)]))"

definition cleanPath :: "string \<Rightarrow> string" where
  "cleanPath p =
     (if p = '''' then ''/''
      else
        (let q = (if hd p = CHR ''/'' then p else CHR ''/'' # p); np = path_Clean q in
         if last q = CHR ''/'' \<and> np \<noteq> ''/'' then np @ ''/'' else np))"

datatype 'r served = Answered 'r | MovedPermanently string | PageNotFound | ConnectionDropped

text \<open>None of the patterns ends in a slash, so a path matches the pattern equal to it and no other. A path that is not clean is
  redirected before it is matched.\<close>

definition ServeHTTP :: "(http_request \<Rightarrow> 'r outcome) mux \<Rightarrow> http_request \<Rightarrow> 'r served" where
  "ServeHTTP mux r =
     (let path = cleanPath (hr_Path r) in
      if path \<noteq> hr_Path r then MovedPermanently path
      else
        (case map_of mux path of
           None \<Rightarrow> PageNotFound
         | Some h \<Rightarrow> (case h r of Ret x \<Rightarrow> Answered x | Panic p \<Rightarrow> ConnectionDropped)))"

definition wh_mux :: "webhook_env \<Rightarrow> (http_request \<Rightarrow> http_out list outcome) mux outcome" where
  "wh_mux e =
     (case HandleFunc ''/mutate'' (serve e) [] of
        Panic p \<Rightarrow> Panic p
      | Ret mux \<Rightarrow> HandleFunc ''/validate'' (serve e) mux)"

definition bm_handler :: "webhook_env \<Rightarrow> http_request \<Rightarrow> http_out list outcome" where
  "bm_handler e r = (case hr_Body r of None \<Rightarrow> Panic NilDereference | Some body \<Rightarrow> bm_mutate e body)"

subsection \<open>Main functions\<close>

text \<open>How a main function ends: by panicking with what the listener returned, or by leaving with a message.\<close>

datatype server_end = Panicked "go_error option" | LogFatal string | MainReturned

type_synonym 'r handlers = "(http_request \<Rightarrow> 'r outcome) mux"

definition bm_main :: "webhook_env \<Rightarrow> (string \<Rightarrow> string \<Rightarrow> string \<Rightarrow> http_out list handlers \<Rightarrow> go_error option) \<Rightarrow>
    (string list \<times> server_end) outcome" where
  "bm_main e ListenAndServeTLS =
     (case HandleFunc ''/mutate'' (bm_handler e) [] of
        Panic p \<Rightarrow> Panic p
      | Ret mux \<Rightarrow> Ret ([''Started mutating admission webhook server''],
          Panicked (ListenAndServeTLS '':9999'' ''cert/server.crt'' ''cert/server.key'' mux)))"

record 'cert tls_server =
  ts_Addr :: string
  ts_MinVersion :: nat
  ts_Certificates :: "'cert list"

text \<open>The aggregated API server. The version of TLS is 0x0304, which is TLS 1.3; the certificate and its key are texts of the program.\<close>

record custom_response =
  cr_ContentType :: string
  cr_Message :: string

definition aggregated_handler :: "http_request \<Rightarrow> custom_response outcome" where
  "aggregated_handler r =
     Ret \<lparr>cr_ContentType = ''application/json'', cr_Message = ''Hello from Custom Resource API!''\<rparr>"

definition aggregated_main :: "string \<Rightarrow> string \<Rightarrow> (string \<Rightarrow> string \<Rightarrow> go_error + 'cert) \<Rightarrow>
    ('cert tls_server \<Rightarrow> custom_response handlers \<Rightarrow> go_error option) \<Rightarrow> (string list \<times> server_end) outcome" where
  "aggregated_main serverCert serverKey X509KeyPair ListenAndServeTLS =
     (case HandleFunc ''/api/v1/customresource'' aggregated_handler [] of
        Panic p \<Rightarrow> Panic p
      | Ret mux \<Rightarrow>
          (let tlsConfig = \<lparr>ts_Addr = '''', ts_MinVersion = 772, ts_Certificates = []\<rparr> in
           (case X509KeyPair serverCert serverKey of
              Inl err \<Rightarrow> Ret ([], LogFatal (''Failed to parse certificate and key: '' @ Error err))
            | Inr cert \<Rightarrow>
                (let srv = tlsConfig\<lparr>ts_Certificates := [cert], ts_Addr := '':8443''\<rparr> in
                 Ret ([''Starting HTTPS server on port 8443...''],
                   (case ListenAndServeTLS srv mux of
                      Some err \<Rightarrow> LogFatal (''ListenAndServeTLS failed: '' @ Error err)
                    | None \<Rightarrow> MainReturned))))))"

subsection \<open>An API server that calls the webhooks\<close>

text \<open>The body of a call, an object as it is sent, and what is read of a reply: its UID, whether the object is allowed, and the patch.\<close>

record api_server =
  as_request :: "AdmissionRequest \<Rightarrow> string"
  as_render :: "string \<Rightarrow> ObjectMeta \<Rightarrow> string"
  as_response :: "string \<Rightarrow> (string \<times> bool \<times> string option) option"

definition patched :: "ObjectMeta \<Rightarrow> string option \<Rightarrow> ObjectMeta option" where
  "patched meta patch =
     (case patch of
        None \<Rightarrow> Some meta
      | Some bytes \<Rightarrow> map_option (remark meta) (Option.bind (parse_patch bytes) (\<lambda>ops. apply_patch ops (marks_of meta))))"

text \<open>The object after a call, or nothing when the object is refused.\<close>

definition call_webhook :: "api_server \<Rightarrow> (http_request \<Rightarrow> http_out list served) \<Rightarrow> string \<Rightarrow> string \<Rightarrow> string \<Rightarrow> ObjectMeta \<Rightarrow>
    ObjectMeta option" where
  "call_webhook a server path uid kind meta =
     (let req = \<lparr>rq_UID = uid, rq_Kind = kind, rq_Raw = as_render a kind meta\<rparr> in
      case server \<lparr>hr_Body = Some (Inr (as_request a req)), hr_ContentType = ''application/json'', hr_Path = path\<rparr> of
        Answered (HttpBody body # _) \<Rightarrow>
          (case as_response a body of
             Some (uid', allowed, patch) \<Rightarrow> if uid' = uid \<and> allowed then patched meta patch else None
           | None \<Rightarrow> None)
      | _ \<Rightarrow> None)"

definition admission :: "api_server \<Rightarrow> (http_request \<Rightarrow> http_out list served) \<Rightarrow> string \<Rightarrow> string \<Rightarrow> string \<Rightarrow> ObjectMeta \<Rightarrow>
    ObjectMeta option" where
  "admission a server uid1 uid2 kind meta =
     Option.bind (call_webhook a server ''/mutate'' uid1 kind meta)
       (\<lambda>meta'. Option.bind (call_webhook a server ''/validate'' uid2 kind meta') (\<lambda>_. Some meta'))"

text \<open>Each side reads what the other writes. An object that was sent is read with the same namespace and the same entries;
  an empty map may come back as none.\<close>

definition wire_laws :: "webhook_env \<Rightarrow> api_server \<Rightarrow> bool" where
  "wire_laws e a \<longleftrightarrow>
     (\<forall>req. as_request a req \<noteq> '''' \<and> we_decode e (as_request a req) = (None, \<lparr>ar_Request = Some req\<rparr>)) \<and>
     (\<forall>rv resp. ao_Response rv = Some resp \<longrightarrow>
        (\<exists>bytes. we_marshal e rv = Inr bytes \<and> we_write e bytes = None \<and>
           as_response a bytes = Some (rs_UID resp, rs_Allowed resp, rs_Patch resp)))"

definition same_marks :: "ObjectMeta \<Rightarrow> ObjectMeta \<Rightarrow> bool" where
  "same_marks m m' \<longleftrightarrow> om_Namespace m = om_Namespace m' \<and>
     map_of (entries_of (om_Annotations m)) = map_of (entries_of (om_Annotations m')) \<and>
     map_of (entries_of (om_Labels m)) = map_of (entries_of (om_Labels m'))"

definition renders :: "webhook_env \<Rightarrow> api_server \<Rightarrow> string \<Rightarrow> ObjectMeta \<Rightarrow> bool" where
  "renders e a kind meta \<longleftrightarrow> (\<exists>m. we_unmarshal e kind (as_render a kind meta) = Inr m \<and> same_marks m meta)"

subsection \<open>What the webhooks decide\<close>

definition mutated :: "ObjectMeta \<Rightarrow> ObjectMeta" where
  "mutated meta = meta\<lparr>om_Annotations := Some [(statusKey, ''mutated'')],
     om_Labels := Some (sort_key fst (filter (\<lambda>(k, v). mget (om_Labels meta) k = '''') addLabels))\<rparr>"

definition admission_spec :: "ObjectMeta \<Rightarrow> ObjectMeta option" where
  "admission_spec meta =
     (if om_Namespace meta \<in> set ignoredNamespaces then Some meta
      else if opted_out mutateKey meta \<or> ToLower (mget (om_Annotations meta) statusKey) = ''mutated'' then
        if opted_out validateKey meta \<or> list_all (has_key (om_Labels meta)) requiredLabels then Some meta else None
      else if list_all (\<lambda>l. mget (om_Labels meta) l = '''') requiredLabels then Some (mutated meta) else None)"

section \<open>Lemmas\<close>

lemma wh_mux_eq: "wh_mux e = Ret [(''/mutate'', serve e), (''/validate'', serve e)]"
  by (simp add: wh_mux_def HandleFunc_def)

lemma clean_routes [simp]: "cleanPath ''/mutate'' = ''/mutate''" "cleanPath ''/validate'' = ''/validate''"
  "cleanPath ''/api/v1/customresource'' = ''/api/v1/customresource''"
  by (simp_all add: cleanPath_def path_Clean_def Let_def)

text \<open>Only a request whose path is spelled like a route reaches its handler.\<close>

lemma ServeHTTP_routed: "cleanPath (hr_Path r) = hr_Path r \<Longrightarrow> map_of mux (hr_Path r) = Some h \<Longrightarrow>
    ServeHTTP mux r = (case h r of Ret x \<Rightarrow> Answered x | Panic p \<Rightarrow> ConnectionDropped)"
  by (simp add: ServeHTTP_def Let_def)

lemma ServeHTTP_unrouted:
  assumes "hr_Path r \<notin> set (map fst mux)"
  shows "ServeHTTP mux r = (if cleanPath (hr_Path r) = hr_Path r then PageNotFound else MovedPermanently (cleanPath (hr_Path r)))"
proof -
  have "map_of mux (hr_Path r) = None" using assms by (simp add: map_of_eq_None_iff)
  then show ?thesis by (simp add: ServeHTTP_def Let_def)
qed

text \<open>The reply of the service to a call of the API server.\<close>

abbreviation wh_server :: "webhook_env \<Rightarrow> http_request \<Rightarrow> http_out list served" where
  "wh_server e \<equiv> ServeHTTP [(''/mutate'', serve e), (''/validate'', serve e)]"

lemma served_reply:
  assumes laws: "wire_laws e a" and path: "path \<in> {''/mutate'', ''/validate''}"
    and disp: "dispatch e path \<lparr>ar_Request = Some req\<rparr> = Ret (Some resp)"
  shows "\<exists>bytes. wh_server e \<lparr>hr_Body = Some (Inr (as_request a req)), hr_ContentType = ''application/json'', hr_Path = path\<rparr> =
      Answered [HttpBody bytes] \<and> as_response a bytes = Some (rq_UID req, rs_Allowed resp, rs_Patch resp)"
proof -
  let ?rv = "make_review \<lparr>ar_Request = Some req\<rparr> (Some resp)"
  have "ao_Response ?rv = Some (resp\<lparr>rs_UID := rq_UID req\<rparr>)" by (simp add: make_review_def)
  with laws obtain bytes where b: "we_marshal e ?rv = Inr bytes" "we_write e bytes = None"
      "as_response a bytes = Some (rq_UID req, rs_Allowed resp, rs_Patch resp)"
    unfolding wire_laws_def by fastforce
  have "serve e \<lparr>hr_Body = Some (Inr (as_request a req)), hr_ContentType = ''application/json'', hr_Path = path\<rparr> = Ret [HttpBody bytes]"
    using laws disp b by (simp add: serve_def wire_laws_def write_review_def)
  then show ?thesis using path b(3) by (auto simp: ServeHTTP_routed)
qed

lemma same_marks_decisions:
  assumes "same_marks m meta"
  shows "mutationRequired ign m = mutationRequired ign meta" "validationRequired ign m = validationRequired ign meta"
    "check_labels (om_Labels m) ls = check_labels (om_Labels meta) ls" "mget (om_Labels m) = mget (om_Labels meta)"
  using assms
  by (auto simp: same_marks_def mutationRequired_iff validationRequired_def admissionRequired_iff opted_out_def mget_def
      check_labels_eq has_key_def)

lemma mutation_patch:
  assumes "range_law e"
  shows "patched meta (Some (Marshal_patch (patch_ops (we_range e) None [(statusKey, ''mutated'')] (om_Labels meta) addLabels))) =
    Some (mutated meta)"
proof -
  let ?P = "\<lambda>(k, v). mget (om_Labels meta) k = ''''"
  have perm: "mset (we_range e addLabels) = mset addLabels" using assms by (simp add: range_law_def)
  have "distinct (map fst addLabels)" using requiredLabels_distinct by simp
  then have "sort_key fst (filter ?P (we_range e addLabels)) = sort_key fst (filter ?P addLabels)"
    using perm by (metis (no_types, lifting) mset_filter sort_key_fst_perm distinct_map_filter)
  then show ?thesis
    by (simp add: patched_def parse_patch_Marshal mutation_ops [OF assms] norm_patch_def apply_op_def marks_of_def remark_def mutated_def)
qed

lemma call_mutate:
  assumes "wire_laws e a" "range_law e" "kind \<in> {''Deployment'', ''Service''}" "renders e a kind meta"
  shows "call_webhook a (wh_server e) ''/mutate'' uid kind meta =
    Some (if mutationRequired ignoredNamespaces meta then mutated meta else meta)"
proof -
  let ?req = "\<lparr>rq_UID = uid, rq_Kind = kind, rq_Raw = as_render a kind meta\<rparr>"
  obtain m where m: "we_unmarshal e kind (as_render a kind meta) = Inr m" "same_marks m meta"
    using assms(4) by (auto simp: renders_def)
  then have "decodes e \<lparr>ar_Request = Some ?req\<rparr> m" using assms(3) by (auto simp: decodes_def)
  note mut = mutate_decodes [OF this] same_marks_decisions [OF m(2)]
  let ?resp = "if mutationRequired ignoredNamespaces meta
    then response0\<lparr>rs_Allowed := True, rs_Patch := Some (Marshal_patch (patch_ops (we_range e) None [(statusKey, ''mutated'')]
      (om_Labels m) addLabels)), rs_PatchType := Some ''JSONPatch''\<rparr>
    else response0\<lparr>rs_Allowed := True\<rparr>"
  have "dispatch e ''/mutate'' \<lparr>ar_Request = Some ?req\<rparr> = Ret (Some ?resp)" by (simp add: dispatch_def mut)
  from served_reply [OF assms(1) _ this] obtain bytes where
    "wh_server e \<lparr>hr_Body = Some (Inr (as_request a ?req)), hr_ContentType = ''application/json'', hr_Path = ''/mutate''\<rparr> =
      Answered [HttpBody bytes]" "as_response a bytes = Some (uid, rs_Allowed ?resp, rs_Patch ?resp)" by auto
  moreover have "patch_ops (we_range e) None [(statusKey, ''mutated'')] (om_Labels m) addLabels =
      patch_ops (we_range e) None [(statusKey, ''mutated'')] (om_Labels meta) addLabels"
    by (simp add: mutation_ops [OF assms(2)] mut)
  ultimately show ?thesis
    using mutation_patch [OF assms(2), of meta] by (simp add: call_webhook_def Let_def response0_def patched_def)
qed

lemma call_validate:
  assumes "wire_laws e a" "kind \<in> {''Deployment'', ''Service''}" "renders e a kind meta"
  shows "call_webhook a (wh_server e) ''/validate'' uid kind meta =
    (if om_Namespace meta \<in> set ignoredNamespaces \<or> opted_out validateKey meta \<or> list_all (has_key (om_Labels meta)) requiredLabels
     then Some meta else None)"
proof -
  let ?req = "\<lparr>rq_UID = uid, rq_Kind = kind, rq_Raw = as_render a kind meta\<rparr>"
  obtain m where m: "we_unmarshal e kind (as_render a kind meta) = Inr m" "same_marks m meta"
    using assms(3) by (auto simp: renders_def)
  then have dec: "decodes e \<lparr>ar_Request = Some ?req\<rparr> m" using assms(2) by (auto simp: decodes_def)
  obtain resp where r: "validate e \<lparr>ar_Request = Some ?req\<rparr> = Ret resp" "rs_Patch resp = None"
      "rs_Allowed resp \<longleftrightarrow> om_Namespace meta \<in> set ignoredNamespaces \<or> opted_out validateKey meta \<or>
         list_all (has_key (om_Labels meta)) requiredLabels"
    using validate_decodes [OF dec] unfolding same_marks_decisions [OF m(2)]
    by (auto simp: validationRequired_def admissionRequired_iff check_labels_eq response0_def list_all_iff split: if_splits)
  have "dispatch e ''/validate'' \<lparr>ar_Request = Some ?req\<rparr> = Ret (Some resp)" by (simp add: dispatch_def r)
  from served_reply [OF assms(1) _ this] obtain bytes where
    "wh_server e \<lparr>hr_Body = Some (Inr (as_request a ?req)), hr_ContentType = ''application/json'', hr_Path = ''/validate''\<rparr> =
      Answered [HttpBody bytes]" "as_response a bytes = Some (uid, rs_Allowed resp, rs_Patch resp)" by auto
  then show ?thesis by (simp add: call_webhook_def Let_def r patched_def)
qed

lemma mutated_valid:
  assumes "om_Namespace meta \<notin> set ignoredNamespaces"
  shows "(om_Namespace (mutated meta) \<in> set ignoredNamespaces \<or> opted_out validateKey (mutated meta) \<or>
      list_all (has_key (om_Labels (mutated meta))) requiredLabels) \<longleftrightarrow>
    list_all (\<lambda>l. mget (om_Labels meta) l = '''') requiredLabels"
proof -
  have "\<not> opted_out validateKey (mutated meta)"
    by (simp add: mutated_def opted_out_def mget_Some validateKey_def statusKey_def ToLower_def)
  moreover have "has_key (om_Labels (mutated meta)) l \<longleftrightarrow> mget (om_Labels meta) l = ''''" if "l \<in> set requiredLabels" for l
    using that by (auto simp: has_key_def mutated_def map_of_eq_None_iff image_iff addLabels_values)
  ultimately show ?thesis using assms by (simp add: mutated_def list_all_iff)
qed

text \<open>Sorting by key is stable, so lookups do not see it.\<close>

lemma map_of_insort: "map_of (insort_key fst x xs) = (map_of xs)(fst x \<mapsto> snd x)"
  by (induction xs) (auto simp: fun_upd_twist)

lemma map_of_sort_key: "map_of (sort_key fst xs) = map_of xs"
  by (induction xs) (simp_all add: map_of_insort)

text \<open>The bare-metal webhook: its patch leaves the pod as it is but for the mark.\<close>

lemma bm_call:
  assumes "wire_laws e a" "renders e a ''Pod'' meta"
  shows "\<exists>annotations. call_webhook a (ServeHTTP [(''/mutate'', bm_handler e)]) ''/mutate'' uid ''Pod'' meta =
      Some (meta\<lparr>om_Annotations := Some annotations\<rparr>) \<and>
    map_of annotations = (map_of (entries_of (om_Annotations meta)))(minerTypeKey \<mapsto> ''S1.SMALL1'')"
proof -
  let ?req = "\<lparr>rq_UID = uid, rq_Kind = ''Pod'', rq_Raw = as_render a ''Pod'' meta\<rparr>"
  obtain m where m: "we_unmarshal e ''Pod'' (as_render a ''Pod'' meta) = Inr m" "same_marks m meta"
    using assms(2) by (auto simp: renders_def)
  let ?as = "bm_annotations (om_Annotations m)"
  let ?rv = "bm_review ?req (Marshal_patch (bm_patch m))"
  have "ao_Response ?rv = Some \<lparr>rs_UID = uid, rs_Allowed = True, rs_Result = None, rs_Patch = Some (Marshal_patch (bm_patch m)),
      rs_PatchType = Some ''JSONPatch''\<rparr>" by (simp add: bm_review_def)
  with assms(1) obtain bytes where b: "we_marshal e ?rv = Inr bytes" "we_write e bytes = None"
      "as_response a bytes = Some (uid, True, Some (Marshal_patch (bm_patch m)))"
    unfolding wire_laws_def by fastforce
  have "bm_mutate e (Inr (as_request a ?req)) = Ret [HttpBody bytes]"
    using assms(1) m b by (simp add: bm_mutate_def wire_laws_def)
  moreover have "patched meta (Some (Marshal_patch (bm_patch m))) = Some (meta\<lparr>om_Annotations := Some (sort_key fst ?as)\<rparr>)"
    by (simp add: patched_def parse_patch_Marshal bm_patch_def norm_patch_def apply_op_def marks_of_def remark_def)
  moreover have "map_of (sort_key fst ?as) = (map_of (entries_of (om_Annotations meta)))(minerTypeKey \<mapsto> ''S1.SMALL1'')"
    using m(2) by (simp add: map_of_sort_key bm_annotations_eq AList.update_conv' same_marks_def)
  ultimately show ?thesis
    using b(3) by (intro exI [of _ "sort_key fst ?as"]) (simp add: call_webhook_def Let_def ServeHTTP_routed bm_handler_def)
qed

text \<open>The objects of the test section of the README of the webhook.\<close>

definition sleep :: ObjectMeta where
  "sleep = meta0\<lparr>om_Name := ''sleep'', om_Namespace := ''default''\<rparr>"

definition sleep_with_labels :: ObjectMeta where
  "sleep_with_labels = sleep\<lparr>om_Labels := Some [(nameLabel, ''sleep''), (instanceLabel, ''sleep''), (versionLabel, ''0.1''),
     (componentLabel, ''dummy''), (partOfLabel, ''admission-webhook-example''), (managedByLabel, ''kubernetes'')]\<rparr>"

text \<open>A way to write reviews and replies that can be read back, for one object and its mutated form.\<close>

definition demo_service :: "ObjectMeta \<Rightarrow> webhook_env" where
  "demo_service meta = \<lparr>
     we_unmarshal = (\<lambda>kind raw. Inr (if raw = ''marked'' then mutated meta else meta)),
     we_decode = (\<lambda>body. (case parse_string body of
         Some (u, r) \<Rightarrow> (case parse_string r of
             Some (k, raw) \<Rightarrow> (None, \<lparr>ar_Request = Some \<lparr>rq_UID = u, rq_Kind = k, rq_Raw = raw\<rparr>\<rparr>)
           | None \<Rightarrow> (Some ''no kind'', \<lparr>ar_Request = None\<rparr>))
       | None \<Rightarrow> (Some ''no uid'', \<lparr>ar_Request = None\<rparr>))),
     we_marshal = (\<lambda>rv. Inr (case ao_Response rv of
         None \<Rightarrow> ''''
       | Some resp \<Rightarrow> json_string (rs_UID resp) @ (if rs_Allowed resp then ''1'' else ''0'') @
           (case rs_Patch resp of None \<Rightarrow> '''' | Some p \<Rightarrow> CHR ''+'' # p))),
     we_write = (\<lambda>_. None), we_range = rev\<rparr>"

definition demo_server :: api_server where
  "demo_server = \<lparr>
     as_request = (\<lambda>req. json_string (rq_UID req) @ json_string (rq_Kind req) @ rq_Raw req),
     as_render = (\<lambda>kind meta. if om_Annotations meta = None then ''plain'' else ''marked''),
     as_response = (\<lambda>body. (case parse_string body of
         Some (u, c # r) \<Rightarrow> Some (u, c = CHR ''1'', (case r of [] \<Rightarrow> None | d # p \<Rightarrow> Some p))
       | _ \<Rightarrow> None))\<rparr>"

lemma demo_wire: "wire_laws (demo_service meta) demo_server" "range_law (demo_service meta)"
  by (auto simp: wire_laws_def demo_service_def demo_server_def range_law_def split: option.split)

lemma demo_renders:
  "om_Annotations meta = None \<Longrightarrow> renders (demo_service meta) demo_server kind meta"
  "renders (demo_service meta) demo_server kind (mutated meta)"
  by (simp_all add: renders_def demo_service_def demo_server_def same_marks_def mutated_def)

text \<open>The aggregated API server accepts TLS 1.3 only, with the certificate of the program, and answers its one path only. Its main
  function returns without an error only when its listener was closed.\<close>

lemma aggregated_serves:
  assumes "aggregated_main cert key X509KeyPair listen = Ret (lines, MainReturned)"
  shows "\<exists>c mux. X509KeyPair cert key = Inr c \<and>
    listen \<lparr>ts_Addr = '':8443'', ts_MinVersion = 772, ts_Certificates = [c]\<rparr> mux = None \<and>
    (\<forall>r. (\<exists>x. ServeHTTP mux r = Answered x) \<longleftrightarrow> hr_Path r = ''/api/v1/customresource'')"
proof -
  let ?mux = "[(''/api/v1/customresource'', aggregated_handler)]"
  obtain c where "X509KeyPair cert key = Inr c"
      "listen \<lparr>ts_Addr = '':8443'', ts_MinVersion = 772, ts_Certificates = [c]\<rparr> ?mux = None"
    using assms by (auto simp: aggregated_main_def HandleFunc_def Let_def split: sum.splits option.splits)
  moreover have "(\<exists>x. ServeHTTP ?mux r = Answered x) \<longleftrightarrow> hr_Path r = ''/api/v1/customresource''" for r
    by (cases "hr_Path r = ''/api/v1/customresource''")
      (simp_all add: ServeHTTP_routed ServeHTTP_unrouted aggregated_handler_def)
  ultimately show ?thesis by blast
qed

section \<open>Properties\<close>

text \<open>C13. The webhooks from the API server's side, over HTTP. An object in an ignored namespace is admitted as it is. One that opted
  out of mutation or was mutated before is admitted as it is exactly when it opted out of validation or has every required label.
  Any other object is admitted exactly when none of the required labels is set, and then with the status mark as its only annotation
  and the six labels as its only labels: an object that follows the labelling convention, or that opted out of validation and sets one
  of the labels, is refused. A request for any other kind loses its connection and is refused, and paths other than the two routes
  never reach the handler: they are not found, or redirected to their clean form.\<close>

theorem webhook_admission:
  assumes "wire_laws e a" "range_law e" "renders e a kind meta" "renders e a kind (mutated meta)"
  shows "\<exists>mux. wh_mux e = Ret mux \<and>
    admission a (ServeHTTP mux) uid1 uid2 kind meta =
      (if kind \<in> {''Deployment'', ''Service''} then admission_spec meta else None) \<and>
    (hr_Path r \<notin> {''/mutate'', ''/validate''} \<longrightarrow>
      ServeHTTP mux r = (if cleanPath (hr_Path r) = hr_Path r then PageNotFound else MovedPermanently (cleanPath (hr_Path r))))"
proof -
  have "admission a (wh_server e) uid1 uid2 kind meta = admission_spec meta" if k: "kind \<in> {''Deployment'', ''Service''}"
  proof -
    note v = call_validate [OF assms(1) k]
    show ?thesis
    proof (cases "mutationRequired ignoredNamespaces meta")
      case True
      then have "om_Namespace meta \<notin> set ignoredNamespaces" by (simp add: mutationRequired_iff)
      with True show ?thesis
        using mutated_valid [of meta] call_mutate [OF assms(1,2) k assms(3)] v [OF assms(4)]
        by (simp add: admission_def admission_spec_def mutationRequired_iff)
    next
      case False
      then show ?thesis
        using call_mutate [OF assms(1,2) k assms(3)] v [OF assms(3)]
        by (auto simp: admission_def admission_spec_def mutationRequired_iff)
    qed
  qed
  moreover have "admission a (wh_server e) uid1 uid2 kind meta = None" if k: "kind \<notin> {''Deployment'', ''Service''}"
    using assms(1) k
    by (simp add: admission_def call_webhook_def Let_def ServeHTTP_routed serve_def wire_laws_def dispatch_def mutate_def decode_object_def)
  ultimately show ?thesis by (auto simp: wh_mux_eq ServeHTTP_unrouted)
qed

theorem webhook_admission_witness:
  "(\<exists>mux. wh_mux (demo_service sleep) = Ret mux \<and>
      admission demo_server (ServeHTTP mux) ''u1'' ''u2'' ''Deployment'' sleep = Some (mutated sleep)) \<and>
   (\<exists>mux. wh_mux (demo_service sleep_with_labels) = Ret mux \<and>
      admission demo_server (ServeHTTP mux) ''u1'' ''u2'' ''Deployment'' sleep_with_labels = None)"
proof -
  have a: "om_Annotations sleep = None" "om_Annotations sleep_with_labels = None"
    by (simp_all add: sleep_def sleep_with_labels_def meta0_def)
  have "admission_spec sleep = Some (mutated sleep)"
    by (simp add: admission_spec_def sleep_def meta0_def ignoredNamespaces_def opted_out_def ToLower_def list_all_iff)
  moreover have "admission_spec sleep_with_labels = None"
    by (simp add: admission_spec_def sleep_with_labels_def sleep_def meta0_def ignoredNamespaces_def opted_out_def ToLower_def
        requiredLabels_def mget_Some)
  ultimately show ?thesis
    using webhook_admission [OF demo_wire demo_renders(1) [OF a(1)] demo_renders(2), of "''u1''" "''u2''" "''Deployment''"]
      webhook_admission [OF demo_wire demo_renders(1) [OF a(2)] demo_renders(2), of "''u1''" "''u2''" "''Deployment''"]
    by (auto split: if_splits)
qed


end
