(* ===== verification/Calculator.thy ===== *)
theory Calculator
  imports Kube_Api
begin

text \<open>
  The Calculate resource (\<open>src/webhook/using-kubebuilder/api/v1/calculate_types.go\<close>), its admission
  webhook (\<open>calculate_webhook.go\<close>) and its controller
  (\<open>src/webhook/using-kubebuilder/internal/controller/calculate_controller.go\<close>). Go's \<open>int\<close> is a
  64-bit word with wrap-around; division truncates towards zero.
\<close>

section \<open>Definitions\<close>

type_synonym ActionType = string

definition ActionTypeAdd :: ActionType where "ActionTypeAdd = ''add''"

definition ActionTypeSub :: ActionType where "ActionTypeSub = ''sub''"

definition ActionTypeMul :: ActionType where "ActionTypeMul = ''mul''"

definition ActionTypeDiv :: ActionType where "ActionTypeDiv = ''div''"

record CalculateSpec =
  cs_Action :: ActionType
  cs_First :: int64
  cs_Second :: int64

record CalculateStatus =
  cst_Result :: int64

record Calculate =
  cal_meta :: ObjectMeta
  cal_Spec :: CalculateSpec
  cal_Status :: CalculateStatus

subsection \<open>The admission webhook\<close>

text \<open>\<open>field.Invalid\<close> and \<open>ErrorList.ToAggregate\<close> belong to the API machinery and are parameters.\<close>

record field_env =
  fe_Invalid :: "string list \<Rightarrow> int64 \<Rightarrow> string \<Rightarrow> string"
  fe_ToAggregate :: "string list \<Rightarrow> go_error option"

definition aggregate_law :: "field_env \<Rightarrow> bool" where
  "aggregate_law f \<longleftrightarrow> (\<forall>es. fe_ToAggregate f es = None \<longleftrightarrow> es = [])"

definition Default :: "Calculate \<Rightarrow> Calculate" where
  "Default r = r"

definition cal_validate :: "field_env \<Rightarrow> Calculate \<Rightarrow> string list \<times> go_error option" where
  "cal_validate f r =
     (let allErrs = (if cs_Action (cal_Spec r) = ActionTypeDiv \<and> cs_Second (cal_Spec r) = 0
            then [fe_Invalid f [''spec'', ''second''] (cs_Second (cal_Spec r))
                    ''the divisor cannot be zero whtn action is division'']
            else []) in
      ([], fe_ToAggregate f allErrs))"

definition ValidateCreate :: "field_env \<Rightarrow> Calculate \<Rightarrow> string list \<times> go_error option" where
  "ValidateCreate f r = cal_validate f r"

definition ValidateUpdate :: "field_env \<Rightarrow> Calculate \<Rightarrow> Calculate \<Rightarrow> string list \<times> go_error option" where
  "ValidateUpdate f r old = cal_validate f r"

definition ValidateDelete :: "Calculate \<Rightarrow> string list \<times> go_error option" where
  "ValidateDelete r = ([], None)"

subsection \<open>The controller\<close>

definition compute :: "CalculateSpec \<Rightarrow> go_error + int64 outcome" where
  "compute s =
     (if cs_Action s = ActionTypeAdd then Inr (Ret (cs_First s + cs_Second s))
      else if cs_Action s = ActionTypeSub then Inr (Ret (cs_First s - cs_Second s))
      else if cs_Action s = ActionTypeMul then Inr (Ret (cs_First s * cs_Second s))
      else if cs_Action s = ActionTypeDiv then
        (if cs_Second s = 0 then Inl (PlainError ''the divisor cannot be zero whtn action is division'')
         else Inr (go_div (cs_First s) (cs_Second s)))
      else Inl (PlainError ''unknown action type''))"

definition cal_Reconcile :: "Calculate kube_env \<Rightarrow> NamespacedName \<Rightarrow>
    (Calculate, (ctrl_result \<times> go_error option) outcome) kube" where
  "cal_Reconcile e req = do {
     g \<leftarrow> k_Get e req;
     (case g of
        Inl err \<Rightarrow> return (Ret (Result0, IgnoreNotFound err))
      | Inr cal \<Rightarrow>
          (case compute (cal_Spec cal) of
             Inl err \<Rightarrow> return (Ret (Result0, Some err))
           | Inr (Panic p) \<Rightarrow> return (Panic p)
           | Inr (Ret v) \<Rightarrow> do {
               u \<leftarrow> k_StatusUpdate e (cal\<lparr>cal_Status := (cal_Status cal)\<lparr>cst_Result := v\<rparr>\<rparr>);
               (case u of
                  Some err \<Rightarrow> return (Ret (Result0, Some err))
                | None \<Rightarrow> return (Ret (Result0, None)))
             }))
   }"

subsection \<open>Specification\<close>

text \<open>The exact integer result; None where the operation is undefined or unknown.\<close>

definition exact :: "ActionType \<Rightarrow> int \<Rightarrow> int \<Rightarrow> int option" where
  "exact a x y =
     (if a = ''add'' then Some (x + y) else if a = ''sub'' then Some (x - y)
      else if a = ''mul'' then Some (x * y)
      else if a = ''div'' then (if y = 0 then None else Some (trunc_quot x y)) else None)"

definition spec_exact :: "CalculateSpec \<Rightarrow> int option" where
  "spec_exact s = exact (cs_Action s) (sint (cs_First s)) (sint (cs_Second s))"

text \<open>A run reads the object and sends at most one status, with the object otherwise unchanged.\<close>

definition cal_contract :: "Calculate kube_env \<Rightarrow> NamespacedName \<Rightarrow> Calculate call list \<Rightarrow> bool" where
  "cal_contract e q seg \<longleftrightarrow> (\<exists>g. seg = [CGet q g] \<or>
     (\<exists>cal v r. g = Inr cal \<and> spec_exact (cal_Spec cal) = Some v \<and>
        seg = [CGet q g, CStatusUpdate (cal\<lparr>cal_Status := (cal_Status cal)\<lparr>cst_Result := word_of_int v\<rparr>\<rparr>) r]))"

definition demo_cal :: "ActionType \<Rightarrow> int64 \<Rightarrow> int64 \<Rightarrow> Calculate" where
  "demo_cal a x y = \<lparr>cal_meta = meta0, cal_Spec = \<lparr>cs_Action = a, cs_First = x, cs_Second = y\<rparr>,
     cal_Status = \<lparr>cst_Result = 0\<rparr>\<rparr>"

definition q0 :: NamespacedName where
  "q0 = \<lparr>nn_Namespace = ''default'', nn_Name = ''sum''\<rparr>"

definition demo_fields :: field_env where
  "demo_fields = \<lparr>fe_Invalid = (\<lambda>p v m. m),
     fe_ToAggregate = (\<lambda>es. case es of [] \<Rightarrow> None | e # _ \<Rightarrow> Some (PlainError e))\<rparr>"

section \<open>Lemmas\<close>

lemmas action_defs = ActionTypeAdd_def ActionTypeSub_def ActionTypeMul_def ActionTypeDiv_def

text \<open>The computation refines exact arithmetic modulo the word size.\<close>

lemma compute_exact:
  "compute s = (case spec_exact s of
     Some v \<Rightarrow> Inr (Ret (word_of_int v))
   | None \<Rightarrow> Inl (PlainError (if cs_Action s = ''div''
       then ''the divisor cannot be zero whtn action is division'' else ''unknown action type'')))"
  by (simp add: compute_def spec_exact_def exact_def action_defs go_div_def)

lemma sint_word_of_int_wrap: "sint (word_of_int v :: int64) = (v + 2 ^ 63) mod 2 ^ 64 - 2 ^ 63"
  by (simp add: sint_sbintrunc' signed_take_bit_eq_take_bit_shift take_bit_eq_mod)

lemma emits_cal_Reconcile: "emits (cal_Reconcile e q) (\<lambda>r seg. cal_contract e q seg)"
  unfolding cal_Reconcile_def
  by (intro emits_intros)
    (auto simp: compute_exact cal_contract_def split: option.splits intro!: emits_intros)

interpretation calr: reconciler "cal_Reconcile e" "cal_contract e" for e
  by unfold_locales (rule emits_cal_Reconcile)

interpretation cald: defaulter Default "\<lambda>_. True"
  by unfold_locales (simp_all add: Default_def)

section \<open>Properties\<close>

text \<open>C23. The controller writes the exact result, reduced modulo two to the 64: a run on an object whose operation is defined
  sends one status whose result, read as a signed integer, is the exact sum, difference, product or truncated
  quotient whenever that fits; it changes nothing else and fails only if the update fails.\<close>

theorem cal_Reconcile_result:
  assumes get: "api_Get e h q = Inr cal" and v: "spec_exact (cal_Spec cal) = Some v"
  shows "\<exists>cal'. new_calls h (snd (run_state (cal_Reconcile e q) h)) =
      [CGet q (Inr cal), CStatusUpdate cal' (api_StatusUpdate e (h @ [CGet q (Inr cal)]) cal')] \<and>
    cal_meta cal' = cal_meta cal \<and> cal_Spec cal' = cal_Spec cal \<and>
    sint (cst_Result (cal_Status cal')) = (v + 2 ^ 63) mod 2 ^ 64 - 2 ^ 63 \<and>
    (- (2 ^ 63) \<le> v \<and> v < 2 ^ 63 \<longrightarrow> sint (cst_Result (cal_Status cal')) = v) \<and>
    fst (run_state (cal_Reconcile e q) h) =
      Ret (Result0, api_StatusUpdate e (h @ [CGet q (Inr cal)]) cal')"
proof -
  let ?cal = "cal\<lparr>cal_Status := (cal_Status cal)\<lparr>cst_Result := word_of_int v\<rparr>\<rparr>"
  have run: "run_state (cal_Reconcile e q) h =
      (Ret (Result0, api_StatusUpdate e (h @ [CGet q (Inr cal)]) ?cal),
       h @ [CGet q (Inr cal), CStatusUpdate ?cal (api_StatusUpdate e (h @ [CGet q (Inr cal)]) ?cal)])"
    using get v by (simp add: cal_Reconcile_def compute_exact split: option.splits)
  have wrap: "sint (word_of_int v :: int64) = (v + 2 ^ 63) mod 2 ^ 64 - 2 ^ 63"
    by (simp add: sint_word_of_int_wrap)
  show ?thesis using run wrap sint64_of_int [of v] by (intro exI [of _ ?cal]) simp
qed

theorem cal_Reconcile_result_witness:
  "\<exists>cal'. new_calls [] (snd (run_state (cal_Reconcile (mem_env (\<lambda>_. demo_cal ''div'' (- 7) 2) []) q0) [])) =
      [CGet q0 (Inr (demo_cal ''div'' (- 7) 2)), CStatusUpdate cal' None] \<and>
    sint (cst_Result (cal_Status cal')) = - 3"
proof -
  have get: "api_Get (mem_env (\<lambda>_. demo_cal ''div'' (- 7) 2) []) [] q0 = Inr (demo_cal ''div'' (- 7) 2)"
    by (simp add: mem_env_def)
  have "spec_exact (cal_Spec (demo_cal ''div'' (- 7) 2)) = Some (- 3)"
    by (simp add: spec_exact_def exact_def demo_cal_def trunc_quot_def)
  from cal_Reconcile_result [OF get this] show ?thesis by (auto simp: mem_env_def)
qed

text \<open>Admission and controller together: the webhook accepts an object on create and on update exactly when it
  is not a division by zero, so the controller never meets a division by zero, and no run on an accepted object
  panics; but an unknown action is accepted and then fails on every run.\<close>

theorem cal_admission:
  assumes "aggregate_law f" and get: "api_Get e h q = Inr cal"
  shows "(snd (ValidateCreate f cal) = None \<longleftrightarrow> \<not> (cs_Action (cal_Spec cal) = ''div'' \<and> cs_Second (cal_Spec cal) = 0)) \<and>
    snd (ValidateUpdate f cal old) = snd (ValidateCreate f cal) \<and>
    (snd (ValidateCreate f cal) = None \<longrightarrow>
      (if cs_Action (cal_Spec cal) \<in> {''add'', ''sub'', ''mul'', ''div''}
       then \<exists>x r. new_calls h (snd (run_state (cal_Reconcile e q) h)) = [CGet q (Inr cal), CStatusUpdate x r] \<and>
          fst (run_state (cal_Reconcile e q) h) = Ret (Result0, r)
       else run_state (cal_Reconcile e q) h =
         (Ret (Result0, Some (PlainError ''unknown action type'')), h @ [CGet q (Inr cal)])))"
proof -
  have acc: "snd (ValidateCreate f cal) = None \<longleftrightarrow> \<not> (cs_Action (cal_Spec cal) = ''div'' \<and> cs_Second (cal_Spec cal) = 0)"
    using assms(1) by (simp add: ValidateCreate_def cal_validate_def aggregate_law_def action_defs)
  show ?thesis
  proof (intro conjI impI)
    show "snd (ValidateUpdate f cal old) = snd (ValidateCreate f cal)"
      by (simp add: ValidateUpdate_def ValidateCreate_def)
    assume "snd (ValidateCreate f cal) = None"
    then have known: "cs_Action (cal_Spec cal) \<in> {''add'', ''sub'', ''mul'', ''div''} \<longleftrightarrow> spec_exact (cal_Spec cal) \<noteq> None"
      unfolding acc by (auto simp: spec_exact_def exact_def)
    show "if cs_Action (cal_Spec cal) \<in> {''add'', ''sub'', ''mul'', ''div''}
       then \<exists>x r. new_calls h (snd (run_state (cal_Reconcile e q) h)) = [CGet q (Inr cal), CStatusUpdate x r] \<and>
          fst (run_state (cal_Reconcile e q) h) = Ret (Result0, r)
       else run_state (cal_Reconcile e q) h =
         (Ret (Result0, Some (PlainError ''unknown action type'')), h @ [CGet q (Inr cal)])"
      unfolding known using get known by (auto simp: cal_Reconcile_def compute_exact split: option.splits)
  qed (rule acc)
qed

theorem cal_admission_witness:
  "snd (ValidateCreate demo_fields (demo_cal ''pow'' 2 0)) = None \<and>
   run_state (cal_Reconcile (mem_env (\<lambda>_. demo_cal ''pow'' 2 0) []) q0) [] =
     (Ret (Result0, Some (PlainError ''unknown action type'')), [CGet q0 (Inr (demo_cal ''pow'' 2 0))])"
proof -
  have "aggregate_law demo_fields" by (simp add: aggregate_law_def demo_fields_def split: list.splits)
  moreover have "api_Get (mem_env (\<lambda>_. demo_cal ''pow'' 2 0) []) [] q0 = Inr (demo_cal ''pow'' 2 0)"
    by (simp add: mem_env_def)
  ultimately show ?thesis
    using cal_admission [of demo_fields "mem_env (\<lambda>_. demo_cal ''pow'' 2 0) []" "[]" q0 "demo_cal ''pow'' 2 0"]
    by (simp add: demo_cal_def)
qed

end
