(* ===== verification/Calculate_System.thy ===== *)
theory Calculate_System
  imports Calculator
begin

text \<open>
  The Calculate webhook and controller at work together (\<open>src/webhook/using-kubebuilder\<close>): users create, update and delete
  objects, the webhook decides about every object before it is stored, and the controller runs whenever its cache saw a change.
  Both are the definitions of \<open>Calculator\<close>.

  Of the platform the step relations keep what its documentation says. Every write of an object gives it a new version; writing an
  object as it is changes nothing. A status is written only to the version that was read, and the status subresource changes nothing
  but the status, as the user's update does not change it. The controller reads from a cache that follows the store; a key that the
  cache saw change is queued, no two runs are on the same key at once, and a run that fails is queued again. Reads and status updates
  may fail at any time.
\<close>

section \<open>Definitions\<close>

type_synonym versioned = "Calculate \<times> nat"

record cal_sys =
  cy_store :: "NamespacedName \<Rightarrow> versioned option"
  cy_next :: nat
  cy_cache :: "NamespacedName \<Rightarrow> versioned option"
  cy_queue :: "NamespacedName set"
  cy_running :: "NamespacedName \<Rightarrow> versioned option option"

definition cy_init :: cal_sys where
  "cy_init = \<lparr>cy_store = (\<lambda>_. None), cy_next = 0, cy_cache = (\<lambda>_. None), cy_queue = {}, cy_running = (\<lambda>_. None)\<rparr>"

definition cy_put :: "NamespacedName \<Rightarrow> Calculate \<Rightarrow> cal_sys \<Rightarrow> cal_sys" where
  "cy_put k c s = s\<lparr>cy_store := (cy_store s)(k \<mapsto> (c, cy_next s)), cy_next := cy_next s + 1\<rparr>"

text \<open>The user, behind the webhook.\<close>

inductive cy_user :: "field_env \<Rightarrow> cal_sys \<Rightarrow> cal_sys \<Rightarrow> bool" for f where
  create: "\<lbrakk>cy_store s k = None; snd (ValidateCreate f (Default c)) = None\<rbrakk> \<Longrightarrow> cy_user f s (cy_put k (Default c) s)"
| update: "\<lbrakk>cy_store s k = Some (old, n); snd (ValidateUpdate f (Default c) old) = None\<rbrakk> \<Longrightarrow>
     cy_user f s (cy_put k ((Default c)\<lparr>cal_Status := cal_Status old\<rparr>) s)"
| delete: "\<lbrakk>cy_store s k = Some (old, n); snd (ValidateDelete old) = None\<rbrakk> \<Longrightarrow>
     cy_user f s (s\<lparr>cy_store := (cy_store s)(k := None)\<rparr>)"

text \<open>What a run reads, what the server makes of the status updates it accepted, and which runs are repeated.\<close>

fun reads :: "versioned option \<Rightarrow> go_error + Calculate \<Rightarrow> bool" where
  "reads None g = (\<exists>err. g = Inl err)"
| "reads (Some (c, n)) g = (g = Inr c \<or> (\<exists>err. g = Inl err \<and> \<not> IsNotFound err))"

fun write_status :: "NamespacedName \<Rightarrow> Calculate call \<Rightarrow> cal_sys \<Rightarrow> cal_sys" where
  "write_status k (CStatusUpdate x None) s =
     (case cy_store s k of
        None \<Rightarrow> s
      | Some (c, n) \<Rightarrow> if cal_Status c = cal_Status x then s else cy_put k (c\<lparr>cal_Status := cal_Status x\<rparr>) s)"
| "write_status k _ s = s"

definition accepted_version :: "NamespacedName \<Rightarrow> versioned option \<Rightarrow> Calculate call list \<Rightarrow> cal_sys \<Rightarrow> bool" where
  "accepted_version k r h s \<longleftrightarrow> (\<forall>x. CStatusUpdate x None \<in> set h \<longrightarrow>
     (\<exists>c c' n. r = Some (c, n) \<and> cy_store s k = Some (c', n)))"

fun repeated :: "(ctrl_result \<times> go_error option) outcome \<Rightarrow> bool" where
  "repeated (Ret (res, err)) = (err \<noteq> None \<or> Requeue res)"
| "repeated (Panic p) = False"

text \<open>The controller and its cache.\<close>

inductive cy_ctrl :: "cal_sys \<Rightarrow> cal_sys \<Rightarrow> bool" where
  observe: "cy_ctrl s (s\<lparr>cy_cache := (cy_cache s)(k := cy_store s k), cy_queue := insert k (cy_queue s)\<rparr>)"
| start: "\<lbrakk>k \<in> cy_queue s; cy_running s k = None\<rbrakk> \<Longrightarrow>
     cy_ctrl s (s\<lparr>cy_queue := cy_queue s - {k}, cy_running := (cy_running s)(k \<mapsto> cy_cache s k)\<rparr>)"
| finish: "\<lbrakk>cy_running s k = Some r; reads r (api_Get e [] k); run_state (cal_Reconcile e k) [] = (out, h); accepted_version k r h s\<rbrakk> \<Longrightarrow>
     cy_ctrl s (fold (write_status k) h (s\<lparr>cy_running := (cy_running s)(k := None),
       cy_queue := (if repeated out then insert k (cy_queue s) else cy_queue s)\<rparr>))"

inductive_cases cy_userE: "cy_user f s s'"

inductive_cases cy_ctrlE: "cy_ctrl s s'"

subsection \<open>Invariant\<close>

definition settled :: "versioned option \<Rightarrow> bool" where
  "settled o' \<longleftrightarrow> (\<forall>c n. o' = Some (c, n) \<longrightarrow>
     (\<exists>v. spec_exact (cal_Spec c) = Some v \<and> cst_Result (cal_Status c) = word_of_int v))"

definition div_by_zero :: "Calculate \<Rightarrow> bool" where
  "div_by_zero c \<longleftrightarrow> cs_Action (cal_Spec c) = ''div'' \<and> cs_Second (cal_Spec c) = 0"

definition at_rest :: "cal_sys \<Rightarrow> NamespacedName \<Rightarrow> bool" where
  "at_rest s k \<longleftrightarrow> cy_cache s k = cy_store s k \<and> k \<notin> cy_queue s \<and> cy_running s k = None"

text \<open>The versions of a key that somebody knows, and what holds of a key: a version stands for one object, a run has read the cache as
  it is or the key is queued, and an object without its result is on its way to a run.\<close>

definition known :: "versioned option \<Rightarrow> versioned option \<Rightarrow> versioned option option \<Rightarrow> versioned set" where
  "known st ca ru = set_option st \<union> set_option ca \<union> (\<Union>r \<in> set_option ru. set_option r)"

definition key_inv :: "nat \<Rightarrow> versioned option \<Rightarrow> versioned option \<Rightarrow> versioned option option \<Rightarrow> bool \<Rightarrow> bool" where
  "key_inv m st ca ru q \<longleftrightarrow>
     (\<forall>x \<in> known st ca ru. snd x < m \<and> \<not> div_by_zero (fst x)) \<and>
     (\<forall>x \<in> known st ca ru. \<forall>y \<in> known st ca ru. snd x = snd y \<longrightarrow> x = y) \<and>
     (\<forall>r. ru = Some r \<longrightarrow> r = ca \<or> q) \<and>
     (settled st \<or> ca \<noteq> st \<or> q \<or> ru \<noteq> None)"

definition cy_inv :: "cal_sys \<Rightarrow> bool" where
  "cy_inv s \<longleftrightarrow> (\<forall>k. key_inv (cy_next s) (cy_store s k) (cy_cache s k) (cy_running s k) (k \<in> cy_queue s))"

section \<open>Lemmas\<close>

lemma Default_id [simp]: "Default c = c"
  by (simp add: Default_def)

lemma validated: "aggregate_law f \<Longrightarrow> snd (cal_validate f c) = None \<longleftrightarrow> \<not> div_by_zero c"
  by (simp add: cal_validate_def aggregate_law_def action_defs div_by_zero_def)

text \<open>A run, by what it read.\<close>

lemma run_not_read: "api_Get e [] k = Inl err \<Longrightarrow>
    run_state (cal_Reconcile e k) [] = (Ret (Result0, IgnoreNotFound err), [CGet k (Inl err)])"
  by (simp add: cal_Reconcile_def)

lemma run_undefined: "api_Get e [] k = Inr c \<Longrightarrow> spec_exact (cal_Spec c) = None \<Longrightarrow>
    \<exists>err. run_state (cal_Reconcile e k) [] = (Ret (Result0, Some err), [CGet k (Inr c)])"
  by (simp add: cal_Reconcile_def compute_exact)

lemma run_defined: "api_Get e [] k = Inr c \<Longrightarrow> spec_exact (cal_Spec c) = Some v \<Longrightarrow>
    x = c\<lparr>cal_Status := (cal_Status c)\<lparr>cst_Result := word_of_int v\<rparr>\<rparr> \<Longrightarrow> u = api_StatusUpdate e [CGet k (Inr c)] x \<Longrightarrow>
    run_state (cal_Reconcile e k) [] = (Ret (Result0, u), [CGet k (Inr c), CStatusUpdate x u])"
  by (simp add: cal_Reconcile_def compute_exact split: option.splits)

text \<open>The result is all there is in a status.\<close>

lemma status_simps: "st\<lparr>cst_Result := w\<rparr> = \<lparr>cst_Result = w\<rparr>" "st = \<lparr>cst_Result = w\<rparr> \<longleftrightarrow> cst_Result st = w"
  for st :: CalculateStatus
  by (cases st, simp)+

lemma run_ends:
  assumes "cy_running s k = Some r" "reads r (api_Get e [] k)" "run_state (cal_Reconcile e k) [] = (out, h)" "accepted_version k r h s"
    and s': "s' = fold (write_status k) h (s\<lparr>cy_running := (cy_running s)(k := None),
       cy_queue := (if repeated out then insert k (cy_queue s) else cy_queue s)\<rparr>)"
  obtains (again) "s' = s\<lparr>cy_running := (cy_running s)(k := None), cy_queue := insert k (cy_queue s)\<rparr>"
  | (absent) "r = None" "s' = s\<lparr>cy_running := (cy_running s)(k := None)\<rparr>"
  | (wrote) c c' n v where "r = Some (c, n)" "cy_store s k = Some (c', n)" "spec_exact (cal_Spec c) = Some v"
      "s' = (let b = s\<lparr>cy_running := (cy_running s)(k := None)\<rparr> in
         if cst_Result (cal_Status c') = word_of_int v then b else cy_put k (c'\<lparr>cal_Status := \<lparr>cst_Result = word_of_int v\<rparr>\<rparr>) b)"
proof (cases "api_Get e [] k")
  case (Inl err)
  note run = run_not_read [OF this]
  show ?thesis
  proof (cases r)
    case None
    with assms(3) s' run show ?thesis using again absent by (cases "IgnoreNotFound err") auto
  next
    case (Some cn)
    with assms(2) Inl have "\<not> IsNotFound err" by (cases cn) auto
    with assms(3) s' run show ?thesis using again by (auto simp: IgnoreNotFound_def)
  qed
next
  case (Inr c)
  with assms(2) obtain n where r: "r = Some (c, n)" by (cases r) auto
  show ?thesis
  proof (cases "spec_exact (cal_Spec c)")
    case None
    with run_undefined [OF Inr] assms(3) s' show ?thesis using again by auto
  next
    case (Some v)
    let ?x = "c\<lparr>cal_Status := (cal_Status c)\<lparr>cst_Result := word_of_int v\<rparr>\<rparr>"
    let ?u = "api_StatusUpdate e [CGet k (Inr c)] ?x"
    note run = run_defined [OF Inr Some refl refl]
    show ?thesis
    proof (cases ?u)
      case None
      with assms(3,4) run r obtain c' where c': "cy_store s k = Some (c', n)" by (auto simp: accepted_version_def)
      show ?thesis
        using wrote [OF r c' Some] assms(3) s' run None c' by (auto simp: Let_def status_simps)
    next
      case (Some err)
      with assms(3) s' run show ?thesis using again by auto
    qed
  qed
qed

text \<open>Nothing but the store and the counter changes when an object is written.\<close>

lemma cy_put_simps [simp]:
  "cy_store (cy_put k c s) = (cy_store s)(k \<mapsto> (c, cy_next s))" "cy_next (cy_put k c s) = cy_next s + 1"
  "cy_cache (cy_put k c s) = cy_cache s" "cy_queue (cy_put k c s) = cy_queue s" "cy_running (cy_put k c s) = cy_running s"
  by (simp_all add: cy_put_def)

text \<open>The steps of one key.\<close>

lemma key_inv_later: "key_inv m st ca ru q \<Longrightarrow> m \<le> m' \<Longrightarrow> key_inv m' st ca ru q"
  unfolding key_inv_def by (meson order_less_le_trans)

lemma key_inv_put:
  assumes "key_inv m st ca ru q" "\<not> div_by_zero c"
  shows "key_inv (m + 1) (Some (c, m)) ca ru q"
proof -
  have old: "x \<in> known st ca ru" if "x \<in> known (Some (c, m)) ca ru" "x \<noteq> (c, m)" for x
    using that by (auto simp: known_def)
  have less: "snd x < m" "\<not> div_by_zero (fst x)" if "x \<in> known st ca ru" for x
    using assms(1) that unfolding key_inv_def by blast+
  have "ca \<noteq> Some (c, m)" using less(1) [of "(c, m)"] by (auto simp: known_def)
  moreover have "snd x < m + 1 \<and> \<not> div_by_zero (fst x)" if "x \<in> known (Some (c, m)) ca ru" for x
    using old [OF that] less [of x] assms(2) by (cases "x = (c, m)") auto
  moreover have "x = y" if "x \<in> known (Some (c, m)) ca ru" "y \<in> known (Some (c, m)) ca ru" "snd x = snd y" for x y
    using assms(1) old [OF that(1)] old [OF that(2)] that(3) less(1) [of x] less(1) [of y]
    unfolding key_inv_def by (cases "x = (c, m)"; cases "y = (c, m)") auto
  moreover have "\<forall>r. ru = Some r \<longrightarrow> r = ca \<or> q" using assms(1) by (simp add: key_inv_def)
  ultimately show ?thesis unfolding key_inv_def by blast
qed

lemma key_inv_subset:
  assumes "key_inv m st ca ru q" "known st' ca' ru' \<subseteq> known st ca ru"
    and "\<forall>r. ru' = Some r \<longrightarrow> r = ca' \<or> q'" "settled st' \<or> ca' \<noteq> st' \<or> q' \<or> ru' \<noteq> None"
  shows "key_inv m st' ca' ru' q'"
  using assms unfolding key_inv_def by blast

lemma key_inv_delete:
  assumes "key_inv m st ca ru q"
  shows "key_inv m None ca ru q"
  by (rule key_inv_subset [OF assms]) (use assms in \<open>auto simp: known_def key_inv_def settled_def\<close>)

lemma key_inv_observe: "key_inv m st ca ru q \<Longrightarrow> key_inv m st st ru True"
  by (rule key_inv_subset) (auto simp: known_def)

lemma key_inv_start: "key_inv m st ca None q \<Longrightarrow> key_inv m st ca (Some ca) False"
  by (rule key_inv_subset) (auto simp: known_def)

lemma key_inv_again: "key_inv m st ca ru q \<Longrightarrow> key_inv m st ca None True"
  by (rule key_inv_subset) (auto simp: known_def)

lemma key_inv_absent:
  assumes "key_inv m st ca (Some None) q"
  shows "key_inv m st ca None q"
proof (rule key_inv_subset [OF assms])
  have "ca = None \<or> q" using assms unfolding key_inv_def by metis
  then show "settled st \<or> ca \<noteq> st \<or> q \<or> (None :: versioned option option) \<noteq> None" by (auto simp: settled_def)
qed (auto simp: known_def)

lemma key_inv_same:
  assumes "key_inv m (Some (c', n)) ca (Some (Some (c, n))) q"
  shows "c' = c"
proof -
  have "(c', n) \<in> known (Some (c', n)) ca (Some (Some (c, n)))" "(c, n) \<in> known (Some (c', n)) ca (Some (Some (c, n)))"
    by (simp_all add: known_def)
  then show ?thesis using assms unfolding key_inv_def by (metis prod.inject snd_conv)
qed

lemma key_inv_done: "key_inv m st ca ru q \<Longrightarrow> settled st \<Longrightarrow> key_inv m st ca None q"
  by (rule key_inv_subset) (auto simp: known_def)

text \<open>A step that changes one key.\<close>

lemma cy_inv_step:
  assumes "cy_inv s" "cy_next s \<le> cy_next s'"
    and "\<And>j. j \<noteq> k \<Longrightarrow> cy_store s' j = cy_store s j \<and> cy_cache s' j = cy_cache s j \<and> cy_running s' j = cy_running s j \<and>
      (j \<in> cy_queue s' \<longleftrightarrow> j \<in> cy_queue s)"
    and "key_inv (cy_next s') (cy_store s' k) (cy_cache s' k) (cy_running s' k) (k \<in> cy_queue s')"
  shows "cy_inv s'"
  unfolding cy_inv_def
proof
  fix j
  have "key_inv (cy_next s') (cy_store s j) (cy_cache s j) (cy_running s j) (j \<in> cy_queue s)"
    using assms(1,2) key_inv_later unfolding cy_inv_def by blast
  then show "key_inv (cy_next s') (cy_store s' j) (cy_cache s' j) (cy_running s' j) (j \<in> cy_queue s')"
    using assms(3) [of j] assms(4) by (cases "j = k") simp_all
qed

lemma cy_inv_user:
  assumes law: "aggregate_law f" and inv: "cy_inv s" and step: "cy_user f s s'"
  shows "cy_inv s'"
proof -
  have key: "key_inv (cy_next s) (cy_store s j) (cy_cache s j) (cy_running s j) (j \<in> cy_queue s)" for j
    using inv by (simp add: cy_inv_def)
  from step show ?thesis
  proof cases
    case (create k c)
    then have "\<not> div_by_zero c" using validated [OF law] by (simp add: ValidateCreate_def)
    from key_inv_put [OF key [of k] this] show ?thesis
      by (intro cy_inv_step [OF inv, of s' k]) (simp_all add: create(1))
  next
    case (update k old n c)
    then have "\<not> div_by_zero (c\<lparr>cal_Status := cal_Status old\<rparr>)"
      using validated [OF law, of c] by (simp add: ValidateUpdate_def div_by_zero_def)
    from key_inv_put [OF key [of k] this] show ?thesis
      by (intro cy_inv_step [OF inv, of s' k]) (simp_all add: update(1))
  next
    case (delete k old n)
    with key_inv_delete [OF key [of k]] show ?thesis by (intro cy_inv_step [OF inv, of s' k]) simp_all
  qed
qed

lemma cy_inv_ctrl:
  assumes inv: "cy_inv s" and step: "cy_ctrl s s'"
  shows "cy_inv s'"
proof -
  have key: "key_inv (cy_next s) (cy_store s j) (cy_cache s j) (cy_running s j) (j \<in> cy_queue s)" for j
    using inv by (simp add: cy_inv_def)
  from step show ?thesis
  proof cases
    case (observe k)
    with key_inv_observe [OF key [of k]] show ?thesis by (intro cy_inv_step [OF inv, of s' k]) simp_all
  next
    case (start k)
    with key_inv_start [of "cy_next s" "cy_store s k" "cy_cache s k" "k \<in> cy_queue s"] key [of k] show ?thesis
      by (intro cy_inv_step [OF inv, of s' k]) simp_all
  next
    case (finish k r e out h)
    from finish(2-5) finish(1) show ?thesis
    proof (cases rule: run_ends)
      case again
      with key_inv_again [OF key [of k]] show ?thesis by (intro cy_inv_step [OF inv, of s' k]) simp_all
    next
      case absent
      with key_inv_absent [of "cy_next s" "cy_store s k" "cy_cache s k"] key [of k] finish(2) show ?thesis
        by (intro cy_inv_step [OF inv, of s' k]) simp_all
    next
      case (wrote c c' n v)
      have k: "key_inv (cy_next s) (Some (c', n)) (cy_cache s k) (Some (Some (c, n))) (k \<in> cy_queue s)"
        using key [of k] wrote(1,2) finish(2) by simp
      have c: "c' = c" by (rule key_inv_same [OF k])
      have "\<not> div_by_zero c" using wrote(3) by (auto simp: div_by_zero_def spec_exact_def exact_def)
      then have nz: "\<not> div_by_zero (c\<lparr>cal_Status := \<lparr>cst_Result = w\<rparr>\<rparr>)" for w by (simp add: div_by_zero_def)
      show ?thesis
      proof (cases "cst_Result (cal_Status c') = word_of_int v")
        case True
        then have "settled (Some (c', n))" using wrote(3) c by (simp add: settled_def)
        from key_inv_done [OF k this] show ?thesis
          using wrote(2,4) True by (intro cy_inv_step [OF inv, of s' k]) (simp_all add: Let_def)
      next
        case False
        have "settled (Some (c\<lparr>cal_Status := \<lparr>cst_Result = word_of_int v\<rparr>\<rparr>, cy_next s))"
          using wrote(3) by (simp add: settled_def)
        from key_inv_done [OF key_inv_put [OF k nz] this] show ?thesis
          using wrote(2,4) False c by (intro cy_inv_step [OF inv, of s' k]) (simp_all add: Let_def)
      qed
    qed
  qed
qed

definition cy_reach :: "field_env \<Rightarrow> cal_sys \<Rightarrow> bool" where
  "cy_reach f s \<longleftrightarrow> (\<lambda>s s'. cy_user f s s' \<or> cy_ctrl s s')\<^sup>*\<^sup>* cy_init s"

lemma cy_inv_init: "cy_inv cy_init"
  by (simp add: cy_inv_def cy_init_def key_inv_def known_def settled_def)

lemma cy_reach_inv:
  assumes "aggregate_law f" "cy_reach f s"
  shows "cy_inv s"
  using assms(2) unfolding cy_reach_def
  by (induction rule: rtranclp_induct) (auto intro: cy_inv_init cy_inv_user [OF assms(1)] cy_inv_ctrl)

text \<open>A run whose read fails, and a run that nothing disturbs.\<close>

lemma failing_run:
  assumes "cy_running s k = Some r"
  shows "cy_ctrl s (s\<lparr>cy_running := (cy_running s)(k := None), cy_queue := insert k (cy_queue s)\<rparr>)"
proof -
  define e :: "Calculate kube_env" where "e = (mem_env undefined [])\<lparr>api_Get := \<lambda>_ _. Inl (PlainError ''timeout'')\<rparr>"
  have "reads r (api_Get e [] k)" by (cases r) (auto simp: e_def)
  moreover have run: "run_state (cal_Reconcile e k) [] = (Ret (Result0, Some (PlainError ''timeout'')), [CGet k (Inl (PlainError ''timeout''))])"
    by (simp add: run_not_read e_def IgnoreNotFound_def)
  ultimately show ?thesis
    using finish [OF assms _ run] by (simp add: accepted_version_def)
qed

lemma good_run:
  assumes "cy_running s k = Some (Some (c, n))" "cy_store s k = Some (c, n)" "spec_exact (cal_Spec c) = Some v"
  shows "cy_ctrl s (let b = s\<lparr>cy_running := (cy_running s)(k := None)\<rparr> in
     if cst_Result (cal_Status c) = word_of_int v then b else cy_put k (c\<lparr>cal_Status := \<lparr>cst_Result = word_of_int v\<rparr>\<rparr>) b)"
proof -
  define e where "e = mem_env (\<lambda>_. c) []"
  have get: "api_Get e [] k = Inr c" and upd: "api_StatusUpdate e h x = None" for h x by (simp_all add: e_def mem_env_def)
  note run = run_defined [OF get assms(3) refl refl, unfolded upd]
  have "reads (Some (c, n)) (api_Get e [] k)" by (simp add: get)
  from finish [OF assms(1) this run] show ?thesis
    using assms(2) by (simp add: accepted_version_def status_simps Let_def cong: if_cong)
qed

lemma calm_round:
  assumes "cy_running s k = None" and store: "cy_store s k = Some (c, n)" and v: "spec_exact (cal_Spec c) = Some v"
  obtains s' where "cy_ctrl\<^sup>*\<^sup>* s s'" "cy_running s' k = None" "k \<notin> cy_queue s'" "cy_cache s' k = Some (c, n)"
    "cy_store s' k = (if cst_Result (cal_Status c) = word_of_int v then Some (c, n)
       else Some (c\<lparr>cal_Status := \<lparr>cst_Result = word_of_int v\<rparr>\<rparr>, cy_next s))"
proof -
  let ?s1 = "s\<lparr>cy_cache := (cy_cache s)(k := cy_store s k), cy_queue := insert k (cy_queue s)\<rparr>"
  let ?s2 = "?s1\<lparr>cy_queue := cy_queue ?s1 - {k}, cy_running := (cy_running ?s1)(k \<mapsto> cy_cache ?s1 k)\<rparr>"
  let ?b = "?s2\<lparr>cy_running := (cy_running ?s2)(k := None)\<rparr>"
  let ?s3 = "if cst_Result (cal_Status c) = word_of_int v then ?b
    else cy_put k (c\<lparr>cal_Status := \<lparr>cst_Result = word_of_int v\<rparr>\<rparr>) ?b"
  have "cy_ctrl s ?s1" by (rule observe)
  moreover have "cy_ctrl ?s1 ?s2" by (rule start) (simp_all add: assms(1))
  moreover have "cy_ctrl ?s2 ?s3" using good_run [of ?s2 k c n v] store v by (simp add: Let_def split: if_splits)
  ultimately have "cy_ctrl\<^sup>*\<^sup>* s ?s3" by (meson r_into_rtranclp rtranclp_trans)
  then show ?thesis by (rule that) (simp_all add: store)
qed

section \<open>Properties\<close>

text \<open>C24. Webhook and controller together keep their promise, in every interleaving of users, stale reads, conflicts and failures. No
  division by zero is ever stored. An object on which nothing is left to do carries the exact result of its own specification, reduced
  modulo two to the 64; so an object whose action is unknown, which the webhook admits, never comes to rest. And from every reachable
  state in which the action of an object is known, the controller can bring it to rest without any further change of its specification.\<close>

theorem cal_system:
  assumes law: "aggregate_law f" and reach: "cy_reach f s" and obj: "cy_store s k = Some (c, n)"
  shows "\<not> (cs_Action (cal_Spec c) = ''div'' \<and> cs_Second (cal_Spec c) = 0) \<and>
    (at_rest s k \<longrightarrow> (\<exists>v. spec_exact (cal_Spec c) = Some v \<and>
       sint (cst_Result (cal_Status c)) = (v + 2 ^ 63) mod 2 ^ 64 - 2 ^ 63)) \<and>
    (cs_Action (cal_Spec c) \<notin> {''add'', ''sub'', ''mul'', ''div''} \<longrightarrow> \<not> at_rest s k) \<and>
    (cs_Action (cal_Spec c) \<in> {''add'', ''sub'', ''mul'', ''div''} \<longrightarrow>
       (\<exists>s' c' n'. cy_ctrl\<^sup>*\<^sup>* s s' \<and> at_rest s' k \<and> cy_store s' k = Some (c', n') \<and> cal_Spec c' = cal_Spec c))"
proof -
  have key: "key_inv (cy_next s) (Some (c, n)) (cy_cache s k) (cy_running s k) (k \<in> cy_queue s)"
    using cy_reach_inv [OF law reach] obj unfolding cy_inv_def by metis
  then have nz: "\<not> div_by_zero c" unfolding key_inv_def known_def by fastforce
  have rest: "settled (Some (c, n))" if "at_rest s k" using that key obj by (auto simp: at_rest_def key_inv_def)
  have known: "cs_Action (cal_Spec c) \<in> {''add'', ''sub'', ''mul'', ''div''} \<longleftrightarrow> spec_exact (cal_Spec c) \<noteq> None"
    using nz by (auto simp: div_by_zero_def spec_exact_def exact_def)
  have "\<exists>s' c' n'. cy_ctrl\<^sup>*\<^sup>* s s' \<and> at_rest s' k \<and> cy_store s' k = Some (c', n') \<and> cal_Spec c' = cal_Spec c"
    if v: "spec_exact (cal_Spec c) = Some v" for v
  proof -
    obtain t where t: "cy_ctrl\<^sup>*\<^sup>* s t" "cy_running t k = None" "cy_store t k = Some (c, n)"
    proof (cases "cy_running s k")
      case (Some r)
      from that [OF r_into_rtranclp [where r = cy_ctrl, OF failing_run [OF this]]] obj show ?thesis by simp
    qed (use obj that in blast)
    let ?c = "c\<lparr>cal_Status := \<lparr>cst_Result = word_of_int v\<rparr>\<rparr>"
    from calm_round [OF t(2,3) v] obtain t1 where t1: "cy_ctrl\<^sup>*\<^sup>* t t1" "cy_running t1 k = None" "k \<notin> cy_queue t1" "cy_cache t1 k = Some (c, n)"
      "cy_store t1 k = (if cst_Result (cal_Status c) = word_of_int v then Some (c, n) else Some (?c, cy_next t))" by blast
    show ?thesis
    proof (cases "cst_Result (cal_Status c) = word_of_int v")
      case True
      with t1 t(1) show ?thesis by (intro exI [of _ t1]) (auto simp: at_rest_def)
    next
      case False
      then have st: "cy_store t1 k = Some (?c, cy_next t)" and "spec_exact (cal_Spec ?c) = Some v" using t1(5) v by simp_all
      from calm_round [OF t1(2) this] obtain t2 where "cy_ctrl\<^sup>*\<^sup>* t1 t2" "cy_running t2 k = None" "k \<notin> cy_queue t2"
        "cy_cache t2 k = Some (?c, cy_next t)" "cy_store t2 k = Some (?c, cy_next t)" by auto
      with t(1) t1(1) show ?thesis by (intro exI [of _ t2]) (auto simp: at_rest_def)
    qed
  qed
  then show ?thesis
    using nz rest known by (auto simp: settled_def div_by_zero_def sint_word_of_int_wrap)
qed

theorem cal_system_witness:
  "\<exists>s c' n'. cy_reach demo_fields s \<and> cy_store s q0 = Some (demo_cal ''div'' (- 7) 2, 0) \<and>
     (\<exists>s'. cy_ctrl\<^sup>*\<^sup>* s s' \<and> at_rest s' q0 \<and> cy_store s' q0 = Some (c', n') \<and> cal_Spec c' = cal_Spec (demo_cal ''div'' (- 7) 2))"
proof -
  let ?s = "cy_put q0 (demo_cal ''div'' (- 7) 2) cy_init"
  have law: "aggregate_law demo_fields" by (simp add: aggregate_law_def demo_fields_def split: list.splits)
  have "cy_user demo_fields cy_init ?s"
    using create [of cy_init q0 demo_fields "demo_cal ''div'' (- 7) 2"] validated [OF law, of "demo_cal ''div'' (- 7) 2"]
    by (simp add: cy_init_def ValidateCreate_def div_by_zero_def demo_cal_def)
  then have reach: "cy_reach demo_fields ?s" by (simp add: cy_reach_def r_into_rtranclp)
  have obj: "cy_store ?s q0 = Some (demo_cal ''div'' (- 7) 2, 0)" by (simp add: cy_init_def)
  have "cs_Action (cal_Spec (demo_cal ''div'' (- 7) 2)) = ''div''" by (simp add: demo_cal_def)
  with cal_system [OF law reach obj] reach obj show ?thesis by blast
qed

end
