(* ===== verification/Manager_Setup.thy ===== *)
theory Manager_Setup
  imports Kube_Api
begin

text \<open>
  The main functions that set up a server process: the controller managers of \<open>src/webhook/using-kubebuilder/cmd/main.go\<close> and
  \<open>src/pod-operator/main.go\<close>, and the webhook server of \<open>src/webhook/using-byhand/by-service/main.go\<close>.

  A manager is set up by a sequence of steps of the controller library, each of which may fail. What a step answers is a
  parameter that may depend on the steps before it. The webhook server runs in a goroutine of its own beside the main
  function, so that program is a step relation.
\<close>

section \<open>Definitions\<close>

subsection \<open>Controller managers\<close>

record tls_config =
  tc_NextProtos :: "string list"

record registration =
  rg_For :: string
  rg_Owns :: "string list"
  rg_Recorder :: "string option"

record mgr_options =
  mo_MetricsBindAddress :: "string option"
  mo_SecureServing :: bool
  mo_FilterProvider :: bool
  mo_MetricsTLSOpts :: "(tls_config \<Rightarrow> tls_config) list"
  mo_WebhookTLSOpts :: "(tls_config \<Rightarrow> tls_config) list"
  mo_HealthProbeBindAddress :: "string option"
  mo_LeaderElection :: bool
  mo_LeaderElectionID :: string

datatype mgr_step =
    AddToScheme string
  | GetConfigOrDie
  | NewManager mgr_options
  | SetupController registration
  | SetupWebhook string
  | AddHealthzCheck string
  | AddReadyzCheck string
  | StartManager

datatype mgr_call = Step mgr_step "go_error option" | LogError string go_error

datatype process_end = Returned | Exited nat | Panicked go_error

text \<open>What a program does with the error of a step: \<open>utilruntime.Must\<close> panics, the others log it and exit.\<close>

datatype on_error = MustPanic | LogExit string

record setup_env =
  su_Getenv :: "string \<Rightarrow> string"
  su_step :: "mgr_call list \<Rightarrow> mgr_step \<Rightarrow> go_error option"

text \<open>The steps in order, up to the first that fails.\<close>

fun run_steps :: "setup_env \<Rightarrow> (mgr_step \<times> on_error) list \<Rightarrow> (mgr_call list, process_end) state" where
  "run_steps e [] = return Returned"
| "run_steps e ((s, policy) # steps) = do {
     err \<leftarrow> perform (\<lambda>h. su_step e h s) (Step s);
     (case err of
        Some er \<Rightarrow>
          (case policy of
             MustPanic \<Rightarrow> return (Panicked er)
           | LogExit msg \<Rightarrow> do { note_call (LogError msg er); return (Exited 1) })
      | None \<Rightarrow> run_steps e steps)
   }"

text \<open>The flags of the two programs, with their defaults.\<close>

record mgr_flags =
  mf_metricsAddr :: string
  mf_probeAddr :: string
  mf_enableLeaderElection :: bool
  mf_secureMetrics :: bool
  mf_enableHTTP2 :: bool

definition calc_flags :: mgr_flags where
  "calc_flags = \<lparr>mf_metricsAddr = ''0'', mf_probeAddr = '':8081'', mf_enableLeaderElection = False, mf_secureMetrics = True,
     mf_enableHTTP2 = False\<rparr>"

definition disableHTTP2 :: "tls_config \<Rightarrow> tls_config" where
  "disableHTTP2 c = c\<lparr>tc_NextProtos := [''http/1.1'']\<rparr>"

definition calc_options :: "mgr_flags \<Rightarrow> mgr_options" where
  "calc_options f =
     (let tlsOpts = (if \<not> mf_enableHTTP2 f then [] @ [disableHTTP2] else []) in
      \<lparr>mo_MetricsBindAddress = Some (mf_metricsAddr f), mo_SecureServing = mf_secureMetrics f, mo_FilterProvider = True,
       mo_MetricsTLSOpts = tlsOpts, mo_WebhookTLSOpts = tlsOpts, mo_HealthProbeBindAddress = Some (mf_probeAddr f),
       mo_LeaderElection = mf_enableLeaderElection f, mo_LeaderElectionID = ''53f2a732.superproj.com''\<rparr>)"

definition calc_SetupWithManager :: registration where
  "calc_SetupWithManager = \<lparr>rg_For = ''Calculate'', rg_Owns = [], rg_Recorder = None\<rparr>"

text \<open>The webhook is built for the type of its receiver; the library finds out which webhook interfaces it has.\<close>

definition SetupWebhookWithManager :: mgr_step where
  "SetupWebhookWithManager = SetupWebhook ''Calculate''"

definition calc_steps :: "setup_env \<Rightarrow> mgr_flags \<Rightarrow> (mgr_step \<times> on_error) list" where
  "calc_steps e f =
     [(AddToScheme ''clientgo'', MustPanic), (AddToScheme ''math/v1'', MustPanic),
      (GetConfigOrDie, LogExit ''unable to get kubeconfig''),
      (NewManager (calc_options f), LogExit ''unable to start manager''),
      (SetupController calc_SetupWithManager, LogExit ''unable to create controller'')] @
     (if su_Getenv e ''ENABLE_WEBHOOKS'' \<noteq> ''false'' then [(SetupWebhookWithManager, LogExit ''unable to create webhook'')] else []) @
     [(AddHealthzCheck ''healthz'', LogExit ''unable to set up health check''),
      (AddReadyzCheck ''readyz'', LogExit ''unable to set up ready check'')]"

definition calc_main :: "setup_env \<Rightarrow> mgr_flags \<Rightarrow> (mgr_call list, process_end) state" where
  "calc_main e f = run_steps e (calc_steps e f @ [(StartManager, LogExit ''problem running manager'')])"

definition pod_flags :: mgr_flags where
  "pod_flags = \<lparr>mf_metricsAddr = '':8080'', mf_probeAddr = '':8081'', mf_enableLeaderElection = False, mf_secureMetrics = False,
     mf_enableHTTP2 = False\<rparr>"

text \<open>The options of the pod operator: of its flags only the leader election is used.\<close>

definition pod_options :: "mgr_flags \<Rightarrow> mgr_options" where
  "pod_options f =
     \<lparr>mo_MetricsBindAddress = None, mo_SecureServing = False, mo_FilterProvider = False, mo_MetricsTLSOpts = [], mo_WebhookTLSOpts = [],
      mo_HealthProbeBindAddress = None, mo_LeaderElection = mf_enableLeaderElection f, mo_LeaderElectionID = ''pod-operator.mycompany.com''\<rparr>"

definition pod_SetupWithManager :: registration where
  "pod_SetupWithManager = \<lparr>rg_For = ''PodManager'', rg_Owns = [''Pod''], rg_Recorder = Some ''podmanager-controller''\<rparr>"

definition pod_steps :: "mgr_flags \<Rightarrow> (mgr_step \<times> on_error) list" where
  "pod_steps f =
     [(AddToScheme ''clientgo'', MustPanic), (AddToScheme ''apps/v1'', MustPanic),
      (GetConfigOrDie, LogExit ''unable to get kubeconfig''),
      (NewManager (pod_options f), LogExit ''unable to start manager''),
      (SetupController pod_SetupWithManager, LogExit ''unable to create controller'')]"

definition pod_main :: "setup_env \<Rightarrow> mgr_flags \<Rightarrow> (mgr_call list, process_end) state" where
  "pod_main e f = run_steps e (pod_steps f @ [(StartManager, LogExit ''problem running manager'')])"

subsection \<open>The webhook server\<close>

record WhSvrParameters =
  wp_port :: int64
  wp_certFile :: string
  wp_keyFile :: string

definition wh_defaults :: WhSvrParameters where
  "wh_defaults = \<lparr>wp_port = 443, wp_certFile = ''/etc/webhook/certs/cert.pem'', wp_keyFile = ''/etc/webhook/certs/key.pem''\<rparr>"

definition wh_addr :: "WhSvrParameters \<Rightarrow> string" where
  "wh_addr p = '':'' @ show_int (sint (wp_port p))"


datatype listener = Pending | Serving string | ListenFailed go_error | ShutDown

record wh_state =
  ws_listener :: listener
  ws_signalled :: bool
  ws_returned :: bool

text \<open>Without a key pair the main function logs the error and returns; otherwise it starts the server and waits for a signal.\<close>

definition wh_main :: "(string \<Rightarrow> string \<Rightarrow> go_error option) \<Rightarrow> WhSvrParameters \<Rightarrow> wh_state" where
  "wh_main LoadX509KeyPair p =
     \<lparr>ws_listener = Pending, ws_signalled = False, ws_returned = (LoadX509KeyPair (wp_certFile p) (wp_keyFile p) \<noteq> None)\<rparr>"

inductive wh_step :: "WhSvrParameters \<Rightarrow> wh_state \<Rightarrow> wh_state \<Rightarrow> bool" for p where
  listen: "\<not> ws_returned s \<Longrightarrow> ws_listener s = Pending \<Longrightarrow> wh_step p s (s\<lparr>ws_listener := Serving (wh_addr p)\<rparr>)"
| fail: "\<not> ws_returned s \<Longrightarrow> ws_listener s = Pending \<or> ws_listener s = Serving (wh_addr p) \<Longrightarrow>
    wh_step p s (s\<lparr>ws_listener := ListenFailed err\<rparr>)"
| signal: "\<not> ws_returned s \<Longrightarrow> \<not> ws_signalled s \<Longrightarrow> wh_step p s (s\<lparr>ws_signalled := True\<rparr>)"
| shutdown: "\<not> ws_returned s \<Longrightarrow> ws_signalled s \<Longrightarrow> wh_step p s (s\<lparr>ws_listener := ShutDown, ws_returned := True\<rparr>)"

inductive_cases wh_stepE: "wh_step p s s'"

section \<open>Lemmas\<close>

text \<open>What a log of steps shows: all succeeded, or all up to one that failed and ended the process.\<close>

inductive steps_log :: "(mgr_step \<times> on_error) list \<Rightarrow> mgr_call list \<Rightarrow> process_end \<Rightarrow> bool" where
  complete: "steps_log [] [] Returned"
| ok: "steps_log steps h r \<Longrightarrow> steps_log ((s, policy) # steps) (Step s None # h) r"
| must: "steps_log ((s, MustPanic) # steps) [Step s (Some er)] (Panicked er)"
| log: "steps_log ((s, LogExit msg) # steps) [Step s (Some er), LogError msg er] (Exited 1)"

lemma run_steps_log: "run_state (run_steps e steps) h = (r, h') \<Longrightarrow> \<exists>c. h' = h @ c \<and> steps_log steps c r"
proof (induction steps arbitrary: h)
  case Nil
  then show ?case by (auto intro: complete)
next
  case (Cons x steps)
  obtain s policy where x: "x = (s, policy)" by (cases x)
  show ?case
  proof (cases "su_step e h s")
    case None
    then have "run_state (run_steps e steps) (h @ [Step s None]) = (r, h')" using Cons.prems x by simp
    from Cons.IH [OF this] obtain c where "h' = (h @ [Step s None]) @ c" "steps_log steps c r" by blast
    then show ?thesis using ok [of steps c r s policy] x by (intro exI [of _ "Step s None # c"]) simp
  next
    case (Some er)
    then show ?thesis using Cons.prems x by (cases policy) (auto intro: must log [simplified])
  qed
qed

lemma steps_log_Returned: "steps_log steps h r \<Longrightarrow> r = Returned \<longleftrightarrow> (\<forall>s er. Step s (Some er) \<notin> set h)"
  by (induction rule: steps_log.induct) auto

lemma steps_log_steps: "steps_log steps h r \<Longrightarrow> Step s y \<in> set h \<Longrightarrow> s \<in> fst ` set steps"
  by (induction rule: steps_log.induct) auto

lemma steps_log_last:
  assumes "steps_log steps h r" and "steps = init @ [(s, p)]" and "s \<notin> fst ` set init" and "Step s y \<in> set h"
  shows "(\<forall>x\<in>set init. Step (fst x) None \<in> set h) \<and> (\<forall>s' er. Step s' (Some er) \<in> set h \<longrightarrow> s' = s)"
  using assms
proof (induction arbitrary: init rule: steps_log.induct)
  case (ok steps h r s1 policy)
  show ?case
  proof (cases init)
    case Nil
    then show ?thesis using ok by (auto dest: steps_log_steps)
  next
    case (Cons x xs)
    then have "steps = xs @ [(s, p)]" "x = (s1, policy)" "s1 \<noteq> s" using ok.prems(1,2) by auto
    then show ?thesis using ok.IH [of xs] ok.prems Cons by auto
  qed
next
  case (must s1 steps er)
  then show ?case by (cases init) auto
next
  case (log s1 msg steps er)
  then show ?case by (cases init) auto
qed simp

lemma wh_failed_waits:
  assumes "LoadX509KeyPair (wp_certFile p) (wp_keyFile p) = None"
  shows "\<exists>s. (wh_step p)\<^sup>*\<^sup>* (wh_main LoadX509KeyPair p) s \<and> ws_listener s = ListenFailed err \<and> \<not> ws_returned s \<and>
    (\<forall>s'. wh_step p s s' \<longrightarrow> s' = s\<lparr>ws_signalled := True\<rparr>)"
proof -
  let ?init = "wh_main LoadX509KeyPair p"
  let ?s = "?init\<lparr>ws_listener := ListenFailed err\<rparr>"
  have "wh_step p ?init ?s" by (rule fail) (simp_all add: wh_main_def assms)
  moreover have "wh_step p ?s s' \<Longrightarrow> s' = ?s\<lparr>ws_signalled := True\<rparr>" for s'
    by (erule wh_stepE) (auto simp: wh_main_def)
  ultimately show ?thesis by (intro exI [of _ ?s]) (auto simp: wh_main_def assms)
qed

section \<open>Properties\<close>

text \<open>A manager is started only when everything before succeeded. In any run of either program at most one step fails, the
  process ends there, and it returns normally exactly when none failed. When the start of the Calculate manager is reached, its
  controller and both health checks are registered, and its webhook exactly unless \<open>ENABLE_WEBHOOKS\<close> is \<open>false\<close>. Unless HTTP/2
  is enabled, the metrics and the webhook server offer only HTTP/1.1. The pod operator ignores its two address flags.\<close>

theorem manager_setup:
  assumes "run_state (calc_main e f) [] = (rc, hc)" and "run_state (pod_main e g) [] = (rp, hp)"
  shows "(rc = Returned \<longleftrightarrow> (\<forall>s er. Step s (Some er) \<notin> set hc)) \<and> (rp = Returned \<longleftrightarrow> (\<forall>s er. Step s (Some er) \<notin> set hp)) \<and>
    (\<forall>y. Step StartManager y \<in> set hc \<longrightarrow>
       (\<forall>s er. Step s (Some er) \<in> set hc \<longrightarrow> s = StartManager) \<and>
       Step (NewManager (calc_options f)) None \<in> set hc \<and> Step (SetupController calc_SetupWithManager) None \<in> set hc \<and>
       Step (AddHealthzCheck ''healthz'') None \<in> set hc \<and> Step (AddReadyzCheck ''readyz'') None \<in> set hc \<and>
       (Step (SetupWebhook ''Calculate'') None \<in> set hc \<longleftrightarrow> su_Getenv e ''ENABLE_WEBHOOKS'' \<noteq> ''false'')) \<and>
    (\<forall>y. Step StartManager y \<in> set hp \<longrightarrow>
       (\<forall>s er. Step s (Some er) \<in> set hp \<longrightarrow> s = StartManager) \<and> Step (SetupController pod_SetupWithManager) None \<in> set hp) \<and>
    (\<forall>c opts. opts \<in> {mo_MetricsTLSOpts (calc_options f), mo_WebhookTLSOpts (calc_options f)} \<longrightarrow>
       tc_NextProtos (fold (\<lambda>opt c. opt c) opts c) = (if mf_enableHTTP2 f then tc_NextProtos c else [''http/1.1''])) \<and>
    (\<forall>a b. pod_options (g\<lparr>mf_metricsAddr := a, mf_probeAddr := b\<rparr>) = pod_options g)"
proof -
  have c: "steps_log (calc_steps e f @ [(StartManager, LogExit ''problem running manager'')]) hc rc"
    using run_steps_log [OF assms(1) [unfolded calc_main_def]] by simp
  have p: "steps_log (pod_steps g @ [(StartManager, LogExit ''problem running manager'')]) hp rp"
    using run_steps_log [OF assms(2) [unfolded pod_main_def]] by simp
  have n: "StartManager \<notin> fst ` set (calc_steps e f)" "StartManager \<notin> fst ` set (pod_steps g)"
    by (auto simp: calc_steps_def SetupWebhookWithManager_def pod_steps_def)
  have w: "SetupWebhook ''Calculate'' \<in> fst ` set (calc_steps e f) \<longleftrightarrow> su_Getenv e ''ENABLE_WEBHOOKS'' \<noteq> ''false''"
    by (auto simp: calc_steps_def SetupWebhookWithManager_def)
  have init: "NewManager (calc_options f) \<in> fst ` set (calc_steps e f)" "SetupController calc_SetupWithManager \<in> fst ` set (calc_steps e f)"
    "AddHealthzCheck ''healthz'' \<in> fst ` set (calc_steps e f)" "AddReadyzCheck ''readyz'' \<in> fst ` set (calc_steps e f)"
    "SetupController pod_SetupWithManager \<in> fst ` set (pod_steps g)"
    by (simp_all add: calc_steps_def SetupWebhookWithManager_def pod_steps_def)
  have tls: "tc_NextProtos (fold (\<lambda>opt c. opt c) opts c) = (if mf_enableHTTP2 f then tc_NextProtos c else [''http/1.1''])"
    if "opts \<in> {mo_MetricsTLSOpts (calc_options f), mo_WebhookTLSOpts (calc_options f)}" for c opts
    using that by (auto simp: calc_options_def Let_def disableHTTP2_def)
  note lc = steps_log_last [OF c refl n(1)] and lp = steps_log_last [OF p refl n(2)]
  have calc: "(\<forall>s er. Step s (Some er) \<in> set hc \<longrightarrow> s = StartManager) \<and>
       Step (NewManager (calc_options f)) None \<in> set hc \<and> Step (SetupController calc_SetupWithManager) None \<in> set hc \<and>
       Step (AddHealthzCheck ''healthz'') None \<in> set hc \<and> Step (AddReadyzCheck ''readyz'') None \<in> set hc \<and>
       (Step (SetupWebhook ''Calculate'') None \<in> set hc \<longleftrightarrow> su_Getenv e ''ENABLE_WEBHOOKS'' \<noteq> ''false'')"
    if "Step StartManager y \<in> set hc" for y
  proof -
    have "Step s None \<in> set hc" if "s \<in> fst ` set (calc_steps e f)" for s using lc [OF \<open>Step StartManager y \<in> set hc\<close>] that by auto
    moreover have "SetupWebhook ''Calculate'' \<in> fst ` set (calc_steps e f)" if "Step (SetupWebhook ''Calculate'') None \<in> set hc"
      using steps_log_steps [OF c that] by auto
    ultimately show ?thesis using lc [OF that] init w by blast
  qed
  have pod: "(\<forall>s er. Step s (Some er) \<in> set hp \<longrightarrow> s = StartManager) \<and> Step (SetupController pod_SetupWithManager) None \<in> set hp"
    if "Step StartManager y \<in> set hp" for y
    using lp [OF that] init(5) by auto
  show ?thesis
    using steps_log_Returned [OF c] steps_log_Returned [OF p] calc pod tls
    by (simp add: pod_options_def)
qed

definition demo_setup :: setup_env where
  "demo_setup = \<lparr>su_Getenv = (\<lambda>_. ''''), su_step = (\<lambda>h s. None)\<rparr>"

theorem manager_setup_witness:
  "Step StartManager None \<in> set (snd (run_state (calc_main demo_setup calc_flags) [])) \<and>
   Step (SetupWebhook ''Calculate'') None \<in> set (snd (run_state (calc_main demo_setup calc_flags) []))"
proof -
  have "Step StartManager None \<in> set (snd (run_state (calc_main demo_setup calc_flags) []))"
    by (simp add: calc_main_def calc_steps_def SetupWebhookWithManager_def demo_setup_def)
  moreover have "su_Getenv demo_setup ''ENABLE_WEBHOOKS'' \<noteq> ''false''" by (simp add: demo_setup_def)
  ultimately show ?thesis
    using manager_setup [OF prod.collapse [symmetric] prod.collapse [symmetric], of demo_setup calc_flags pod_flags] by blast
qed

end
