(* ===== verification/Event_Delivery.thy ===== *)
theory Event_Delivery
  imports Informer_Programs
begin

text \<open>
  The work-queue controllers as a whole: the cache of the informer, the event handlers, the queue and the workers of
  \<open>src/client-go/workqueue/main.go\<close> and of the official example, composed from the definitions of \<open>Workqueue_Controller\<close>
  (\<open>on_event\<close>, \<open>cm_process\<close>, \<open>processNextItem\<close>).

  The informer and the queue are libraries; the step relation \<open>ev_step\<close> keeps of them what is documented. The informer takes a
  change into its cache and notifies the handlers of it afterwards, in order. The queue holds a key at most once, does not
  hand out a key that a worker is processing, and hands it out again when it was added meanwhile; a key added with a rate limit
  is added after some time. To say what a worker has seen, the state counts the changes of each key in the cache and
  remembers the count at the last lookup.
\<close>

section \<open>Definitions\<close>

subsection \<open>Events\<close>

text \<open>The key an event is about, when \<open>kf\<close> gives the key of an object.\<close>

fun object_key :: "('o \<Rightarrow> key) \<Rightarrow> 'o delivered \<Rightarrow> key" where
  "object_key kf (Obj x) = kf x"
| "object_key kf (DeletedFinalStateUnknown k x) = k"

fun about :: "('o \<Rightarrow> key) \<Rightarrow> 'o delivered event \<Rightarrow> key" where
  "about kf (AddEvent obj) = object_key kf obj"
| "about kf (UpdateEvent old new) = object_key kf new"
| "about kf (DeleteEvent obj) = object_key kf obj"

text \<open>Only a deletion can be delivered as a tombstone.\<close>

fun well_formed :: "'o delivered event \<Rightarrow> bool" where
  "well_formed (AddEvent obj) = (\<exists>x. obj = Obj x)"
| "well_formed (UpdateEvent old new) = (\<exists>x. new = Obj x)"
| "well_formed (DeleteEvent obj) = True"

text \<open>The documented behaviour of the key functions of the client library.\<close>

definition key_law :: "('o \<Rightarrow> key) \<Rightarrow> 'o delivered key_env \<Rightarrow> bool" where
  "key_law kf K \<longleftrightarrow>
     (\<forall>x. MetaNamespaceKeyFunc K (Obj x) = Some (kf x)) \<and>
     (\<forall>x. DeletionHandlingMetaNamespaceKeyFunc K (Obj x) = Some (kf x)) \<and>
     (\<forall>k x. DeletionHandlingMetaNamespaceKeyFunc K (DeletedFinalStateUnknown k x) = Some k)"

text \<open>The handlers find the key of an event.\<close>

definition handles :: "('o \<Rightarrow> key) \<Rightarrow> ('o delivered event \<Rightarrow> key option) \<Rightarrow> bool" where
  "handles kf H \<longleftrightarrow> (\<forall>ev. well_formed ev \<longrightarrow> H ev = Some (about kf ev))"

subsection \<open>The whole controller\<close>

record 'o ev_state = wq_state +
  pending :: "'o delivered event list"
  dirty :: "key set"
  delayed :: "key set"
  changes :: "key \<Rightarrow> nat"
  seen :: "key \<Rightarrow> nat"

definition ev_init :: "'o ev_state" where
  "ev_init = \<lparr>workers = (\<lambda>_. None), processing = {}, requeues = (\<lambda>_. 0), crashed = False,
     pending = [], dirty = {}, delayed = {}, changes = (\<lambda>_. 0), seen = (\<lambda>_. 0)\<rparr>"

text \<open>\<open>queue_key\<close> is what a handler does with the key of its event, if it got one.\<close>

definition queue_key :: "key option \<Rightarrow> key set \<Rightarrow> key set" where
  "queue_key r d = (case r of None \<Rightarrow> d | Some k \<Rightarrow> insert k d)"

inductive ev_step :: "('o \<Rightarrow> key) \<Rightarrow> ('o delivered event \<Rightarrow> key option) \<Rightarrow> (nat \<Rightarrow> key \<Rightarrow> wq_prog) \<Rightarrow> nat \<Rightarrow> 'o ev_state \<Rightarrow> 'o ev_state \<Rightarrow> bool"
  for kf H body n where
  change: "\<lbrakk>\<not> crashed s; well_formed ev; k = about kf ev\<rbrakk> \<Longrightarrow>
     ev_step kf H body n s (s\<lparr>changes := (changes s)(k := changes s k + 1), pending := pending s @ [ev]\<rparr>)"
| notify: "\<lbrakk>\<not> crashed s; pending s = ev # evs\<rbrakk> \<Longrightarrow>
     ev_step kf H body n s (s\<lparr>pending := evs, dirty := queue_key (H ev) (dirty s)\<rparr>)"
| get: "\<lbrakk>\<not> crashed s; w < n; workers s w = None; k \<in> dirty s; k \<notin> processing s\<rbrakk> \<Longrightarrow>
     ev_step kf H body n s (s\<lparr>workers := (workers s)(w := Some (body w k)), processing := insert k (processing s), dirty := dirty s - {k}\<rparr>)"
| lookup: "\<lbrakk>\<not> crashed s; workers s w = Some (PLookup k c)\<rbrakk> \<Longrightarrow>
     ev_step kf H body n s (s\<lparr>workers := (workers s)(w := Some (c r)), seen := (seen s)(k := changes s k)\<rparr>)"
| num_requeues: "\<lbrakk>\<not> crashed s; workers s w = Some (PNumRequeues k c)\<rbrakk> \<Longrightarrow>
     ev_step kf H body n s (s\<lparr>workers := (workers s)(w := Some (c (requeues s k)))\<rparr>)"
| forget: "\<lbrakk>\<not> crashed s; workers s w = Some (PForget k p)\<rbrakk> \<Longrightarrow>
     ev_step kf H body n s (s\<lparr>workers := (workers s)(w := Some p), requeues := (requeues s)(k := 0)\<rparr>)"
| add_rate_limited: "\<lbrakk>\<not> crashed s; workers s w = Some (PAddRateLimited k p)\<rbrakk> \<Longrightarrow>
     ev_step kf H body n s (s\<lparr>workers := (workers s)(w := Some p), requeues := (requeues s)(k := requeues s k + 1), delayed := insert k (delayed s)\<rparr>)"
| due: "\<lbrakk>\<not> crashed s; k \<in> delayed s\<rbrakk> \<Longrightarrow>
     ev_step kf H body n s (s\<lparr>delayed := delayed s - {k}, dirty := insert k (dirty s)\<rparr>)"
| finish: "\<lbrakk>\<not> crashed s; workers s w = Some (PDone k c)\<rbrakk> \<Longrightarrow>
     ev_step kf H body n s (s\<lparr>workers := (workers s)(w := None), processing := processing s - {k}, crashed := c\<rparr>)"
| return: "\<lbrakk>\<not> crashed s; workers s w = Some (PReturn c)\<rbrakk> \<Longrightarrow>
     ev_step kf H body n s (s\<lparr>workers := (workers s)(w := None), crashed := c\<rparr>)"

inductive_cases ev_stepE: "ev_step kf H body n s s'"

text \<open>What is forgotten of the state gives a state of \<open>Workqueue_Controller\<close>.\<close>

definition queue_of :: "'o ev_state \<Rightarrow> wq_state" where
  "queue_of s = \<lparr>workers = workers s, processing = processing s, requeues = requeues s, crashed = crashed s\<rparr>"

text \<open>A change that no worker has seen is on its way.\<close>

definition on_its_way :: "('o \<Rightarrow> key) \<Rightarrow> 'o ev_state \<Rightarrow> key \<Rightarrow> bool" where
  "on_its_way kf s k \<longleftrightarrow> (\<exists>ev\<in>set (pending s). about kf ev = k) \<or> k \<in> dirty s \<or> (\<exists>w c. workers s w = Some (PLookup k c))"

definition ev_inv :: "('o \<Rightarrow> key) \<Rightarrow> 'o ev_state \<Rightarrow> bool" where
  "ev_inv kf s \<longleftrightarrow> list_all well_formed (pending s) \<and> (\<forall>k. seen s k \<le> changes s k) \<and>
     (\<forall>k. seen s k < changes s k \<longrightarrow> on_its_way kf s k)"

definition at_rest :: "'o ev_state \<Rightarrow> bool" where
  "at_rest s \<longleftrightarrow> pending s = [] \<and> dirty s = {} \<and> (\<forall>w. workers s w = None)"

text \<open>The next lookup of a missing object, and what follows it, returns and does not lead to a panic.\<close>

primrec calm :: "wq_prog \<Rightarrow> bool" where
  "calm (PLookup k c) = calm (c Missing)"
| "calm (PNumRequeues k c) = (\<forall>m. calm (c m))"
| "calm (PForget k p) = calm p"
| "calm (PAddRateLimited k p) = calm p"
| "calm (PDone k c) = (\<not> c)"
| "calm (PReturn c) = (\<not> c)"
| "calm PBlock = False"

section \<open>Lemmas\<close>

lemma on_event_handles:
  assumes "key_law kf K"
  shows "handles kf (on_event K)" and "handles kf (pc_on_event K)"
proof -
  have eq: "pc_on_event K ev = on_event K ev" for ev by (cases ev) simp_all
  have "on_event K ev = Some (about kf ev)" if "well_formed ev" for ev
    using that assms
    by (cases ev; cases "case ev of AddEvent x \<Rightarrow> x | UpdateEvent x y \<Rightarrow> y | DeleteEvent x \<Rightarrow> x") (auto simp: key_law_def)
  then show "handles kf (on_event K)" and "handles kf (pc_on_event K)" by (simp_all add: handles_def eq)
qed

lemma queue_of_sel [simp]:
  "workers (queue_of s) = workers s" "processing (queue_of s) = processing s" "requeues (queue_of s) = requeues s"
  "crashed (queue_of s) = crashed s"
  by (simp_all add: queue_of_def)

text \<open>Every step is a step of the queue and its workers, or leaves them alone.\<close>

lemma ev_step_queue: "ev_step kf H body n s s' \<Longrightarrow> wq_step body (queue_of s) (queue_of s') \<or> queue_of s' = queue_of s"
proof (induction rule: ev_step.induct)
  case (get s w k)
  then show ?case using wq_step.get [of "queue_of s" w k body] by (simp add: queue_of_def)
next
  case (lookup s w k c r)
  then show ?case using wq_step.lookup [of "queue_of s" w k c body r] by (simp add: queue_of_def)
next
  case (num_requeues s w k c)
  then show ?case using wq_step.num_requeues [of "queue_of s" w k c body] by (simp add: queue_of_def)
next
  case (forget s w k p)
  then show ?case using wq_step.forget [of "queue_of s" w k p body] by (simp add: queue_of_def)
next
  case (add_rate_limited s w k p)
  then show ?case using wq_step.add_rate_limited [of "queue_of s" w k p body] by (simp add: queue_of_def)
next
  case (finish s w k c)
  then show ?case using wq_step.finish [of "queue_of s" w k c body] by (simp add: queue_of_def)
next
  case (return s w c)
  then show ?case using wq_step.return [of "queue_of s" w c body] by (simp add: queue_of_def)
qed (simp_all add: queue_of_def)

lemma ev_reach_queue: "(ev_step kf H body n)\<^sup>*\<^sup>* ev_init s \<Longrightarrow> wq_reach body (queue_of s)"
proof (induction rule: rtranclp_induct)
  case base
  show ?case using wq_reach.init [of body] by (simp add: queue_of_def ev_init_def wq_init_def)
next
  case (step s s')
  with ev_step_queue [OF step.hyps(2)] show ?case by (auto intro: wq_reach.step)
qed

subsection \<open>No change is lost\<close>

text \<open>A handler that begins with a lookup of its key, and is not about to panic then.\<close>

locale looking_handler = prompt_handler body calls
  for body :: "nat \<Rightarrow> key \<Rightarrow> wq_prog" and calls :: nat +
  assumes starts: "\<exists>c. body w k = PLookup k c"
    and body_calm: "calm (body w k)"
begin

lemma inv_step:
  assumes "handles kf H" and "ev_step kf H body n s s'" and "ev_inv kf s"
  shows "ev_inv kf s'"
  using assms(2,3)
proof (induction rule: ev_step.induct)
  case (change s ev k)
  then show ?case by (auto simp: ev_inv_def on_its_way_def le_Suc_eq)
next
  case (notify s ev evs)
  then have "H ev = Some (about kf ev)" using assms(1) by (simp add: ev_inv_def handles_def)
  with notify show ?case by (auto simp: ev_inv_def on_its_way_def queue_key_def)
next
  case (get s w k)
  obtain c where c: "body w k = PLookup k c" using starts by blast
  have "on_its_way kf (s\<lparr>workers := (workers s)(w := Some (body w k)), processing := insert k (processing s), dirty := dirty s - {k}\<rparr>) k'"
    if "on_its_way kf s k'" for k'
  proof (cases "k' = k")
    case True
    then show ?thesis using c by (auto simp: on_its_way_def)
  next
    case False
    then show ?thesis using that get by (auto simp: on_its_way_def) (metis option.distinct(1))
  qed
  with get show ?case by (simp add: ev_inv_def)
next
  case (lookup s w k c r)
  have "on_its_way kf (s\<lparr>workers := (workers s)(w := Some (c r)), seen := (seen s)(k := changes s k)\<rparr>) k'"
    if "on_its_way kf s k'" "k' \<noteq> k" for k'
    using that lookup by (auto simp: on_its_way_def) (metis option.inject wq_prog.inject(1))
  with lookup show ?case by (simp add: ev_inv_def)
next
  case (num_requeues s w k c)
  then show ?case by (auto simp: ev_inv_def on_its_way_def) (metis option.inject wq_prog.distinct(1))
next
  case (forget s w k p)
  then show ?case by (auto simp: ev_inv_def on_its_way_def) (metis option.inject wq_prog.distinct(3))
next
  case (add_rate_limited s w k p)
  then show ?case by (auto simp: ev_inv_def on_its_way_def) (metis option.inject wq_prog.distinct(5))
next
  case (due s k)
  then show ?case by (auto simp: ev_inv_def on_its_way_def)
next
  case (finish s w k c)
  then show ?case by (auto simp: ev_inv_def on_its_way_def) (metis option.inject wq_prog.distinct(7))
next
  case (return s w c)
  then show ?case by (auto simp: ev_inv_def on_its_way_def) (metis option.inject wq_prog.distinct(9))
qed

lemma inv_reach:
  assumes "handles kf H" and "(ev_step kf H body n)\<^sup>*\<^sup>* ev_init s"
  shows "ev_inv kf s"
  using assms(2)
proof (induction rule: rtranclp_induct)
  case base
  show ?case by (simp add: ev_inv_def ev_init_def)
next
  case (step s s')
  then show ?case using inv_step [OF assms(1)] by blast
qed

end


subsection \<open>Changes can always be seen\<close>

text \<open>The key of the next call of a program, if it makes one.\<close>

primrec key_of :: "wq_prog \<Rightarrow> key" where
  "key_of (PLookup k c) = k"
| "key_of (PNumRequeues k c) = k"
| "key_of (PForget k p) = k"
| "key_of (PAddRateLimited k p) = k"
| "key_of (PDone k c) = k"
| "key_of (PReturn c) = ''''"
| "key_of PBlock = ''''"

lemma retry_ok_key: "retry_ok k m p \<Longrightarrow> key_of p = k"
  by (cases p) auto

lemma ev_step_bound: "ev_step kf H body n s s' \<Longrightarrow> (\<forall>w. workers s w \<noteq> None \<longrightarrow> w < n) \<Longrightarrow> workers s' w \<noteq> None \<Longrightarrow> w < n"
  by (induction rule: ev_step.induct) (auto split: if_splits)

lemma ev_reach_bound: "(ev_step kf H body n)\<^sup>*\<^sup>* ev_init s \<Longrightarrow> workers s w \<noteq> None \<Longrightarrow> w < n"
proof (induction arbitrary: w rule: rtranclp_induct)
  case base
  then show ?case by (simp add: ev_init_def)
next
  case (step s s')
  then show ?case using ev_step_bound [OF step.hyps(2)] by blast
qed

text \<open>A worker left to itself hands its key back and disturbs nothing.\<close>

lemma done_step:
  assumes "ev_step kf H body n s t" and "workers t = (workers s)(w := q)" "changes t = changes s" "dirty t = dirty s" "pending t = pending s"
    and "\<exists>s'. (ev_step kf H body n)\<^sup>*\<^sup>* t s' \<and> workers s' = (workers t)(w := None) \<and> \<not> crashed s' \<and>
      changes s' = changes t \<and> dirty s' = dirty t \<and> pending s' = pending t"
  shows "\<exists>s'. (ev_step kf H body n)\<^sup>*\<^sup>* s s' \<and> workers s' = (workers s)(w := None) \<and> \<not> crashed s' \<and>
    changes s' = changes s \<and> dirty s' = dirty s \<and> pending s' = pending s"
proof -
  from assms(6) obtain s' where "(ev_step kf H body n)\<^sup>*\<^sup>* t s'" "workers s' = (workers t)(w := None)" "\<not> crashed s'"
      "changes s' = changes t" "dirty s' = dirty t" "pending s' = pending t"
    by blast
  with assms show ?thesis by (intro exI [of _ s']) (simp add: converse_rtranclp_into_rtranclp)
qed

lemma worker_done:
  assumes "workers s w = Some p" "\<not> crashed s" "calm p"
  shows "\<exists>s'. (ev_step kf H body n)\<^sup>*\<^sup>* s s' \<and> workers s' = (workers s)(w := None) \<and> \<not> crashed s' \<and>
    changes s' = changes s \<and> dirty s' = dirty s \<and> pending s' = pending s"
  using assms
proof (induction p arbitrary: s)
  case (PLookup k c)
  let ?s = "s\<lparr>workers := (workers s)(w := Some (c Missing)), seen := (seen s)(k := changes s k)\<rparr>"
  have "ev_step kf H body n s ?s" using PLookup.prems by (intro ev_step.lookup)
  then show ?case by (rule done_step [OF _ _ _ _ _ PLookup.IH [of "c Missing" ?s]]) (use PLookup.prems in simp_all)
next
  case (PNumRequeues k c)
  let ?s = "s\<lparr>workers := (workers s)(w := Some (c (requeues s k)))\<rparr>"
  have "ev_step kf H body n s ?s" using PNumRequeues.prems by (intro ev_step.num_requeues)
  then show ?case by (rule done_step [OF _ _ _ _ _ PNumRequeues.IH [of "c (requeues s k)" ?s]]) (use PNumRequeues.prems in simp_all)
next
  case (PForget k p)
  let ?s = "s\<lparr>workers := (workers s)(w := Some p), requeues := (requeues s)(k := 0)\<rparr>"
  have "ev_step kf H body n s ?s" using PForget.prems by (intro ev_step.forget)
  then show ?case by (rule done_step [OF _ _ _ _ _ PForget.IH [of ?s]]) (use PForget.prems in simp_all)
next
  case (PAddRateLimited k p)
  let ?s = "s\<lparr>workers := (workers s)(w := Some p), requeues := (requeues s)(k := requeues s k + 1), delayed := insert k (delayed s)\<rparr>"
  have "ev_step kf H body n s ?s" using PAddRateLimited.prems by (intro ev_step.add_rate_limited)
  then show ?case by (rule done_step [OF _ _ _ _ _ PAddRateLimited.IH [of ?s]]) (use PAddRateLimited.prems in simp_all)
next
  case (PDone k c)
  let ?s = "s\<lparr>workers := (workers s)(w := None), processing := processing s - {k}, crashed := c\<rparr>"
  have "ev_step kf H body n s ?s" using PDone.prems by (intro ev_step.finish)
  with PDone.prems show ?case by (intro exI [of _ ?s]) auto
next
  case (PReturn c)
  let ?s = "s\<lparr>workers := (workers s)(w := None), crashed := c\<rparr>"
  have "ev_step kf H body n s ?s" using PReturn.prems by (intro ev_step.return)
  with PReturn.prems show ?case by (intro exI [of _ ?s]) auto
qed simp

text \<open>The handlers queue the keys of all pending events.\<close>

lemma all_notified:
  assumes "handles kf H" "\<not> crashed s" "list_all well_formed (pending s)"
  shows "\<exists>s'. (ev_step kf H body n)\<^sup>*\<^sup>* s s' \<and> workers s' = workers s \<and> \<not> crashed s' \<and> changes s' = changes s \<and>
    dirty s \<union> about kf ` set (pending s) \<subseteq> dirty s'"
  using assms(2,3)
proof (induction "pending s" arbitrary: s)
  case Nil
  then show ?case by (intro exI [of _ s]) (metis (no_types) Un_empty_right empty_set image_empty order_refl rtranclp.rtrancl_refl)
next
  case (Cons ev evs)
  note p = Cons.hyps(2) [symmetric]
  let ?s = "s\<lparr>pending := evs, dirty := queue_key (H ev) (dirty s)\<rparr>"
  have ev: "H ev = Some (about kf ev)" using Cons.prems(2) p assms(1) by (simp add: handles_def)
  have step: "ev_step kf H body n s ?s" using Cons.prems(1) p by (intro ev_step.notify)
  have "evs = pending ?s" "\<not> crashed ?s" "list_all well_formed (pending ?s)" using Cons.prems p by simp_all
  from Cons.hyps(1) [OF this] obtain s' where s': "(ev_step kf H body n)\<^sup>*\<^sup>* ?s s'" "workers s' = workers s" "\<not> crashed s'"
      "changes s' = changes s" "dirty ?s \<union> about kf ` set evs \<subseteq> dirty s'"
    by auto
  have "dirty s \<union> about kf ` set (pending s) \<subseteq> dirty s'" using s'(5) ev p by (auto simp: queue_key_def)
  with s' step show ?case by (meson converse_rtranclp_into_rtranclp)
qed

context looking_handler
begin

lemma processing_iff:
  assumes "(ev_step kf H body n)\<^sup>*\<^sup>* ev_init s"
  shows "k \<in> processing s \<longleftrightarrow> (\<exists>w p. workers s w = Some p \<and> key_of p = k)"
    and "workers s w = Some p \<Longrightarrow> workers s v = Some q \<Longrightarrow> key_of p = key_of q \<Longrightarrow> w = v"
proof -
  obtain held where h: "inj_on held {w. workers s w \<noteq> None}" "processing s = held ` {w. workers s w \<noteq> None}"
      "\<And>w p. workers s w = Some p \<Longrightarrow> retry_ok (held w) (requeues s (held w)) p"
    using exclusive [OF ev_reach_queue [OF assms]] by auto
  have key: "key_of p = held w" if "workers s w = Some p" for w p using retry_ok_key h(3) [OF that] by blast
  show "k \<in> processing s \<longleftrightarrow> (\<exists>w p. workers s w = Some p \<and> key_of p = k)" using h(2) key by (auto simp: image_iff) (metis option.exhaust)
  show "workers s w = Some p \<Longrightarrow> workers s v = Some q \<Longrightarrow> key_of p = key_of q \<Longrightarrow> w = v"
    using key h(1) by (auto simp: inj_on_def)
qed

text \<open>A queued key can be looked up: its worker, or some worker, hands back what it has and takes the key.\<close>

lemma queued_seen:
  assumes reach: "(ev_step kf H body n)\<^sup>*\<^sup>* ev_init s" and "\<not> crashed s" and "0 < n"
    and calm: "\<And>w p. workers s w = Some p \<Longrightarrow> calm p" and "k \<in> dirty s"
  shows "\<exists>s'. (ev_step kf H body n)\<^sup>*\<^sup>* s s' \<and> changes s' = changes s \<and> seen s' k = changes s k"
proof -
  obtain w where w: "w < n" "\<And>v p. v \<noteq> w \<Longrightarrow> workers s v = Some p \<Longrightarrow> key_of p \<noteq> k"
  proof (cases "\<exists>w p. workers s w = Some p \<and> key_of p = k")
    case True
    then obtain w p where "workers s w = Some p" "key_of p = k" by blast
    moreover from this have "w < n" using ev_reach_bound [OF reach] by blast
    ultimately show thesis using processing_iff(2) [OF reach] by (metis that)
  next
    case False
    then show thesis using that [of 0] assms(3) by blast
  qed
  obtain t where t: "(ev_step kf H body n)\<^sup>*\<^sup>* s t" "workers t = (workers s)(w := None)" "\<not> crashed t" "changes t = changes s" "k \<in> dirty t"
  proof (cases "workers s w")
    case None
    then show thesis using that [of s] assms(2,5) by (simp add: fun_upd_idem)
  next
    case (Some p)
    then show thesis using worker_done [OF Some assms(2) calm [OF Some]] that assms(5) by metis
  qed
  have idle: "k \<notin> processing t"
    using processing_iff(1) [OF rtranclp_trans [OF reach t(1)]] w(2) t(2) by (auto split: if_splits)
  obtain c where c: "body w k = PLookup k c" using starts by blast
  let ?u = "t\<lparr>workers := (workers t)(w := Some (body w k)), processing := insert k (processing t), dirty := dirty t - {k}\<rparr>"
  let ?v = "?u\<lparr>workers := (workers ?u)(w := Some (c Missing)), seen := (seen ?u)(k := changes ?u k)\<rparr>"
  have "ev_step kf H body n t ?u" using t w(1) idle by (intro ev_step.get) simp_all
  moreover have "ev_step kf H body n ?u ?v" using t(3) c by (intro ev_step.lookup) simp_all
  ultimately have "(ev_step kf H body n)\<^sup>*\<^sup>* s ?v" using t(1) by (meson rtranclp.rtrancl_into_rtrancl)
  then show ?thesis using t(4) by (intro exI [of _ ?v]) simp
qed

lemma change_seen:
  assumes law: "handles kf H" and reach: "(ev_step kf H body n)\<^sup>*\<^sup>* ev_init s" and "\<not> crashed s" and "0 < n"
    and calm: "\<And>w p. workers s w = Some p \<Longrightarrow> calm p"
  shows "\<exists>s'. (ev_step kf H body n)\<^sup>*\<^sup>* s s' \<and> changes s' = changes s \<and> seen s' k = changes s k"
proof (cases "seen s k = changes s k")
  case False
  have inv: "ev_inv kf s" by (rule inv_reach [OF law reach])
  then have "seen s k < changes s k" using False by (metis ev_inv_def le_neq_implies_less)
  then consider (lookup) w c where "workers s w = Some (PLookup k c)" | (queued) "k \<in> dirty s" | (pending) "k \<in> about kf ` set (pending s)"
    using inv by (auto simp: ev_inv_def on_its_way_def)
  then show ?thesis
  proof cases
    case lookup
    then have "ev_step kf H body n s (s\<lparr>workers := (workers s)(w := Some (c Missing)), seen := (seen s)(k := changes s k)\<rparr>)" (is "ev_step _ _ _ _ _ ?t")
      using assms(3) by (intro ev_step.lookup)
    then show ?thesis by (intro exI [of _ ?t]) auto
  next
    case queued
    show ?thesis by (rule queued_seen [OF reach assms(3,4) _ queued]) (rule calm)
  next
    case pending
    obtain t where t: "(ev_step kf H body n)\<^sup>*\<^sup>* s t" "workers t = workers s" "\<not> crashed t" "changes t = changes s" "k \<in> dirty t"
      using all_notified [OF law assms(3)] inv pending unfolding ev_inv_def by blast
    from queued_seen [OF rtranclp_trans [OF reach t(1)] t(3) assms(4) _ t(5)] calm t(2,4)
    obtain u where "(ev_step kf H body n)\<^sup>*\<^sup>* t u" "changes u = changes s" "seen u k = changes s k" by auto
    with t(1) show ?thesis by (meson rtranclp_trans)
  qed
qed auto

end

interpretation cml: looking_handler cm_process 4
  by unfold_locales (auto simp: cm_process_def cm_sync_def)

interpretation podl: looking_handler processNextItem 4
  by unfold_locales (auto simp: processNextItem_def syncToStdout_def handleErr_def)


subsection \<open>An example\<close>

definition name_keys :: "string delivered key_env" where
  "name_keys = \<lparr>MetaNamespaceKeyFunc = (\<lambda>obj. case obj of Obj x \<Rightarrow> Some x | _ \<Rightarrow> None),
     DeletionHandlingMetaNamespaceKeyFunc = (\<lambda>obj. case obj of Obj x \<Rightarrow> Some x | DeletedFinalStateUnknown k x \<Rightarrow> Some k)\<rparr>"

definition one_change :: "string ev_state" where
  "one_change = ev_init\<lparr>changes := (\<lambda>_. 0)(''default/a'' := 1), pending := [AddEvent (Obj ''default/a'')]\<rparr>"

lemma name_keys_law: "key_law (\<lambda>x. x) name_keys"
  by (simp add: key_law_def name_keys_def)

lemma one_change_reach: "(ev_step (\<lambda>x. x) H body n)\<^sup>*\<^sup>* ev_init one_change"
proof -
  have "ev_step (\<lambda>x. x) H body n ev_init one_change"
    using ev_step.change [of ev_init "AddEvent (Obj ''default/a'')" "''default/a''" "\<lambda>x. x" H body n]
    by (simp add: one_change_def ev_init_def)
  then show ?thesis by blast
qed

section \<open>Properties\<close>

text \<open>C14. No change is lost between the cache and the workers. In any interleaving of the informer, the handlers, the queue and any
  number of workers of either controller, a change that no lookup has seen is on its way: its event waits for the handlers,
  its key is queued, or a worker is about to look it up. So when nothing is left to do, the last lookup of every key came
  after its last change. What the queue and the workers do is a run of the queue alone, so its bound on retries holds.\<close>

theorem no_change_lost:
  assumes "(H, body) = (on_event K, cm_process) \<or> (H, body) = (pc_on_event K, processNextItem)" and "key_law kf K" and "(ev_step kf H body n)\<^sup>*\<^sup>* ev_init s"
  shows "(\<forall>k. seen s k \<le> changes s k \<and> (seen s k < changes s k \<longrightarrow> on_its_way kf s k)) \<and>
    (at_rest s \<longrightarrow> seen s = changes s) \<and> wq_reach body (queue_of s) \<and> (\<forall>k. requeues s k \<le> 5)"
proof -
  have inv: "ev_inv kf s"
    using assms(1,3) cml.inv_reach podl.inv_reach on_event_handles [OF assms(2)] by auto
  have q: "requeues (queue_of s) k \<le> 5" for k
    using assms(1) ev_reach_queue [OF assms(3)] cmq.requeues_bounded [of "queue_of s"] podq.requeues_bounded [of "queue_of s"] by auto
  have "seen s = changes s" if "at_rest s"
  proof
    fix k
    have "\<not> on_its_way kf s k" using that by (simp add: at_rest_def on_its_way_def)
    then show "seen s k = changes s k" using inv by (metis ev_inv_def le_neq_implies_less)
  qed
  with inv q ev_reach_queue [OF assms(3)] show ?thesis by (simp add: ev_inv_def)
qed

theorem no_change_lost_witness:
  "(ev_step (\<lambda>x. x) (on_event name_keys) cm_process 3)\<^sup>*\<^sup>* ev_init one_change \<and> seen one_change ''default/a'' < changes one_change ''default/a'' \<and>
   on_its_way (\<lambda>x. x) one_change ''default/a''"
proof -
  have "seen one_change ''default/a'' < changes one_change ''default/a''" by (simp add: one_change_def ev_init_def)
  with no_change_lost [OF disjI1 [OF refl] name_keys_law one_change_reach] one_change_reach show ?thesis by blast
qed

text \<open>C15. Every change can still be seen. From any reachable state in which the process lives and no worker is about to panic, the
  informer, the handlers and one worker can go on, without any further change, until a lookup has seen all changes of a given
  key: no state of the queue, of the retries or of the other workers stands in the way.\<close>

theorem changes_reach_workers:
  assumes "(H, body) = (on_event K, cm_process) \<or> (H, body) = (pc_on_event K, processNextItem)" and "key_law kf K" and "(ev_step kf H body n)\<^sup>*\<^sup>* ev_init s"
    and "\<not> crashed s" and "0 < n" and "\<And>w p. workers s w = Some p \<Longrightarrow> calm p"
  shows "\<exists>s'. (ev_step kf H body n)\<^sup>*\<^sup>* s s' \<and> changes s' = changes s \<and> seen s' k = changes s k"
  using assms(1)
proof
  assume b: "(H, body) = (on_event K, cm_process)"
  with assms(3) on_event_handles(1) [OF assms(2)] show ?thesis
    by (auto intro!: cml.change_seen [OF _ _ assms(4,5)] assms(6))
next
  assume b: "(H, body) = (pc_on_event K, processNextItem)"
  with assms(3) on_event_handles(2) [OF assms(2)] show ?thesis
    by (auto intro!: podl.change_seen [OF _ _ assms(4,5)] assms(6))
qed

theorem changes_reach_workers_witness:
  "\<exists>s'. (ev_step (\<lambda>x. x) (pc_on_event name_keys) processNextItem 1)\<^sup>*\<^sup>* one_change s' \<and> seen s' ''default/a'' = 1"
proof -
  have "\<exists>s'. (ev_step (\<lambda>x. x) (pc_on_event name_keys) processNextItem 1)\<^sup>*\<^sup>* one_change s' \<and> changes s' = changes one_change \<and>
      seen s' ''default/a'' = changes one_change ''default/a''"
    by (rule changes_reach_workers [OF disjI2 [OF refl] name_keys_law one_change_reach])
      (simp_all add: one_change_def ev_init_def)
  then show ?thesis by (auto simp: one_change_def)
qed


end
