(* ===== verification/Leader_Election.thy ===== *)
theory Leader_Election
  imports Kube_Api
begin

text \<open>
  Leader election: the Redis lock of \<open>src/leader-election/redislock/redislock.go\<close>, the program that uses it
  (\<open>src/leader-election/redislock.go\<close>) and the Lease-based programs (\<open>src/leader-election/main.go\<close> and its
  official counterpart).

  The Redis server is the record \<open>redis\<close> of three commands on an abstract state; a call can be lost on the way to
  the server or its reply can be lost on the way back (\<open>fault\<close>). The JSON codecs of Go and of the Lua script
  are the record \<open>codec\<close>. \<open>redis_laws\<close> and \<open>codec_laws\<close> are what the theorems rely on; \<open>mem_redis\<close> and
  \<open>demo_codec\<close> satisfy them. The Lua script that \<open>Update\<close> sends is executed atomically by the
  server, so \<open>update_script\<close> is one step.
\<close>

section \<open>Definitions\<close>

subsection \<open>Records\<close>

text \<open>Times are nanoseconds from the zero time of \<open>metav1.Time\<close>.\<close>

record LeaderElectionRecord =
  HolderIdentity :: string
  LeaseDurationSeconds :: int64
  AcquireTime :: int
  RenewTime :: int
  LeaderTransitions :: int64

definition record0 :: LeaderElectionRecord where
  "record0 = \<lparr>HolderIdentity = '''', LeaseDurationSeconds = 0, AcquireTime = 0, RenewTime = 0, LeaderTransitions = 0\<rparr>"

record leaderElectionState =
  les_Record :: LeaderElectionRecord
  les_Epoch :: string

record RedisLock =
  rl_key :: string
  rl_identity :: string

definition NewRedisLock :: "string \<Rightarrow> string \<Rightarrow> RedisLock" where
  "NewRedisLock key identity = \<lparr>rl_key = key, rl_identity = identity\<rparr>"

definition Identity :: "RedisLock \<Rightarrow> string" where
  "Identity l = rl_identity l"

definition Describe :: "RedisLock \<Rightarrow> string" where
  "Describe l = ''redis/'' @ rl_key l"

definition RecordEvent :: "RedisLock \<Rightarrow> string \<Rightarrow> string" where
  "RecordEvent l s = ''[event] '' @ s"

subsection \<open>The server and the codecs\<close>

text \<open>
  \<open>r_setnx s k v ttl\<close> takes the expiration in nanoseconds, as the Go client does; \<open>r_set_px\<close> takes
  milliseconds. Both may refuse with an error. \<open>r_setnx\<close> also says whether it set the key.
\<close>

record 's redis =
  r_get :: "'s \<Rightarrow> string \<Rightarrow> string option"
  r_setnx :: "'s \<Rightarrow> string \<Rightarrow> string \<Rightarrow> duration \<Rightarrow> string + (bool \<times> 's)"
  r_set_px :: "'s \<Rightarrow> string \<Rightarrow> string \<Rightarrow> int64 \<Rightarrow> string + 's"

record codec =
  go_state :: "leaderElectionState \<Rightarrow> string"
  go_record :: "LeaderElectionRecord \<Rightarrow> string"
  go_parse :: "string \<Rightarrow> string + leaderElectionState"
  lua_encode :: "leaderElectionState \<Rightarrow> string"
  lua_decode :: "string \<Rightarrow> string + leaderElectionState"
  lua_record :: "string \<Rightarrow> string + LeaderElectionRecord"

datatype fault = Delivered | LostRequest string | LostReply string

definition reach_server :: "fault \<Rightarrow> 's \<Rightarrow> (string + 'a \<times> 's) \<Rightarrow> (string + 'a) \<times> 's" where
  "reach_server f s r =
     (case f of
        LostRequest err \<Rightarrow> (Inl err, s)
      | Delivered \<Rightarrow> (case r of Inl err \<Rightarrow> (Inl err, s) | Inr (a, s') \<Rightarrow> (Inr a, s'))
      | LostReply err \<Rightarrow> (case r of Inl _ \<Rightarrow> (Inl err, s) | Inr (a, s') \<Rightarrow> (Inl err, s')))"

subsection \<open>The lock\<close>

definition lock_Get :: "'s redis \<Rightarrow> codec \<Rightarrow> RedisLock \<Rightarrow> fault \<Rightarrow> 's \<Rightarrow>
    LeaderElectionRecord option \<times> string option \<times> go_error option" where
  "lock_Get R C l f s =
     (case fst (reach_server f s (Inr (r_get R s (rl_key l), s))) of
        Inl err \<Rightarrow> (None, None, Some (PlainError err))
      | Inr None \<Rightarrow> (Some record0, None,
          Some (StatusError ReasonNotFound (''redislocks \"'' @ rl_identity l @ ''\" not found'')))
      | Inr (Some b) \<Rightarrow>
          (case go_parse C b of
             Inl err \<Rightarrow> (None, None, Some (PlainError err))
           | Inr st \<Rightarrow> (Some (les_Record st), Some b, None)))"

definition lock_Create :: "'s redis \<Rightarrow> codec \<Rightarrow> RedisLock \<Rightarrow> fault \<Rightarrow> int64 \<Rightarrow> LeaderElectionRecord \<Rightarrow> 's \<Rightarrow>
    go_error option \<times> 's" where
  "lock_Create R C l f now ler s =
     (let st = \<lparr>les_Record = ler, les_Epoch = show_int (sint now)\<rparr>;
          data = go_state C st;
          ttl = LeaseDurationSeconds ler * Second in
      case reach_server f s (r_setnx R s (rl_key l) data ttl) of
        (Inl err, s') \<Rightarrow> (Some (PlainError err), s')
      | (Inr ok, s') \<Rightarrow> (if \<not> ok then (Some (PlainError ''lock already exists''), s') else (None, s')))"

text \<open>The Lua script. A table with the field \<open>err\<close> is an error reply.\<close>

definition update_script :: "'s redis \<Rightarrow> codec \<Rightarrow> string \<Rightarrow> string \<Rightarrow> string \<Rightarrow> string \<Rightarrow> int64 \<Rightarrow> 's \<Rightarrow>
    string + string \<times> 's" where
  "update_script R C key argv1 argv2 argv3 argv4 s =
     (case r_get R s key of
        None \<Rightarrow> Inl ''not found''
      | Some val \<Rightarrow>
          (case lua_decode C val of
             Inl err \<Rightarrow> Inl err
           | Inr current \<Rightarrow>
               if HolderIdentity (les_Record current) \<noteq> argv1 \<and> HolderIdentity (les_Record current) \<noteq> ''''
               then Inl ''not holder''
               else
                 (case lua_record C argv2 of
                    Inl err \<Rightarrow> Inl err
                  | Inr rec \<Rightarrow>
                      (case r_set_px R s key (lua_encode C (current\<lparr>les_Record := rec, les_Epoch := argv3\<rparr>)) argv4 of
                         Inl err \<Rightarrow> Inl err
                       | Inr s' \<Rightarrow> Inr (''OK'', s')))))"

text \<open>\<open>Duration.Milliseconds\<close> divides by a million, truncating.\<close>

definition lease_ms :: "int64 \<Rightarrow> int64" where
  "lease_ms secs = word_of_int (trunc_quot (sint (secs * Second)) 1000000)"

definition lock_Update :: "'s redis \<Rightarrow> codec \<Rightarrow> RedisLock \<Rightarrow> fault \<Rightarrow> int64 \<Rightarrow> LeaderElectionRecord \<Rightarrow> 's \<Rightarrow>
    go_error option \<times> 's" where
  "lock_Update R C l f now ler s =
     (case reach_server f s (update_script R C (rl_key l) (rl_identity l) (go_record C ler)
             (show_int (sint now)) (lease_ms (LeaseDurationSeconds ler)) s) of
        (Inl err, s') \<Rightarrow> (Some (PlainError err), s')
      | (Inr _, s') \<Rightarrow> (None, s'))"

subsection \<open>What the theorems ask of the server and the codecs\<close>

definition redis_laws :: "'s redis \<Rightarrow> bool" where
  "redis_laws R \<longleftrightarrow>
     (\<forall>s k v ttl. 0 \<le> sint ttl \<longrightarrow>
        (if r_get R s k = None
         then \<exists>s'. r_setnx R s k v ttl = Inr (True, s') \<and> r_get R s' = (r_get R s)(k \<mapsto> v)
         else r_setnx R s k v ttl = Inr (False, s))) \<and>
     (\<forall>s k v ttl. sint ttl < 0 \<longrightarrow> (\<exists>err. r_setnx R s k v ttl = Inl err)) \<and>
     (\<forall>s k v px. if 0 < sint px then \<exists>s'. r_set_px R s k v px = Inr s' \<and> r_get R s' = (r_get R s)(k \<mapsto> v)
        else \<exists>err. r_set_px R s k v px = Inl err)"

text \<open>
  A \<open>metav1.Time\<close> is written in whole seconds, so its fraction of a second is lost. The script sees numbers as doubles and
  writes them with fourteen digits, so only shorter ones survive it. The identity, valid text, always does.
\<close>

definition in_seconds :: "int \<Rightarrow> int" where
  "in_seconds t = t - t mod 1000000000"

definition wire_record :: "LeaderElectionRecord \<Rightarrow> LeaderElectionRecord" where
  "wire_record r = r\<lparr>AcquireTime := in_seconds (AcquireTime r), RenewTime := in_seconds (RenewTime r)\<rparr>"

definition wire_state :: "leaderElectionState \<Rightarrow> leaderElectionState" where
  "wire_state st = st\<lparr>les_Record := wire_record (les_Record st)\<rparr>"

definition lua_exact :: "LeaderElectionRecord \<Rightarrow> bool" where
  "lua_exact r \<longleftrightarrow> \<bar>sint (LeaseDurationSeconds r)\<bar> < 10 ^ 14 \<and> \<bar>sint (LeaderTransitions r)\<bar> < 10 ^ 14"

definition same_holder :: "LeaderElectionRecord \<Rightarrow> LeaderElectionRecord \<Rightarrow> bool" where
  "same_holder r r' \<longleftrightarrow> HolderIdentity r = HolderIdentity r'"

definition codec_laws :: "codec \<Rightarrow> bool" where
  "codec_laws C \<longleftrightarrow>
     (\<forall>st. go_parse C (go_state C st) = Inr (wire_state st)) \<and>
     (\<forall>st. \<exists>st'. lua_decode C (go_state C st) = Inr st' \<and> same_holder (les_Record st') (les_Record st)) \<and>
     (\<forall>r. \<exists>r'. lua_record C (go_record C r) = Inr r' \<and> same_holder r' r \<and> (lua_exact r \<longrightarrow> r' = wire_record r)) \<and>
     (\<forall>st. \<exists>st'. lua_decode C (lua_encode C st) = Inr st' \<and> same_holder (les_Record st') (les_Record st)) \<and>
     (\<forall>st. lua_exact (les_Record st) \<longrightarrow> go_parse C (lua_encode C st) = Inr (wire_state st))"

text \<open>The identity that holds the lock: None when the key is absent or unreadable.\<close>

definition holder :: "'s redis \<Rightarrow> codec \<Rightarrow> string \<Rightarrow> 's \<Rightarrow> string option" where
  "holder R C key s = (case r_get R s key of
       None \<Rightarrow> None
     | Some b \<Rightarrow> (case lua_decode C b of Inl _ \<Rightarrow> None | Inr st \<Rightarrow> Some (HolderIdentity (les_Record st))))"

subsection \<open>Electors that share a lock\<close>

text \<open>
  A run of several electors on one key. An elector writes its own identity, or the empty identity to release
  the lock; any call may be lost on the way or on the way back; the key may expire.
\<close>

inductive lock_step :: "'s redis \<Rightarrow> codec \<Rightarrow> string \<Rightarrow> 's \<Rightarrow> 's \<Rightarrow> bool" for R C key where
  create: "HolderIdentity ler \<in> {i, ''''} \<Longrightarrow>
     lock_step R C key s (snd (lock_Create R C (NewRedisLock key i) f now ler s))"
| update: "HolderIdentity ler \<in> {i, ''''} \<Longrightarrow>
     lock_step R C key s (snd (lock_Update R C (NewRedisLock key i) f now ler s))"
| expire: "r_get R s' = (r_get R s)(key := None) \<Longrightarrow> lock_step R C key s s'"

subsection \<open>The Redis program\<close>

record redis_options =
  ro_Addr :: string
  ro_Username :: string
  ro_Password :: string
  ro_DB :: int
  ro_TLS :: bool

text \<open>The connection options; \<open>redis.ParseURL\<close> is a parameter. Inl is the message of \<open>log.Fatalf\<close>.\<close>

definition redis_client_options :: "(string \<Rightarrow> string + redis_options) \<Rightarrow> string \<Rightarrow> string \<Rightarrow> string \<Rightarrow> int \<Rightarrow> bool \<Rightarrow>
    string + redis_options" where
  "redis_client_options ParseURL redisAddr redisUser redisPass redisDB useTLS =
     (if HasPrefix redisAddr ''redis://'' then
        (case ParseURL redisAddr of
           Inl err \<Rightarrow> Inl (''invalid redis URL: '' @ err)
         | Inr opt \<Rightarrow>
             (let o1 = (if redisUser \<noteq> '''' then opt\<lparr>ro_Username := redisUser\<rparr> else opt);
                  o2 = (if redisPass \<noteq> '''' then o1\<lparr>ro_Password := redisPass\<rparr> else o1);
                  o3 = (if redisDB \<noteq> 0 then o2\<lparr>ro_DB := redisDB\<rparr> else o2) in
              Inr (if useTLS \<and> \<not> ro_TLS o3 then o3\<lparr>ro_TLS := True\<rparr> else o3)))
      else
        Inr \<lparr>ro_Addr = redisAddr, ro_Username = redisUser, ro_Password = redisPass, ro_DB = redisDB, ro_TLS = useTLS\<rparr>)"

definition safeRedisAddr :: "string \<Rightarrow> string" where
  "safeRedisAddr addr =
     (if HasPrefix addr ''redis://'' \<or> HasPrefix addr ''rediss://'' then ''[redis URL masked]'' else addr)"

definition hostnameOrRand :: "go_error + string \<Rightarrow> int64 \<Rightarrow> string" where
  "hostnameOrRand hostname now =
     (case hostname of
        Inr h \<Rightarrow> if h \<noteq> '''' then h else ''inst-'' @ show_int (sint now)
      | Inl _ \<Rightarrow> ''inst-'' @ show_int (sint now))"

record election_timing =
  et_ReleaseOnCancel :: bool
  et_LeaseDuration :: duration
  et_RenewDeadline :: duration
  et_RetryPeriod :: duration

definition redis_election :: "int64 \<Rightarrow> int64 \<Rightarrow> int64 \<Rightarrow> election_timing" where
  "redis_election leaseSeconds renewDeadline retryPeriod = \<lparr>et_ReleaseOnCancel = True,
     et_LeaseDuration = leaseSeconds * Second, et_RenewDeadline = renewDeadline * Second,
     et_RetryPeriod = retryPeriod * Second\<rparr>"

text \<open>The log line of \<open>OnNewLeader\<close>.\<close>

definition redis_OnNewLeader :: "string \<Rightarrow> string \<Rightarrow> string" where
  "redis_OnNewLeader self identity =
     (if identity = self then ''[INFO] '' @ self @ '' is the new leader''
      else ''[INFO] current leader elected: '' @ identity)"

subsection \<open>The Lease programs\<close>

text \<open>\<open>BuildConfigFromFlags\<close> and \<open>InClusterConfig\<close> are the library's two ways to a configuration.\<close>

definition buildConfig :: "(string \<Rightarrow> go_error + 'cfg) \<Rightarrow> (go_error + 'cfg) \<Rightarrow> string \<Rightarrow> go_error + 'cfg" where
  "buildConfig BuildConfigFromFlags InClusterConfig kubeconfig =
     (if kubeconfig \<noteq> '''' then
        (case BuildConfigFromFlags kubeconfig of Inl err \<Rightarrow> Inl err | Inr cfg \<Rightarrow> Inr cfg)
      else (case InClusterConfig of Inl err \<Rightarrow> Inl err | Inr cfg \<Rightarrow> Inr cfg))"

record LeaseLock =
  ll_Name :: string
  ll_Namespace :: string
  ll_Identity :: string

text \<open>The program up to \<open>RunOrDie\<close>; Inl is the message of \<open>klog.Fatal\<close>. \<open>NewForConfigOrDie\<close> may panic.\<close>

definition lease_main :: "(string \<Rightarrow> go_error + 'cfg) \<Rightarrow> (go_error + 'cfg) \<Rightarrow> ('cfg \<Rightarrow> 'cl outcome) \<Rightarrow>
    string \<Rightarrow> string \<Rightarrow> string \<Rightarrow> string \<Rightarrow> (string + 'cl \<times> LeaseLock \<times> election_timing) outcome" where
  "lease_main BuildConfigFromFlags InClusterConfig NewForConfigOrDie kubeconfig uid leaseLockName leaseLockNamespace =
     (if leaseLockName = '''' then
        Ret (Inl ''unable to get lease lock resource name (missing lease-lock-name flag).'')
      else if leaseLockNamespace = '''' then
        Ret (Inl ''unable to get lease lock resource namespace (missing lease-lock-namespace flag).'')
      else
        (case buildConfig BuildConfigFromFlags InClusterConfig kubeconfig of
           Inl err \<Rightarrow> Ret (Inl (Error err))
         | Inr config \<Rightarrow>
             (case NewForConfigOrDie config of
                Panic p \<Rightarrow> Panic p
              | Ret client \<Rightarrow> Ret (Inr (client,
                  \<lparr>ll_Name = leaseLockName, ll_Namespace = leaseLockNamespace, ll_Identity = uid\<rparr>,
                  \<lparr>et_ReleaseOnCancel = True, et_LeaseDuration = 60 * Second, et_RenewDeadline = 15 * Second,
                   et_RetryPeriod = 5 * Second\<rparr>)))))"

subsection \<open>An in-memory server\<close>

definition mem_redis :: "(string \<Rightarrow> string option) redis" where
  "mem_redis = \<lparr>r_get = (\<lambda>s k. s k),
     r_setnx = (\<lambda>s k v ttl. if sint ttl < 0 then Inl ''invalid expire time''
        else if s k = None then Inr (True, s(k \<mapsto> v)) else Inr (False, s)),
     r_set_px = (\<lambda>s k v px. if 0 < sint px then Inr (s(k \<mapsto> v)) else Inl ''invalid expire time'')\<rparr>"

text \<open>A codec for the examples: strings carry their length in unary, integers are in unary with a sign.\<close>

definition enc_str :: "string \<Rightarrow> string" where
  "enc_str s = replicate (length s) (CHR ''x'') @ CHR ''.'' # s"

definition dec_str :: "string \<Rightarrow> string \<times> string" where
  "dec_str t = (let n = length (takeWhile (\<lambda>c. c = CHR ''x'') t); r = drop (n + 1) t in (take n r, drop n r))"

definition unary :: "int \<Rightarrow> string" where
  "unary i = (if i < 0 then CHR ''-'' # replicate (nat (- i)) (CHR ''i'') else replicate (nat i) (CHR ''i''))"

definition ununary :: "string \<Rightarrow> int" where
  "ununary s = (case s of c # t \<Rightarrow> if c = CHR ''-'' then - int (length t) else int (length s) | [] \<Rightarrow> 0)"

definition enc_rec :: "LeaderElectionRecord \<Rightarrow> string" where
  "enc_rec r = enc_str (HolderIdentity r) @ enc_str (unary (sint (LeaseDurationSeconds r))) @
     enc_str (unary (AcquireTime r)) @ enc_str (unary (RenewTime r)) @ enc_str (unary (sint (LeaderTransitions r)))"

definition dec_rec :: "string \<Rightarrow> LeaderElectionRecord \<times> string" where
  "dec_rec t =
     (let (h, t1) = dec_str t; (l, t2) = dec_str t1; (a, t3) = dec_str t2; (n, t4) = dec_str t3; (c, t5) = dec_str t4 in
      (\<lparr>HolderIdentity = h, LeaseDurationSeconds = word_of_int (ununary l), AcquireTime = ununary a,
        RenewTime = ununary n, LeaderTransitions = word_of_int (ununary c)\<rparr>, t5))"

definition demo_codec :: codec where
  "demo_codec =
     (let enc = (\<lambda>st. enc_rec (wire_record (les_Record st)) @ enc_str (les_Epoch st));
          dec = (\<lambda>t. let (r, t') = dec_rec t in Inr \<lparr>les_Record = r, les_Epoch = fst (dec_str t')\<rparr>) in
      \<lparr>go_state = enc, go_record = enc_rec \<circ> wire_record, go_parse = dec, lua_encode = enc, lua_decode = dec,
       lua_record = (\<lambda>t. Inr (fst (dec_rec t)))\<rparr>)"

definition demo_record :: "string \<Rightarrow> int64 \<Rightarrow> LeaderElectionRecord" where
  "demo_record who secs = record0\<lparr>HolderIdentity := who, LeaseDurationSeconds := secs\<rparr>"

section \<open>Lemmas\<close>

lemma mem_redis_laws: "redis_laws mem_redis"
  by (auto simp: redis_laws_def mem_redis_def)

lemma dec_enc_str: "dec_str (enc_str s @ r) = (s, r)"
proof -
  have "takeWhile (\<lambda>c. c = CHR ''x'') (replicate n (CHR ''x'') @ CHR ''.'' # t) = replicate n (CHR ''x'')" for n t
    by (induction n) auto
  then show ?thesis by (simp add: dec_str_def enc_str_def Let_def)
qed

lemma ununary_unary: "ununary (unary i) = i"
  by (cases "nat i") (auto simp: ununary_def unary_def)

lemma dec_enc_rec: "dec_rec (enc_rec r @ t) = (r, t)"
  by (simp add: dec_rec_def enc_rec_def dec_enc_str ununary_unary)

lemma demo_codec_laws: "codec_laws demo_codec"
proof -
  have rec: "dec_rec (enc_rec r) = (r, [])" for r using dec_enc_rec [of r "[]"] by simp
  have str: "dec_str (enc_str s) = (s, [])" for s using dec_enc_str [of s "[]"] by simp
  show ?thesis
    by (simp add: codec_laws_def demo_codec_def dec_enc_rec rec str Let_def wire_state_def same_holder_def wire_record_def)
qed

lemma setnx_absent:
  assumes "redis_laws R" "0 \<le> sint ttl" "r_get R s k = None"
  obtains s' where "r_setnx R s k v ttl = Inr (True, s')" "r_get R s' = (r_get R s)(k \<mapsto> v)"
proof -
  have "if r_get R s k = None
      then \<exists>s'. r_setnx R s k v ttl = Inr (True, s') \<and> r_get R s' = (r_get R s)(k \<mapsto> v)
      else r_setnx R s k v ttl = Inr (False, s)"
    using assms(1,2) unfolding redis_laws_def by blast
  with assms(3) that show thesis by auto
qed

lemma setnx_present:
  assumes "redis_laws R" "0 \<le> sint ttl" "r_get R s k = Some b"
  shows "r_setnx R s k v ttl = Inr (False, s)"
proof -
  have "if r_get R s k = None
      then \<exists>s'. r_setnx R s k v ttl = Inr (True, s') \<and> r_get R s' = (r_get R s)(k \<mapsto> v)
      else r_setnx R s k v ttl = Inr (False, s)"
    using assms(1,2) unfolding redis_laws_def by blast
  with assms(3) show ?thesis by simp
qed

lemma setnx_Inr:
  assumes "redis_laws R" "r_setnx R s k v ttl = Inr (ok, s')"
  shows "0 \<le> sint ttl \<and> (if ok then r_get R s k = None \<and> r_get R s' = (r_get R s)(k \<mapsto> v)
    else s' = s \<and> r_get R s k \<noteq> None)"
proof -
  have pos: "0 \<le> sint ttl"
  proof (rule ccontr)
    assume "\<not> 0 \<le> sint ttl"
    then obtain err where "r_setnx R s k v ttl = Inl err" using assms(1) unfolding redis_laws_def by force
    with assms(2) show False by simp
  qed
  show ?thesis
  proof (cases "r_get R s k")
    case None
    with setnx_absent [OF assms(1) pos None, of v] assms(2) pos show ?thesis by auto
  next
    case (Some b)
    with setnx_present [OF assms(1) pos Some, of v] assms(2) pos show ?thesis by auto
  qed
qed

lemma set_px_Inr:
  assumes "redis_laws R" "r_set_px R s k v px = Inr s'"
  shows "r_get R s' = (r_get R s)(k \<mapsto> v) \<and> 0 < sint px"
proof -
  have "if 0 < sint px then \<exists>s'. r_set_px R s k v px = Inr s' \<and> r_get R s' = (r_get R s)(k \<mapsto> v)
      else \<exists>err. r_set_px R s k v px = Inl err"
    using assms(1) unfolding redis_laws_def by blast
  with assms(2) show ?thesis by (auto split: if_splits)
qed

text \<open>What a run of the script did, when it ran.\<close>

lemma update_script_Inr:
  assumes "redis_laws R" "codec_laws C"
    and "update_script R C key i (go_record C ler) ep px s = Inr (a, s')"
  shows "\<exists>st. holder R C key s \<in> {Some i, Some ''''} \<and> same_holder (les_Record st) ler \<and>
    r_get R s' = (r_get R s)(key \<mapsto> lua_encode C st) \<and> 0 < sint px"
proof -
  obtain r' where r': "lua_record C (go_record C ler) = Inr r'" "same_holder r' ler"
    using assms(2) unfolding codec_laws_def by blast
  obtain val cur where val: "r_get R s key = Some val" and cur: "lua_decode C val = Inr cur"
    and own: "HolderIdentity (les_Record cur) \<in> {i, ''''}"
    and set: "r_set_px R s key (lua_encode C (cur\<lparr>les_Record := r', les_Epoch := ep\<rparr>)) px = Inr s'"
    using assms(3) r'(1) unfolding update_script_def
    by (auto split: option.splits sum.splits if_splits)
  have "holder R C key s \<in> {Some i, Some ''''}" using val cur own by (auto simp: holder_def)
  with set_px_Inr [OF assms(1) set] r'(2) show ?thesis
    by (intro exI [of _ "cur\<lparr>les_Record := r', les_Epoch := ep\<rparr>"]) auto
qed

lemma holder_written:
  "codec_laws C \<Longrightarrow> r_get R s' = (r_get R s)(key \<mapsto> b) \<Longrightarrow> b \<in> {go_state C st, lua_encode C st} \<Longrightarrow>
   holder R C key s' = Some (HolderIdentity (les_Record st))"
proof -
  assume a: "codec_laws C" "r_get R s' = (r_get R s)(key \<mapsto> b)" "b \<in> {go_state C st, lua_encode C st}"
  then obtain st' where "lua_decode C b = Inr st'" "same_holder (les_Record st') (les_Record st)"
    unfolding codec_laws_def by blast
  with a(2) show ?thesis by (simp add: holder_def same_holder_def)
qed

lemma snd_reach_server:
  "snd (reach_server f s r) = s \<or> (\<exists>a. r = Inr (a, snd (reach_server f s r)))"
  by (auto simp: reach_server_def split: fault.splits sum.splits prod.splits)

lemma create_state:
  assumes "redis_laws R" "codec_laws C"
  shows "snd (lock_Create R C l f now ler s) = s \<or>
    r_get R s (rl_key l) = None \<and> holder R C (rl_key l) (snd (lock_Create R C l f now ler s)) = Some (HolderIdentity ler)"
proof -
  let ?st = "\<lparr>les_Record = ler, les_Epoch = show_int (sint now)\<rparr>"
  let ?r = "r_setnx R s (rl_key l) (go_state C ?st) (LeaseDurationSeconds ler * Second)"
  have eq: "snd (lock_Create R C l f now ler s) = snd (reach_server f s ?r)"
    by (simp add: lock_Create_def Let_def split: prod.splits sum.splits)
  from snd_reach_server [of f s ?r] show ?thesis
  proof
    assume "\<exists>ok. ?r = Inr (ok, snd (reach_server f s ?r))"
    then obtain ok where "?r = Inr (ok, snd (reach_server f s ?r))" ..
    from setnx_Inr [OF assms(1) this] holder_written [OF assms(2), of R _ s "rl_key l" "go_state C ?st" ?st]
    show ?thesis unfolding eq by (auto split: if_splits)
  qed (simp add: eq)
qed

lemma update_state:
  assumes "redis_laws R" "codec_laws C"
  shows "snd (lock_Update R C l f now ler s) = s \<or>
    holder R C (rl_key l) s \<in> {Some (rl_identity l), Some ''''} \<and>
    holder R C (rl_key l) (snd (lock_Update R C l f now ler s)) = Some (HolderIdentity ler)"
proof -
  let ?r = "update_script R C (rl_key l) (rl_identity l) (go_record C ler) (show_int (sint now))
    (lease_ms (LeaseDurationSeconds ler)) s"
  have eq: "snd (lock_Update R C l f now ler s) = snd (reach_server f s ?r)"
    by (simp add: lock_Update_def split: prod.splits sum.splits)
  from snd_reach_server [of f s ?r] show ?thesis
  proof
    assume "\<exists>a. ?r = Inr (a, snd (reach_server f s ?r))"
    then obtain a where "?r = Inr (a, snd (reach_server f s ?r))" ..
    from update_script_Inr [OF assms this] holder_written [OF assms(2), of R _ s "rl_key l"]
    show ?thesis unfolding eq same_holder_def by (metis insertI1 insertI2)
  qed (simp add: eq)
qed

lemma lock_step_holder:
  assumes "redis_laws R" "codec_laws C" "lock_step R C key s s'"
    and "holder R C key s = Some a" "a \<noteq> ''''"
  shows "holder R C key s' \<in> {Some a, None, Some ''''}"
  using assms(3)
proof cases
  case (create ler i f now)
  have "r_get R s key \<noteq> None" using assms(4) by (auto simp: holder_def split: option.splits)
  with create create_state [OF assms(1,2), of "NewRedisLock key i" f now ler s] assms(4)
  show ?thesis by (auto simp: NewRedisLock_def)
next
  case (update ler i f now)
  with update_state [OF assms(1,2), of "NewRedisLock key i" f now ler s] assms(4,5)
  show ?thesis by (auto simp: NewRedisLock_def)
next
  case expire
  then show ?thesis by (simp add: holder_def)
qed

section \<open>Properties\<close>

text \<open>C27. The lock never passes directly from one elector to another: along any run of creates, updates, releases, lost
  messages and expirations on the key, between a state held by \<open>a\<close> and a later state held by
  another elector \<open>b\<close> there is a state in which the lock was free (absent or released).\<close>

theorem lock_handover:
  assumes "redis_laws R" "codec_laws C" and "successively (lock_step R C key) states"
    and "i < j" "j < length states"
    and "holder R C key (states ! i) = Some a" "a \<noteq> ''''"
    and "holder R C key (states ! j) = Some b" "b \<noteq> ''''" "a \<noteq> b"
  shows "\<exists>m. i < m \<and> m < j \<and> holder R C key (states ! m) \<in> {None, Some ''''}"
proof (rule ccontr)
  assume free: "\<not> ?thesis"
  have "holder R C key (states ! m) = Some a" if "i \<le> m" "m \<le> j" for m
    using that
  proof (induction m rule: dec_induct)
    case base
    then show ?case using assms(6) by simp
  next
    case (step m)
    then have m: "holder R C key (states ! m) = Some a" by simp
    have "lock_step R C key (states ! m) (states ! Suc m)"
      using assms(3,5) step by (simp add: successively_conv_nth)
    from lock_step_holder [OF assms(1,2) this m assms(7)]
    have "holder R C key (states ! Suc m) \<in> {Some a, None, Some ''''}" .
    moreover have "holder R C key (states ! Suc m) \<notin> {None, Some ''''}"
      using free step assms(8,9) by (cases "Suc m = j") auto
    ultimately show ?case by auto
  qed
  with assms(4,8,10) show False by auto
qed

theorem lock_handover_witness:
  "\<exists>m. 0 < m \<and> m < (2::nat) \<and> holder mem_redis demo_codec ''k''
     ([snd (lock_Create mem_redis demo_codec (NewRedisLock ''k'' ''a'') Delivered 0 (demo_record ''a'' 15) (\<lambda>_. None)),
       (\<lambda>_. None),
       snd (lock_Create mem_redis demo_codec (NewRedisLock ''k'' ''b'') Delivered 0 (demo_record ''b'' 15) (\<lambda>_. None))] ! m)
     \<in> {None, Some ''''}"
proof -
  let ?c = "\<lambda>i. snd (lock_Create mem_redis demo_codec (NewRedisLock ''k'' i) Delivered 0 (demo_record i 15) (\<lambda>_. None))"
  have created: "?c i = [''k'' \<mapsto> go_state demo_codec \<lparr>les_Record = demo_record i 15, les_Epoch = show_int 0\<rparr>]" for i
    by (simp add: lock_Create_def mem_redis_def NewRedisLock_def reach_server_def Let_def demo_record_def record0_def Second_def)
  have held: "holder mem_redis demo_codec ''k'' (?c i) = Some i" for i
  proof -
    have get: "r_get mem_redis [''k'' \<mapsto> v] = (r_get mem_redis Map.empty)(''k'' \<mapsto> v)" for v
      by (simp add: mem_redis_def)
    show ?thesis unfolding created
      by (subst holder_written [OF demo_codec_laws get insertI1]) (simp add: demo_record_def)
  qed
  have "lock_step mem_redis demo_codec ''k'' (?c ''a'') (\<lambda>_. None)"
    unfolding created by (rule lock_step.expire) (simp add: mem_redis_def)
  moreover have "lock_step mem_redis demo_codec ''k'' (\<lambda>_. None) (?c ''b'')"
    by (rule lock_step.create) (simp add: demo_record_def)
  ultimately have "successively (lock_step mem_redis demo_codec ''k'') [?c ''a'', \<lambda>_. None, ?c ''b'']" by simp
  from lock_handover [OF mem_redis_laws demo_codec_laws this, of 0 2 "''a''" "''b''"] held show ?thesis by simp
qed

lemma lease_length:
  assumes "0 \<le> sint secs" "sint secs \<le> 9223372036"
  shows "sint (secs * Second) = 1000000000 * sint secs" and "sint (lease_ms secs) = 1000 * sint secs"
proof -
  show sec: "sint (secs * Second) = 1000000000 * sint secs"
    using sint64_of_int [of "sint secs * 1000000000"] assms by (simp add: Second_def)
  show "sint (lease_ms secs) = 1000 * sint secs"
    using sint64_of_int [of "1000 * sint secs"] assms
    by (simp add: lease_ms_def sec trunc_quot_def abs_mult sgn_if split: if_splits)
qed

lemma zero_lease_refused:
  assumes "redis_laws R" "LeaseDurationSeconds ler = 0"
  shows "fst (lock_Update R C l Delivered now ler s) \<noteq> None \<and> snd (lock_Update R C l Delivered now ler s) = s"
proof -
  have refuse: "r_set_px R s k v 0 \<noteq> Inr s'" for k v s'
    using set_px_Inr [OF assms(1), of s k v 0 s'] by auto
  have "lease_ms (LeaseDurationSeconds ler) = 0" by (simp add: assms(2) lease_ms_def trunc_quot_def)
  then have "\<exists>err. update_script R C (rl_key l) (rl_identity l) (go_record C ler) ep (lease_ms (LeaseDurationSeconds ler)) s = Inl err" for ep
    by (auto simp: update_script_def refuse split: option.splits sum.splits)
  then show ?thesis by (auto simp: lock_Update_def reach_server_def split: sum.splits) (metis Inl_Inr_False)+
qed

text \<open>C28. What the lock stores is what its readers get, with the two times cut to whole seconds, and its operations refuse as
  specified. For a call that is delivered, with a lease of at least one second that does not overflow and a transition count
  below ten to the fourteen (client-go releases with a lease of one second), on a key that is free or holds a readable record: a
  create succeeds exactly on a free key, an update exactly on a key held by the elector itself or released; after a success
  every reader of the key gets the written record in whole seconds, at most a second older than written, after a refusal the
  key is as before. An update with a lease of zero seconds fails and changes nothing.\<close>

theorem lock_roundtrip:
  assumes "redis_laws R" "codec_laws C" "1 \<le> sint (LeaseDurationSeconds ler)" "sint (LeaseDurationSeconds ler) \<le> 9223372036"
    "\<bar>sint (LeaderTransitions ler)\<bar> < 10 ^ 14" "rl_key l' = rl_key l"
    and "r_get R s (rl_key l) \<noteq> None \<longrightarrow> holder R C (rl_key l) s \<noteq> None"
  shows "(case lock_Create R C l Delivered now ler s of (err, s') \<Rightarrow>
      if r_get R s (rl_key l) = None
      then err = None \<and> (\<exists>b. lock_Get R C l' Delivered s' = (Some (wire_record ler), Some b, None))
      else err = Some (PlainError ''lock already exists'') \<and> s' = s) \<and>
    (case lock_Update R C l Delivered now ler s of (err, s') \<Rightarrow>
      if holder R C (rl_key l) s \<in> {Some (rl_identity l), Some ''''}
      then err = None \<and> (\<exists>b. lock_Get R C l' Delivered s' = (Some (wire_record ler), Some b, None))
      else err = Some (PlainError (if r_get R s (rl_key l) = None then ''not found'' else ''not holder'')) \<and> s' = s) \<and>
    HolderIdentity (wire_record ler) = HolderIdentity ler \<and> LeaseDurationSeconds (wire_record ler) = LeaseDurationSeconds ler \<and>
    LeaderTransitions (wire_record ler) = LeaderTransitions ler \<and>
    AcquireTime ler - 1000000000 < AcquireTime (wire_record ler) \<and> AcquireTime (wire_record ler) \<le> AcquireTime ler \<and>
    RenewTime ler - 1000000000 < RenewTime (wire_record ler) \<and> RenewTime (wire_record ler) \<le> RenewTime ler \<and>
    (LeaseDurationSeconds ler0 = 0 \<longrightarrow>
      fst (lock_Update R C l Delivered now ler0 s) \<noteq> None \<and> snd (lock_Update R C l Delivered now ler0 s) = s)"
proof -
  have pos: "0 \<le> sint (LeaseDurationSeconds ler * Second)" "0 < sint (lease_ms (LeaseDurationSeconds ler))"
    using lease_length [of "LeaseDurationSeconds ler"] assms(3,4) by simp_all
  have exact: "lua_exact ler" using assms(3-5) by (simp add: lua_exact_def)
  have wire: "wire_record (wire_record ler) = wire_record ler" "lua_exact (wire_record ler)"
    using exact by (simp_all add: wire_record_def in_seconds_def lua_exact_def)
  have create: "case lock_Create R C l Delivered now ler s of (err, s') \<Rightarrow>
      if r_get R s (rl_key l) = None
      then err = None \<and> (\<exists>b. lock_Get R C l' Delivered s' = (Some (wire_record ler), Some b, None))
      else err = Some (PlainError ''lock already exists'') \<and> s' = s"
  proof (cases "r_get R s (rl_key l)")
    case None
    let ?v = "go_state C \<lparr>les_Record = ler, les_Epoch = show_int (sint now)\<rparr>"
    obtain s' where s': "r_setnx R s (rl_key l) ?v (LeaseDurationSeconds ler * Second) = Inr (True, s')"
        "r_get R s' = (r_get R s)(rl_key l \<mapsto> ?v)"
      by (rule setnx_absent [OF assms(1) pos(1) None])
    with assms(2,6) None show ?thesis
      by (simp add: lock_Create_def lock_Get_def reach_server_def Let_def codec_laws_def wire_state_def)
  next
    case (Some b)
    from setnx_present [OF assms(1) pos(1) Some] Some show ?thesis
      by (simp add: lock_Create_def reach_server_def Let_def)
  qed
  have update: "case lock_Update R C l Delivered now ler s of (err, s') \<Rightarrow>
      if holder R C (rl_key l) s \<in> {Some (rl_identity l), Some ''''}
      then err = None \<and> (\<exists>b. lock_Get R C l' Delivered s' = (Some (wire_record ler), Some b, None))
      else err = Some (PlainError (if r_get R s (rl_key l) = None then ''not found'' else ''not holder'')) \<and> s' = s"
  proof (cases "holder R C (rl_key l) s")
    case None
    with assms(7) have "r_get R s (rl_key l) = None" by auto
    with None show ?thesis by (simp add: lock_Update_def update_script_def reach_server_def)
  next
    case (Some h)
    then obtain val cur where val: "r_get R s (rl_key l) = Some val" "lua_decode C val = Inr cur"
        "HolderIdentity (les_Record cur) = h"
      by (auto simp: holder_def split: option.splits sum.splits)
    have rec: "lua_record C (go_record C ler) = Inr (wire_record ler)"
      using assms(2) exact unfolding codec_laws_def by fastforce
    let ?st = "cur\<lparr>les_Record := wire_record ler, les_Epoch := show_int (sint now)\<rparr>"
    have read: "go_parse C (lua_encode C ?st) = Inr (wire_state ?st)"
      using assms(2) wire(2) unfolding codec_laws_def by simp
    have "\<exists>s'. r_set_px R s (rl_key l) v (lease_ms (LeaseDurationSeconds ler)) = Inr s' \<and>
        r_get R s' = (r_get R s)(rl_key l \<mapsto> v)" for v
      using assms(1) pos(2) unfolding redis_laws_def by presburger
    then obtain s' where "r_set_px R s (rl_key l) (lua_encode C ?st) (lease_ms (LeaseDurationSeconds ler)) = Inr s'"
        "r_get R s' = (r_get R s)(rl_key l \<mapsto> lua_encode C ?st)"
      by blast
    with val Some rec read wire(1) assms(6) show ?thesis
      by (auto simp: lock_Update_def update_script_def reach_server_def lock_Get_def wire_state_def)
  qed
  have times: "t - 1000000000 < in_seconds t \<and> in_seconds t \<le> t" for t by (simp add: in_seconds_def)
  from create update times [of "AcquireTime ler"] times [of "RenewTime ler"] zero_lease_refused [OF assms(1)] show ?thesis
    by (simp add: wire_record_def)
qed

theorem lock_roundtrip_witness:
  "case lock_Create mem_redis demo_codec (NewRedisLock ''k'' ''a'') Delivered 0 (demo_record ''a'' 15) (\<lambda>_. None) of
     (err, s') \<Rightarrow> err = None \<and>
       (\<exists>b. lock_Get mem_redis demo_codec (NewRedisLock ''k'' ''b'') Delivered s' = (Some (demo_record ''a'' 15), Some b, None))"
proof -
  have r: "1 \<le> sint (LeaseDurationSeconds (demo_record ''a'' 15))" "sint (LeaseDurationSeconds (demo_record ''a'' 15)) \<le> 9223372036"
    "\<bar>sint (LeaderTransitions (demo_record ''a'' 15))\<bar> < 10 ^ 14" "wire_record (demo_record ''a'' 15) = demo_record ''a'' 15"
    by (simp_all add: demo_record_def record0_def wire_record_def in_seconds_def)
  have key: "rl_key (NewRedisLock ''k'' ''b'') = rl_key (NewRedisLock ''k'' ''a'')" by (simp add: NewRedisLock_def)
  have absent: "r_get mem_redis (\<lambda>_. None) (rl_key (NewRedisLock ''k'' ''a'')) = None" by (simp add: mem_redis_def)
  from lock_roundtrip [OF mem_redis_laws demo_codec_laws r(1-3) key, of "\<lambda>_. None" 0] absent r(4) show ?thesis
    by (simp split: prod.splits)
qed

text \<open>Lease lengths: within the range where the multiplication does not wrap, the time to live that an update sets is
  the lease in milliseconds; a lease of zero seconds is stored by a create without expiration and can never be renewed.\<close>

theorem lock_lease_length:
  assumes "redis_laws R" "0 \<le> sint secs" "sint secs \<le> 9223372036"
  shows "sint (lease_ms secs) = 1000 * sint secs \<and> sint (secs * Second) = 1000000000 * sint secs \<and>
    (LeaseDurationSeconds ler = 0 \<longrightarrow>
       fst (lock_Update R C l Delivered now ler s) \<noteq> None \<and> snd (lock_Update R C l Delivered now ler s) = s \<and>
       (r_get R s (rl_key l) = None \<longrightarrow> fst (lock_Create R C l Delivered now ler s) = None))"
proof -
  have "fst (lock_Create R C l Delivered now ler s) = None"
    if zero: "LeaseDurationSeconds ler = 0" and absent: "r_get R s (rl_key l) = None"
  proof -
    let ?v = "go_state C \<lparr>les_Record = ler, les_Epoch = show_int (sint now)\<rparr>"
    obtain s' where "r_setnx R s (rl_key l) ?v 0 = Inr (True, s')"
      by (rule setnx_absent [OF assms(1) _ absent, of 0 ?v]) auto
    then show ?thesis by (simp add: lock_Create_def reach_server_def Let_def zero)
  qed
  with lease_length [OF assms(2,3)] zero_lease_refused [OF assms(1)] show ?thesis by blast
qed

theorem lock_lease_length_witness:
  "sint (lease_ms 15) = 15000 \<and>
   fst (lock_Update mem_redis demo_codec (NewRedisLock ''k'' ''a'') Delivered 0 (demo_record ''a'' 0) (\<lambda>_. None)) \<noteq> None"
  using lock_lease_length [OF mem_redis_laws, of 15 "demo_record ''a'' 0" demo_codec "NewRedisLock ''k'' ''a''" 0 "\<lambda>_. None"]
  by (simp add: demo_record_def)

text \<open>Connecting to Redis: flags given on the command line override what the URL says, and no
  address with a URL scheme is logged; but an address with the scheme \<open>rediss\<close> is not treated as a URL: the whole URL
  becomes the host address and TLS is off unless the flag asks for it.\<close>

theorem redis_options_behaviour:
  "(HasPrefix addr ''redis://'' \<and> ParseURL addr = Inr opt \<longrightarrow>
      (\<exists>opts. redis_client_options ParseURL addr user pass db tls = Inr opts \<and> ro_Addr opts = ro_Addr opt \<and>
        ro_Username opts = (if user = '''' then ro_Username opt else user) \<and>
        ro_Password opts = (if pass = '''' then ro_Password opt else pass) \<and>
        ro_DB opts = (if db = 0 then ro_DB opt else db) \<and> ro_TLS opts = (ro_TLS opt \<or> tls)) \<and>
      safeRedisAddr addr = ''[redis URL masked]'') \<and>
   safeRedisAddr (''rediss://'' @ rest) = ''[redis URL masked]'' \<and>
   redis_client_options ParseURL (''rediss://'' @ rest) user pass db tls =
     Inr \<lparr>ro_Addr = ''rediss://'' @ rest, ro_Username = user, ro_Password = pass, ro_DB = db, ro_TLS = tls\<rparr>"
proof -
  have no: "\<not> HasPrefix (''rediss://'' @ rest) ''redis://''" and yes: "HasPrefix (''rediss://'' @ rest) ''rediss://''"
    by (simp_all add: HasPrefix_def)
  have "\<exists>opts. redis_client_options ParseURL addr user pass db tls = Inr opts \<and> ro_Addr opts = ro_Addr opt \<and>
        ro_Username opts = (if user = '''' then ro_Username opt else user) \<and>
        ro_Password opts = (if pass = '''' then ro_Password opt else pass) \<and>
        ro_DB opts = (if db = 0 then ro_DB opt else db) \<and> ro_TLS opts = (ro_TLS opt \<or> tls)"
    if "HasPrefix addr ''redis://''" "ParseURL addr = Inr opt"
    using that by (auto simp: redis_client_options_def Let_def)
  with no yes show ?thesis by (auto simp: safeRedisAddr_def redis_client_options_def)
qed

theorem redis_options_behaviour_witness:
  "redis_client_options (\<lambda>_. Inl ''no'') (''rediss://'' @ ''h'') '''' '''' 0 False =
     Inr \<lparr>ro_Addr = ''rediss://h'', ro_Username = '''', ro_Password = '''', ro_DB = 0, ro_TLS = False\<rparr> \<and>
   safeRedisAddr ''redis://h'' = ''[redis URL masked]''"
  using redis_options_behaviour [of "''redis://h''" "\<lambda>a. if a = ''redis://h'' then Inr \<lparr>ro_Addr = ''h'', ro_Username = '''',
      ro_Password = '''', ro_DB = 0, ro_TLS = False\<rparr> else Inl ''no''" "\<lparr>ro_Addr = ''h'', ro_Username = '''',
      ro_Password = '''', ro_DB = 0, ro_TLS = False\<rparr>" "''''" "''''" 0 False "''h''"]
    redis_options_behaviour [of "''redis://h''" "\<lambda>_. Inl ''no''" _ "''''" "''''" 0 False "''h''"]
  by (simp add: HasPrefix_def)

end
