(* ===== verification/Election_Process.thy ===== *)
theory Election_Process
  imports Leader_Election
begin

text \<open>
  The processes around the locks of \<open>Leader_Election\<close>: the rest of the main functions of \<open>src/leader-election/main.go\<close>, its
  copy among the official examples, and \<open>src/leader-election/redislock.go\<close>, with the callbacks they hand to the election
  library.

  The election loop is the library's, with the renewal and the expiry of the lease; it is no part of the model. What the
  programs themselves do on a signal and on each call of the library is. The Redis program cancels its own context after two
  minutes; its work looks at the context, that of the Lease programs does not.
\<close>

section \<open>Definitions\<close>

subsection \<open>The Lease programs\<close>

text \<open>What the callbacks log; \<open>OnNewLeader\<close> says nothing about the process itself.\<close>

definition lease_OnStoppedLeading :: "string \<Rightarrow> string \<times> nat" where
  "lease_OnStoppedLeading self = (''leader lost: '' @ self, 0)"

definition lease_OnNewLeader :: "string \<Rightarrow> string \<Rightarrow> string option" where
  "lease_OnNewLeader self identity = (if identity = self then None else Some (''new leader elected: '' @ identity))"

text \<open>The official example is the same program.\<close>

definition official_buildConfig :: "(string \<Rightarrow> go_error + 'cfg) \<Rightarrow> (go_error + 'cfg) \<Rightarrow> string \<Rightarrow> go_error + 'cfg" where
  "official_buildConfig BuildConfigFromFlags InClusterConfig kubeconfig =
     (if kubeconfig \<noteq> '''' then
        (case BuildConfigFromFlags kubeconfig of Inl err \<Rightarrow> Inl err | Inr cfg \<Rightarrow> Inr cfg)
      else (case InClusterConfig of Inl err \<Rightarrow> Inl err | Inr cfg \<Rightarrow> Inr cfg))"

definition official_main :: "(string \<Rightarrow> go_error + 'cfg) \<Rightarrow> (go_error + 'cfg) \<Rightarrow> ('cfg \<Rightarrow> 'cl outcome) \<Rightarrow>
    string \<Rightarrow> string \<Rightarrow> string \<Rightarrow> string \<Rightarrow> (string + 'cl \<times> LeaseLock \<times> election_timing) outcome" where
  "official_main BuildConfigFromFlags InClusterConfig NewForConfigOrDie kubeconfig uid leaseLockName leaseLockNamespace =
     (if leaseLockName = '''' then
        Ret (Inl ''unable to get lease lock resource name (missing lease-lock-name flag).'')
      else if leaseLockNamespace = '''' then
        Ret (Inl ''unable to get lease lock resource namespace (missing lease-lock-namespace flag).'')
      else
        (case official_buildConfig BuildConfigFromFlags InClusterConfig kubeconfig of
           Inl err \<Rightarrow> Ret (Inl (Error err))
         | Inr config \<Rightarrow>
             (case NewForConfigOrDie config of
                Panic p \<Rightarrow> Panic p
              | Ret client \<Rightarrow> Ret (Inr (client,
                  \<lparr>ll_Name = leaseLockName, ll_Namespace = leaseLockNamespace, ll_Identity = uid\<rparr>,
                  \<lparr>et_ReleaseOnCancel = True, et_LeaseDuration = 60 * Second, et_RenewDeadline = 15 * Second,
                   et_RetryPeriod = 5 * Second\<rparr>)))))"

definition official_OnStoppedLeading :: "string \<Rightarrow> string \<times> nat" where
  "official_OnStoppedLeading self = (''leader lost: '' @ self, 0)"

definition official_OnNewLeader :: "string \<Rightarrow> string \<Rightarrow> string option" where
  "official_OnNewLeader self identity = (if identity = self then None else Some (''new leader elected: '' @ identity))"

subsection \<open>The Redis program\<close>

record redis_flags =
  rf_addr :: string
  rf_user :: string
  rf_pass :: string
  rf_db :: int
  rf_tls :: bool
  rf_key :: string
  rf_id :: string
  rf_lease :: int64
  rf_renew :: int64
  rf_retry :: int64

text \<open>
  The program up to the election: it fails with the message of \<open>log.Fatalf\<close>, or runs the election with its lock. Creating
  an elector fails for some timings, which is the library's decision.
\<close>

definition redis_main :: "(string \<Rightarrow> string + redis_options) \<Rightarrow> (redis_options \<Rightarrow> go_error option) \<Rightarrow>
    (RedisLock \<Rightarrow> election_timing \<Rightarrow> go_error option) \<Rightarrow> redis_flags \<Rightarrow> string + RedisLock \<times> election_timing" where
  "redis_main ParseURL Ping NewLeaderElector f =
     (case redis_client_options ParseURL (rf_addr f) (rf_user f) (rf_pass f) (rf_db f) (rf_tls f) of
        Inl msg \<Rightarrow> Inl msg
      | Inr opt \<Rightarrow>
          (case Ping opt of
             Some err \<Rightarrow> Inl (''redis ping err: '' @ Error err)
           | None \<Rightarrow>
               (let lock = NewRedisLock (rf_key f) (rf_id f);
                    cfg = redis_election (rf_lease f) (rf_renew f) (rf_retry f)
                in (case NewLeaderElector lock cfg of
                      Some err \<Rightarrow> Inl (''create elector err: '' @ Error err)
                    | None \<Rightarrow> Inr (lock, cfg)))))"

definition redis_OnStartedLeading :: "string \<Rightarrow> string list \<Rightarrow> bool \<Rightarrow> string list" where
  "redis_OnStartedLeading self ticks cancelled =
     [''[LEADER] '' @ self @ '' started leading''] @ map (\<lambda>tm. ''[LEADER] '' @ self @ '' tick at '' @ tm) ticks @
     (if cancelled then [''[LEADER] '' @ self @ '' context canceled''] else [])"

definition redis_OnStoppedLeading :: "string \<Rightarrow> string" where
  "redis_OnStoppedLeading self = ''[FOLLOWER] '' @ self @ '' stopped leading''"

text \<open>What the main function logs from the end of its two minutes on; the callback is called by the elector before \<open>Run\<close> returns.\<close>

definition redis_stop :: "string \<Rightarrow> string list" where
  "redis_stop self = [''stopping after 2 minutes'', redis_OnStoppedLeading self, ''exit'']"

subsection \<open>The life of a Lease program\<close>

text \<open>
  What a Lease program does once \<open>RunOrDie\<close> has its callbacks: the effect of a signal and of each call that the election library
  makes. Which calls the library makes, and when, is its own affair: the argument is any sequence. The first signal is taken
  from the channel by the goroutine, which cancels the context; a later one stays in the channel. \<open>run\<close> logs a line and never
  returns, since it waits in an empty \<open>select\<close> and does not look at its context.
\<close>

datatype lease_event = Termination | StartedLeading | StoppedLeading | NewLeader string

record lease_process =
  lp_log :: "string list"
  lp_cancelled :: bool
  lp_working :: bool
  lp_exit :: "nat option"

definition lease_process0 :: lease_process where
  "lease_process0 = \<lparr>lp_log = [], lp_cancelled = False, lp_working = False, lp_exit = None\<rparr>"

fun lease_react :: "string \<Rightarrow> lease_process \<Rightarrow> lease_event \<Rightarrow> lease_process" where
  "lease_react self p ev =
     (if lp_exit p \<noteq> None then p
      else
        (case ev of
           Termination \<Rightarrow> if lp_cancelled p then p
             else p\<lparr>lp_log := lp_log p @ [''Received termination, signaling shutdown''], lp_cancelled := True\<rparr>
         | StartedLeading \<Rightarrow> p\<lparr>lp_log := lp_log p @ [''Controller loop...''], lp_working := True\<rparr>
         | StoppedLeading \<Rightarrow>
             (case lease_OnStoppedLeading self of
                (msg, code) \<Rightarrow> p\<lparr>lp_log := lp_log p @ [msg], lp_working := False, lp_exit := Some code\<rparr>)
         | NewLeader identity \<Rightarrow>
             (case lease_OnNewLeader self identity of
                None \<Rightarrow> p
              | Some msg \<Rightarrow> p\<lparr>lp_log := lp_log p @ [msg]\<rparr>)))"

section \<open>Lemmas\<close>

lemma official_main_same: "official_main = lease_main" "official_buildConfig = buildConfig"
    "official_OnStoppedLeading = lease_OnStoppedLeading" "official_OnNewLeader = lease_OnNewLeader"
  by (intro ext, simp add: official_main_def lease_main_def official_buildConfig_def buildConfig_def
      official_OnStoppedLeading_def lease_OnStoppedLeading_def official_OnNewLeader_def lease_OnNewLeader_def)+

section \<open>Properties\<close>

text \<open>The work of a Lease program outlives its cancellation: once it leads, whatever signals come and whatever the library reports,
  it works until the library calls \<open>OnStoppedLeading\<close>, which logs the loss and ends the process with code 0. Giving the lease back
  on cancellation, as \<open>ReleaseOnCancel\<close> asks for, therefore gives it back while the work goes on. Signals are logged once.\<close>

lemma lease_stopped: "lp_exit p \<noteq> None \<Longrightarrow> foldl (lease_react self) p evs = p"
  by (induction evs) auto

lemma lease_works_on:
  "lp_exit p = None \<Longrightarrow> lp_working p \<Longrightarrow> StoppedLeading \<notin> set evs \<Longrightarrow>
    lp_working (foldl (lease_react self) p evs) \<and> lp_exit (foldl (lease_react self) p evs) = None \<and>
    lp_cancelled (foldl (lease_react self) p evs) = (lp_cancelled p \<or> Termination \<in> set evs)"
  by (induction evs arbitrary: p) (auto split: lease_event.splits option.splits)

theorem lease_work_outlives_cancel:
  assumes "lp_exit p = None" and "StoppedLeading \<notin> set evs"
  shows "(let q = foldl (lease_react self) p (StartedLeading # Termination # evs) in
      lp_cancelled q \<and> lp_working q \<and> lp_exit q = None) \<and>
    (let q = foldl (lease_react self) p (StartedLeading # evs @ StoppedLeading # evs') in
      \<not> lp_working q \<and> lp_exit q = Some 0 \<and> last (lp_log q) = ''leader lost: '' @ self)"
proof -
  let ?p = "lease_react self p StartedLeading"
  have p: "lp_exit ?p = None" "lp_working ?p" using assms(1) by auto
  have "lp_exit (foldl (lease_react self) ?p evs) = None" using lease_works_on [OF p assms(2)] by blast
  then show ?thesis
    using lease_works_on [OF p, of "Termination # evs"] assms(2) lease_stopped
    by (auto simp: Let_def lease_OnStoppedLeading_def)
qed

theorem lease_work_outlives_cancel_witness:
  "lp_working (foldl (lease_react ''a'') lease_process0 [StartedLeading, Termination, NewLeader ''b''])"
  using lease_work_outlives_cancel [of lease_process0 "[NewLeader ''b'']" "''a''" "[]"]
  by (simp add: lease_process0_def Let_def)

end
