(* ===== verification/Scheduler_Extender.thy ===== *)
theory Scheduler_Extender
  imports Kube_Api
begin

text \<open>
  The scheduler extender of \<open>src/k8s-scheduler-extender-example/\<close>: the filter (\<open>predicate.go\<close>), the scoring
  (\<open>prioritize.go\<close>), bind (\<open>bind.go\<close>) and preemption (\<open>preemption.go\<close>) handlers, their HTTP routes
  (\<open>routes.go\<close>) and the handlers and routes the program registers (\<open>main.go\<close>).

  The scheduler's types and their JSON form come from Kubernetes: a node is a record with its name and further
  fields \<open>'x\<close>, a pod is a type parameter \<open>'p\<close>, and decoding and encoding are parameters of the routes.
  A response writer keeps the first status it is given and appends what is written, as \<open>net/http\<close> does.
\<close>

section \<open>Definitions\<close>

subsection \<open>Handlers\<close>

record Node =
  node_Name :: string

record ('p, 'n) ExtenderArgs =
  ea_Pod :: "'p option"
  ea_Nodes :: "'n list option"

record 'n ExtenderFilterResult =
  fr_Nodes :: "'n list option"
  fr_FailedNodes :: "entries option"
  fr_Error :: string

record ('p, 'n) Predicate =
  pr_Name :: string
  pr_Func :: "'p \<Rightarrow> 'n \<Rightarrow> string + bool"

fun filter_nodes :: "('p \<Rightarrow> 'x Node_scheme \<Rightarrow> string + bool) \<Rightarrow> 'p option \<Rightarrow> 'x Node_scheme list \<Rightarrow>
    'x Node_scheme list \<Rightarrow> entries \<Rightarrow> ('x Node_scheme list \<times> entries) outcome" where
  "filter_nodes func pod [] can cannot = Ret (can, cannot)"
| "filter_nodes func pod (node # nodes) can cannot =
     (case pod of
        None \<Rightarrow> Panic NilDereference
      | Some p \<Rightarrow>
          (case func p node of
             Inl err \<Rightarrow> filter_nodes func pod nodes can (AList.update (node_Name node) err cannot)
           | Inr result \<Rightarrow>
               if result then filter_nodes func pod nodes (can @ [node]) cannot
               else filter_nodes func pod nodes can cannot))"

definition Predicate_Handler :: "('p, 'x Node_scheme) Predicate \<Rightarrow> ('p, 'x Node_scheme) ExtenderArgs \<Rightarrow>
    'x Node_scheme ExtenderFilterResult outcome" where
  "Predicate_Handler p args =
     (case ea_Nodes args of
        None \<Rightarrow> Panic NilDereference
      | Some items \<Rightarrow>
          (case filter_nodes (pr_Func p) (ea_Pod args) items [] [] of
             Panic e \<Rightarrow> Panic e
           | Ret (can, cannot) \<Rightarrow> Ret \<lparr>fr_Nodes = Some can, fr_FailedNodes = Some cannot, fr_Error = ''''\<rparr>))"

record HostPriority =
  hp_Host :: string
  hp_Score :: int64

record ('p, 'n) Prioritize =
  pz_Name :: string
  pz_Func :: "'p \<Rightarrow> 'n list \<Rightarrow> string + HostPriority list"

definition Prioritize_Handler :: "('p, 'n) Prioritize \<Rightarrow> ('p, 'n) ExtenderArgs \<Rightarrow>
    (string + HostPriority list) outcome" where
  "Prioritize_Handler p args =
     (case (ea_Pod args, ea_Nodes args) of
        (Some pod, Some nodes) \<Rightarrow> Ret (pz_Func p pod nodes)
      | _ \<Rightarrow> Panic NilDereference)"

record ExtenderBindingArgs =
  ba_PodName :: string
  ba_PodNamespace :: string
  ba_PodUID :: string
  ba_Node :: string

record ExtenderBindingResult =
  br_Error :: string

type_synonym Bind = "string \<Rightarrow> string \<Rightarrow> string \<Rightarrow> string \<Rightarrow> string option"

text \<open>The error of \<open>func\<close> is dereferenced whether or not there is one.\<close>

definition Bind_Handler :: "Bind \<Rightarrow> ExtenderBindingArgs \<Rightarrow> ExtenderBindingResult outcome" where
  "Bind_Handler func args =
     (case func (ba_PodName args) (ba_PodNamespace args) (ba_PodUID args) (ba_Node args) of
        None \<Rightarrow> Panic NilDereference
      | Some err \<Rightarrow> Ret \<lparr>br_Error = err\<rparr>)"

record ('p, 'v, 'm) ExtenderPreemptionArgs =
  xa_Pod :: "'p option"
  xa_NodeNameToVictims :: "(string \<times> 'v) list"
  xa_NodeNameToMetaVictims :: "(string \<times> 'm) list"

type_synonym ('p, 'v, 'm) Preemption = "'p \<Rightarrow> (string \<times> 'v) list \<Rightarrow> (string \<times> 'm) list \<Rightarrow> (string \<times> 'm) list"

definition Preemption_Handler :: "('p, 'v, 'm) Preemption \<Rightarrow> ('p, 'v, 'm) ExtenderPreemptionArgs \<Rightarrow>
    (string \<times> 'm) list outcome" where
  "Preemption_Handler func args =
     (case xa_Pod args of
        None \<Rightarrow> Panic NilDereference
      | Some pod \<Rightarrow> Ret (func pod (xa_NodeNameToVictims args) (xa_NodeNameToMetaVictims args)))"

subsection \<open>The registered handlers\<close>

definition TruePredicate :: "('p, 'n) Predicate" where
  "TruePredicate = \<lparr>pr_Name = ''always_true'', pr_Func = (\<lambda>pod node. Inr True)\<rparr>"

fun zero_scores :: "'x Node_scheme list \<Rightarrow> nat \<Rightarrow> HostPriority list \<Rightarrow> HostPriority list" where
  "zero_scores [] i out = out"
| "zero_scores (node # nodes) i out =
     zero_scores nodes (i + 1) (out[i := \<lparr>hp_Host = node_Name node, hp_Score = 0\<rparr>])"

definition ZeroPriority :: "('p, 'x Node_scheme) Prioritize" where
  "ZeroPriority = \<lparr>pz_Name = ''zero_score'',
     pz_Func = (\<lambda>pod nodes. Inr (zero_scores nodes 0 (replicate (length nodes) \<lparr>hp_Host = '''', hp_Score = 0\<rparr>)))\<rparr>"

definition NoBind :: Bind where
  "NoBind podName podNamespace podUID node = Some
     ''This extender doesn't support Bind.  Please make 'BindVerb' be empty in your ExtenderConfig.''"

definition EchoPreemption :: "('p, 'v, 'm) Preemption" where
  "EchoPreemption pod victims metaVictims = metaVictims"

datatype Level = LTrace | LDebug | LInfo | LWarning | LError | LAlert

definition StringToLevel :: "string \<Rightarrow> Level" where
  "StringToLevel levelStr =
     (let level = ToUpper levelStr in
      if level = ''TRACE'' then LTrace
      else if level = ''DEBUG'' then LDebug
      else if level = ''INFO'' then LInfo
      else if level = ''WARNING'' then LWarning
      else if level = ''ERROR'' then LError
      else if level = ''ALERT'' then LAlert
      else LInfo)"

subsection \<open>HTTP\<close>

record response_writer =
  rw_status :: "nat option"
  rw_ctype :: string
  rw_body :: string

definition rw0 :: response_writer where
  "rw0 = \<lparr>rw_status = None, rw_ctype = '''', rw_body = ''''\<rparr>"

definition SetContentType :: "string \<Rightarrow> response_writer \<Rightarrow> response_writer" where
  "SetContentType t w = (if rw_status w = None then w\<lparr>rw_ctype := t\<rparr> else w)"

definition WriteHeader :: "nat \<Rightarrow> response_writer \<Rightarrow> response_writer" where
  "WriteHeader n w = (if rw_status w = None then w\<lparr>rw_status := Some n\<rparr> else w)"

definition Write :: "string \<Rightarrow> response_writer \<Rightarrow> response_writer" where
  "Write s w = (let w' = WriteHeader 200 w in w'\<lparr>rw_body := rw_body w' @ s\<rparr>)"

definition http_Error :: "string \<Rightarrow> nat \<Rightarrow> response_writer \<Rightarrow> response_writer" where
  "http_Error msg n w = Write (msg @ [CHR 0x0A]) (WriteHeader n (SetContentType ''text/plain; charset=utf-8'' w))"

definition checkBody :: "string option \<Rightarrow> response_writer \<Rightarrow> response_writer" where
  "checkBody body w = (case body of None \<Rightarrow> http_Error ''Please send a request body'' 400 w | Some _ \<Rightarrow> w)"

text \<open>A nil pointer is encoded as \<open>null\<close>.\<close>

definition Marshal_ptr :: "('a \<Rightarrow> string + string) \<Rightarrow> 'a option \<Rightarrow> string + string" where
  "Marshal_ptr enc x = (case x of None \<Rightarrow> Inr ''null'' | Some v \<Rightarrow> enc v)"

text \<open>The common end of the routes; an encoding error panics.\<close>

definition reply_json :: "(string + string) \<Rightarrow> response_writer \<Rightarrow> response_writer \<times> panic option" where
  "reply_json result w =
     (case result of
        Inl err \<Rightarrow> (w, Some (PanicErr err))
      | Inr body \<Rightarrow> (Write body (WriteHeader 200 (SetContentType ''application/json'' w)), None))"

text \<open>Each route: the decoder reads the body, and reading a nil body dereferences nil.\<close>

definition PredicateRoute :: "(string \<Rightarrow> string + ('p, 'x Node_scheme) ExtenderArgs) \<Rightarrow>
    ('x Node_scheme ExtenderFilterResult \<Rightarrow> string + string) \<Rightarrow> ('p, 'x Node_scheme) Predicate \<Rightarrow>
    string option \<Rightarrow> response_writer \<Rightarrow> response_writer \<times> panic option" where
  "PredicateRoute dec enc predicate body w =
     (let w1 = checkBody body w in
      case body of
        None \<Rightarrow> (w1, Some NilDereference)
      | Some b \<Rightarrow>
          (case dec b of
             Inl err \<Rightarrow> reply_json (Marshal_ptr enc (Some \<lparr>fr_Nodes = None, fr_FailedNodes = None, fr_Error = err\<rparr>)) w1
           | Inr args \<Rightarrow>
               (case Predicate_Handler predicate args of
                  Panic p \<Rightarrow> (w1, Some p)
                | Ret r \<Rightarrow> reply_json (Marshal_ptr enc (Some r)) w1)))"

definition PrioritizeRoute :: "(string \<Rightarrow> string + ('p, 'n) ExtenderArgs) \<Rightarrow>
    (HostPriority list \<Rightarrow> string + string) \<Rightarrow> ('p, 'n) Prioritize \<Rightarrow>
    string option \<Rightarrow> response_writer \<Rightarrow> response_writer \<times> panic option" where
  "PrioritizeRoute dec enc prioritize body w =
     (let w1 = checkBody body w in
      case body of
        None \<Rightarrow> (w1, Some NilDereference)
      | Some b \<Rightarrow>
          (case dec b of
             Inl err \<Rightarrow> (w1, Some (PanicErr err))
           | Inr args \<Rightarrow>
               (case Prioritize_Handler prioritize args of
                  Panic p \<Rightarrow> (w1, Some p)
                | Ret (Inl err) \<Rightarrow> (w1, Some (PanicErr err))
                | Ret (Inr scores) \<Rightarrow> reply_json (Marshal_ptr enc (Some scores)) w1)))"

definition BindRoute :: "(string \<Rightarrow> string + ExtenderBindingArgs) \<Rightarrow> (ExtenderBindingResult \<Rightarrow> string + string) \<Rightarrow> Bind \<Rightarrow>
    string option \<Rightarrow> response_writer \<Rightarrow> response_writer \<times> panic option" where
  "BindRoute dec enc bnd body w =
     (let w1 = checkBody body w in
      case body of
        None \<Rightarrow> (w1, Some NilDereference)
      | Some b \<Rightarrow>
          (case dec b of
             Inl err \<Rightarrow> reply_json (Marshal_ptr enc (Some \<lparr>br_Error = err\<rparr>)) w1
           | Inr args \<Rightarrow>
               (case Bind_Handler bnd args of
                  Panic p \<Rightarrow> (w1, Some p)
                | Ret r \<Rightarrow> reply_json (Marshal_ptr enc (Some r)) w1)))"

definition PreemptionRoute :: "(string \<Rightarrow> string + ('p, 'v, 'm) ExtenderPreemptionArgs) \<Rightarrow>
    ((string \<times> 'm) list \<Rightarrow> string + string) \<Rightarrow> ('p, 'v, 'm) Preemption \<Rightarrow>
    string option \<Rightarrow> response_writer \<Rightarrow> response_writer \<times> panic option" where
  "PreemptionRoute dec enc preemption body w =
     (let w1 = checkBody body w in
      case body of
        None \<Rightarrow> (w1, Some NilDereference)
      | Some b \<Rightarrow>
          (case dec b of
             Inl err \<Rightarrow> reply_json (Marshal_ptr enc None) (WriteHeader 400 (SetContentType ''application/json'' w1))
           | Inr args \<Rightarrow>
               (case Preemption_Handler preemption args of
                  Panic p \<Rightarrow> (w1, Some p)
                | Ret r \<Rightarrow> reply_json (Marshal_ptr enc (Some r)) w1)))"

definition VersionRoute :: "string \<Rightarrow> response_writer \<Rightarrow> response_writer" where
  "VersionRoute version w = Write version w"

subsection \<open>The router\<close>

datatype handle = HVersion | HPredicate string | HPrioritize string | HBind | HPreemption

type_synonym router = "(string \<times> string \<times> handle) list"

definition versionPath :: string where "versionPath = ''/version''"

definition apiPrefix :: string where "apiPrefix = ''/scheduler''"

definition bindPath :: string where "bindPath = apiPrefix @ ''/bind''"

definition preemptionPath :: string where "preemptionPath = apiPrefix @ ''/preemption''"

definition predicatesPrefix :: string where "predicatesPrefix = apiPrefix @ ''/predicates''"

definition prioritiesPrefix :: string where "prioritiesPrefix = apiPrefix @ ''/priorities''"

definition registered :: "router \<Rightarrow> string \<Rightarrow> string \<Rightarrow> bool" where
  "registered r meth path \<longleftrightarrow> list_ex (\<lambda>(m, p, h). m = meth \<and> p = path) r"

definition AddVersion :: "router \<Rightarrow> router" where
  "AddVersion r = r @ [(''GET'', versionPath, HVersion)]"

definition AddPredicate :: "('p, 'n) Predicate \<Rightarrow> router \<Rightarrow> router" where
  "AddPredicate p r = r @ [(''POST'', predicatesPrefix @ ''/'' @ pr_Name p, HPredicate (pr_Name p))]"

definition AddPrioritize :: "('p, 'n) Prioritize \<Rightarrow> router \<Rightarrow> router" where
  "AddPrioritize p r = r @ [(''POST'', prioritiesPrefix @ ''/'' @ pz_Name p, HPrioritize (pz_Name p))]"

definition AddBind :: "router \<Rightarrow> router" where
  "AddBind r = (if registered r ''POST'' bindPath then r else r @ [(''POST'', bindPath, HBind)])"

definition AddPreemption :: "router \<Rightarrow> router" where
  "AddPreemption r = (if registered r ''POST'' preemptionPath then r else r @ [(''POST'', preemptionPath, HPreemption)])"

definition main_router :: router where
  "main_router = AddBind (fold AddPrioritize [ZeroPriority :: (unit, Node) Prioritize]
     (fold AddPredicate [TruePredicate :: (unit, Node) Predicate] (AddVersion [])))"

subsection \<open>Specification of the filter\<close>

text \<open>The errors of the nodes, in order.\<close>

definition node_errors :: "('p \<Rightarrow> 'x Node_scheme \<Rightarrow> string + bool) \<Rightarrow> 'p \<Rightarrow> 'x Node_scheme list \<Rightarrow> entries" where
  "node_errors func p nodes =
     List.map_filter (\<lambda>n. case func p n of Inl err \<Rightarrow> Some (node_Name n, err) | Inr _ \<Rightarrow> None) nodes"

section \<open>Lemmas\<close>

lemma filter_nodes_spec:
  "\<exists>cannot'. filter_nodes func (Some p) nodes can cannot = Ret (can @ filter (\<lambda>n. func p n = Inr True) nodes, cannot') \<and>
     map_of cannot' = map_of cannot ++ map_of (rev (node_errors func p nodes))"
proof (induction nodes arbitrary: can cannot)
  case (Cons n nodes)
  show ?case
  proof (cases "func p n")
    case (Inl err)
    have upd: "map_of (AList.update (node_Name n) err cannot) = (map_of cannot)(node_Name n \<mapsto> err)"
      by (rule ext) (simp add: AList.update_conv)
    have errs: "map_of cannot ++ map_of (rev (node_errors func p (n # nodes))) =
        (map_of cannot)(node_Name n \<mapsto> err) ++ map_of (rev (node_errors func p nodes))"
      using Inl by (auto simp: node_errors_def map_filter_simps map_add_def fun_eq_iff split: option.splits)
    have "filter (\<lambda>n. func p n = Inr True) (n # nodes) = filter (\<lambda>n. func p n = Inr True) nodes"
      using Inl by simp
    moreover have "filter_nodes func (Some p) (n # nodes) can cannot =
        filter_nodes func (Some p) nodes can (AList.update (node_Name n) err cannot)"
      using Inl by simp
    ultimately show ?thesis
      using Cons.IH [of can "AList.update (node_Name n) err cannot"] unfolding upd errs by (simp only:)
  next
    case (Inr b)
    with Cons.IH [of "if b then can @ [n] else can" cannot] show ?thesis
      by (auto simp: node_errors_def map_filter_simps)
  qed
qed (simp add: node_errors_def map_filter_simps)

lemma zero_scores_eq:
  assumes "length out = i + length nodes"
  shows "zero_scores nodes i out = take i out @ map (\<lambda>n. \<lparr>hp_Host = node_Name n, hp_Score = 0\<rparr>) nodes"
  using assms
proof (induction nodes arbitrary: i out)
  case (Cons n nodes)
  have "take (i + 1) (out[i := \<lparr>hp_Host = node_Name n, hp_Score = 0\<rparr>]) =
      take i out @ [\<lparr>hp_Host = node_Name n, hp_Score = 0\<rparr>]"
    using Cons.prems by (simp add: take_Suc_conv_app_nth)
  with Cons.IH [of "out[i := \<lparr>hp_Host = node_Name n, hp_Score = 0\<rparr>]" "i + 1"] Cons.prems show ?case by simp
qed simp

lemmas writer_simps = checkBody_def http_Error_def Write_def WriteHeader_def SetContentType_def reply_json_def
  Marshal_ptr_def rw0_def Let_def

section \<open>Properties\<close>

text \<open>The filter handler keeps exactly the nodes its predicate accepts, in order, and reports for each node name the last
  error; a node that is rejected without error is in neither result. A request without a node list panics, and so does
  one with nodes but no pod.\<close>

theorem Predicate_Handler_filters:
  "(\<exists>r failed. Predicate_Handler pred \<lparr>ea_Pod = Some p, ea_Nodes = Some items\<rparr> = Ret r \<and>
      fr_Nodes r = Some (filter (\<lambda>n. pr_Func pred p n = Inr True) items) \<and>
      fr_FailedNodes r = Some failed \<and> map_of failed = map_of (rev (node_errors (pr_Func pred) p items)) \<and>
      fr_Error r = '''') \<and>
   Predicate_Handler pred \<lparr>ea_Pod = po, ea_Nodes = None\<rparr> = Panic NilDereference \<and>
   Predicate_Handler pred \<lparr>ea_Pod = None, ea_Nodes = Some items\<rparr> =
     (if items = [] then Ret \<lparr>fr_Nodes = Some [], fr_FailedNodes = Some [], fr_Error = ''''\<rparr> else Panic NilDereference)"
proof -
  obtain failed where run: "filter_nodes (pr_Func pred) (Some p) items [] [] =
      Ret (filter (\<lambda>n. pr_Func pred p n = Inr True) items, failed)"
    and f: "map_of failed = map_of (rev (node_errors (pr_Func pred) p items))"
    using filter_nodes_spec [of "pr_Func pred" p items "[]" "[]"] by auto
  then show ?thesis by (cases items) (auto simp: Predicate_Handler_def)
qed

text \<open>The handlers the program registers: every node passes the filter, every node is scored zero under its own name and
  in order, every bind is refused with an explanation, preemption echoes its victims; the routes are
  the version, the filter, the scores and the bind, while the preemption handler is never registered.\<close>

theorem registered_handlers:
  "Predicate_Handler TruePredicate \<lparr>ea_Pod = Some p, ea_Nodes = Some items\<rparr> =
     Ret \<lparr>fr_Nodes = Some items, fr_FailedNodes = Some [], fr_Error = ''''\<rparr> \<and>
   Prioritize_Handler ZeroPriority \<lparr>ea_Pod = Some p, ea_Nodes = Some items\<rparr> =
     Ret (Inr (map (\<lambda>n. \<lparr>hp_Host = node_Name n, hp_Score = 0\<rparr>) items)) \<and>
   (\<exists>msg. msg \<noteq> '''' \<and> Bind_Handler NoBind bargs = Ret \<lparr>br_Error = msg\<rparr>) \<and>
   Preemption_Handler EchoPreemption \<lparr>xa_Pod = Some p, xa_NodeNameToVictims = vs, xa_NodeNameToMetaVictims = ms\<rparr> = Ret ms \<and>
   map (\<lambda>(m, path, h). (m, path)) main_router =
     [(''GET'', ''/version''), (''POST'', ''/scheduler/predicates/always_true''),
      (''POST'', ''/scheduler/priorities/zero_score''), (''POST'', ''/scheduler/bind'')] \<and>
   \<not> registered main_router ''POST'' preemptionPath \<and> AddBind main_router = main_router"
proof (intro conjI)
  have "filter_nodes (\<lambda>pod node. Inr True) (Some p) items can cannot = Ret (can @ items, cannot)" for can cannot
    by (induction items arbitrary: can) auto
  then show "Predicate_Handler TruePredicate \<lparr>ea_Pod = Some p, ea_Nodes = Some items\<rparr> =
      Ret \<lparr>fr_Nodes = Some items, fr_FailedNodes = Some [], fr_Error = ''''\<rparr>"
    by (simp add: Predicate_Handler_def TruePredicate_def)
  show "Prioritize_Handler ZeroPriority \<lparr>ea_Pod = Some p, ea_Nodes = Some items\<rparr> =
      Ret (Inr (map (\<lambda>n. \<lparr>hp_Host = node_Name n, hp_Score = 0\<rparr>) items))"
    by (simp add: Prioritize_Handler_def ZeroPriority_def zero_scores_eq)
  show "\<exists>msg. msg \<noteq> '''' \<and> Bind_Handler NoBind bargs = Ret \<lparr>br_Error = msg\<rparr>"
    by (simp add: Bind_Handler_def NoBind_def)
  show "Preemption_Handler EchoPreemption \<lparr>xa_Pod = Some p, xa_NodeNameToVictims = vs, xa_NodeNameToMetaVictims = ms\<rparr> = Ret ms"
    by (simp add: Preemption_Handler_def EchoPreemption_def)
qed (simp_all add: main_router_def AddVersion_def AddPredicate_def AddPrioritize_def AddBind_def TruePredicate_def
    ZeroPriority_def registered_def versionPath_def predicatesPrefix_def prioritiesPrefix_def bindPath_def
    preemptionPath_def apiPrefix_def)

text \<open>How the routes answer bad input: a filter request that cannot be decoded is answered 200 with the error in the
  result, a preemption request that cannot be decoded is answered 400 with the body \<open>null\<close> (its later status 200 comes too late),
  a scoring request that cannot be decoded panics; a missing body is answered 400 and then panics on every route;
  and a bind function that succeeds makes its route panic before anything is answered.\<close>

theorem extender_bad_requests:
  "(dec b = Inl err \<and> enc \<lparr>fr_Nodes = None, fr_FailedNodes = None, fr_Error = err\<rparr> = Inr out \<longrightarrow>
      PredicateRoute dec enc pred (Some b) rw0 =
        (\<lparr>rw_status = Some 200, rw_ctype = ''application/json'', rw_body = out\<rparr>, None)) \<and>
   (dec3 b = Inl err \<longrightarrow>
      PreemptionRoute dec3 enc3 pre (Some b) rw0 =
        (\<lparr>rw_status = Some 400, rw_ctype = ''application/json'', rw_body = ''null''\<rparr>, None) \<and>
      PrioritizeRoute (\<lambda>x. case dec3 x of Inl e \<Rightarrow> Inl e | Inr a \<Rightarrow> dec4 a) enc4 prio (Some b) rw0 = (rw0, Some (PanicErr err))) \<and>
   (case PredicateRoute dec enc pred None rw0 of (w, p) \<Rightarrow> rw_status w = Some 400 \<and> p = Some NilDereference) \<and>
   (case PreemptionRoute dec3 enc3 pre None rw0 of (w, p) \<Rightarrow> rw_status w = Some 400 \<and> p = Some NilDereference) \<and>
   (case PrioritizeRoute dec enc4 prio' None rw0 of (w, p) \<Rightarrow> rw_status w = Some 400 \<and> p = Some NilDereference) \<and>
   (case BindRoute dec2 enc2 bnd None rw0 of (w, p) \<Rightarrow> rw_status w = Some 400 \<and> p = Some NilDereference) \<and>
   (dec2 b = Inr args \<and> bnd (ba_PodName args) (ba_PodNamespace args) (ba_PodUID args) (ba_Node args) = None \<longrightarrow>
      BindRoute dec2 enc2 bnd (Some b) rw0 = (rw0, Some NilDereference))"
  by (auto simp: PredicateRoute_def PreemptionRoute_def PrioritizeRoute_def BindRoute_def Bind_Handler_def writer_simps)

theorem extender_bad_requests_witness:
  "PreemptionRoute (\<lambda>_. Inl ''bad json'' :: string + (unit, unit, unit) ExtenderPreemptionArgs) (\<lambda>_. Inr '''') EchoPreemption
     (Some ''x'') rw0 = (\<lparr>rw_status = Some 400, rw_ctype = ''application/json'', rw_body = ''null''\<rparr>, None) \<and>
   BindRoute (\<lambda>_. Inr \<lparr>ba_PodName = ''p'', ba_PodNamespace = ''d'', ba_PodUID = ''u'', ba_Node = ''n''\<rparr>) (\<lambda>_. Inr '''')
     (\<lambda>_ _ _ _. None) (Some ''x'') rw0 = (rw0, Some NilDereference)"
proof -
  note bad = extender_bad_requests [of "\<lambda>_. Inl ''bad json'' :: string + (unit, Node) ExtenderArgs" "''x''" "''bad json''"
      "\<lambda>_. Inr ''e''" "''e''" TruePredicate
      "\<lambda>_. Inl ''bad json'' :: string + (unit, unit, unit) ExtenderPreemptionArgs" "\<lambda>_. Inr ''''" EchoPreemption
      "\<lambda>_. Inl ''no'' :: string + (unit, Node) ExtenderArgs" "\<lambda>_. Inr ''''" ZeroPriority ZeroPriority
      "\<lambda>_. Inr \<lparr>ba_PodName = ''p'', ba_PodNamespace = ''d'', ba_PodUID = ''u'', ba_Node = ''n''\<rparr>" "\<lambda>_. Inr ''''"
      "\<lambda>_ _ _ _. None" "\<lparr>ba_PodName = ''p'', ba_PodNamespace = ''d'', ba_PodUID = ''u'', ba_Node = ''n''\<rparr>"]
  then show ?thesis by simp
qed

end
