(* ===== verification/Extender_Service.thy ===== *)
theory Extender_Service
  imports Scheduler_Extender
begin

text \<open>
  The scheduler extender as a service: \<open>main\<close> of \<open>src/k8s-scheduler-extender-example/main.go\<close>, the logging wrapper
  \<open>DebugLogging\<close> of \<open>routes.go\<close>, and what a scheduler gets back from a request over the routes that \<open>main\<close> registers.

  The router (\<open>httprouter\<close>) is a parameter with its documented behaviour on paths without parameters (\<open>lookup_law\<close>); so are the
  JSON codecs of the scheduler's types. The logging library is a list of the calls made to it.
\<close>

section \<open>Definitions\<close>

subsection \<open>The main function\<close>

datatype ext_call =
    SetDefaultLevel Level
  | SetMinLevel Level
  | SetFormatter
  | RegisterLogger
  | LogPrint string
  | ListenAndServe string router
  | FatalExit go_error

text \<open>The warning that \<open>StringToLevel\<close> prints for a level it does not know.\<close>

definition level_warning :: "string \<Rightarrow> ext_call list" where
  "level_warning levelStr =
     (let level = ToUpper levelStr in
      if level \<in> {''TRACE'', ''DEBUG'', ''INFO'', ''WARNING'', ''ERROR'', ''ALERT''} then []
      else [LogPrint (''warning: LOG_LEVEL='' @ [CHR 0x22] @ level @ [CHR 0x22] @
        '' is empty or invalid, fallling back to '' @ [CHR 0x22] @ ''INFO'' @ [CHR 0x22, CHR ''.'', CHR 0x0A])])"

definition ext_main :: "(string \<Rightarrow> string) \<Rightarrow> (Level \<Rightarrow> string) \<Rightarrow> (string \<Rightarrow> router \<Rightarrow> go_error option) \<Rightarrow> ext_call list" where
  "ext_main Getenv level_String listen =
     (let logLevel = Getenv ''LOG_LEVEL''; level = StringToLevel logLevel in
      [SetDefaultLevel LInfo, SetMinLevel LInfo, SetFormatter, RegisterLogger] @ level_warning logLevel @
      [LogPrint (''Log level was set to '' @ ToUpper (level_String level)), SetMinLevel level,
       LogPrint ''info: server starting on the port :80'', ListenAndServe '':80'' main_router] @
      (case listen '':80'' main_router of Some err \<Rightarrow> [FatalExit err] | None \<Rightarrow> []))"

subsection \<open>Serving a request\<close>

type_synonym route = "string option \<Rightarrow> response_writer \<Rightarrow> response_writer \<times> panic option"

datatype debug_line = RequestBody string | Response string response_writer

text \<open>A handler that panics leaves before the second line.\<close>

definition DebugLogging :: "route \<Rightarrow> string \<Rightarrow> string option \<Rightarrow> response_writer \<Rightarrow> debug_line list \<times> response_writer \<times> panic option" where
  "DebugLogging h path body w =
     (case h body w of
        (w', None) \<Rightarrow> ([RequestBody path, Response path w'], w', None)
      | (w', Some p) \<Rightarrow> ([RequestBody path], w', Some p))"

record ('p, 'x, 'v, 'm) ext_codec =
  ec_version :: string
  ec_args :: "string \<Rightarrow> string + ('p, 'x Node_scheme) ExtenderArgs"
  ec_filter :: "'x Node_scheme ExtenderFilterResult \<Rightarrow> string + string"
  ec_scores :: "HostPriority list \<Rightarrow> string + string"
  ec_binding :: "string \<Rightarrow> string + ExtenderBindingArgs"
  ec_bound :: "ExtenderBindingResult \<Rightarrow> string + string"
  ec_preempt :: "string \<Rightarrow> string + ('p, 'v, 'm) ExtenderPreemptionArgs"
  ec_victims :: "(string \<times> 'm) list \<Rightarrow> string + string"

text \<open>The handler behind a registered route. The program registers one predicate and one priority function.\<close>

fun route_of :: "('p, 'x, 'v, 'm) ext_codec \<Rightarrow> handle \<Rightarrow> route" where
  "route_of c HVersion = (\<lambda>body w. (VersionRoute (ec_version c) w, None))"
| "route_of c (HPredicate name) = PredicateRoute (ec_args c) (ec_filter c) TruePredicate"
| "route_of c (HPrioritize name) = PrioritizeRoute (ec_args c) (ec_scores c) ZeroPriority"
| "route_of c HBind = BindRoute (ec_binding c) (ec_bound c) NoBind"
| "route_of c HPreemption = PreemptionRoute (ec_preempt c) (ec_victims c) EchoPreemption"

text \<open>The answer to a request, or nothing when no route matches; a panic closes the connection.\<close>

definition serve_route :: "(router \<Rightarrow> string \<Rightarrow> string \<Rightarrow> handle option) \<Rightarrow> ('p, 'x, 'v, 'm) ext_codec \<Rightarrow> string \<Rightarrow> string \<Rightarrow> string \<Rightarrow>
    (debug_line list \<times> response_writer \<times> panic option) option" where
  "serve_route Lookup c meth path body =
     map_option (\<lambda>h. DebugLogging (route_of c h) path (Some body) rw0) (Lookup main_router meth path)"

definition lookup_law :: "(router \<Rightarrow> string \<Rightarrow> string \<Rightarrow> handle option) \<Rightarrow> bool" where
  "lookup_law Lookup \<longleftrightarrow> (\<forall>r m p. distinct (map (\<lambda>(m, p, h). (m, p)) r) \<longrightarrow>
     Lookup r m p = map_of (map (\<lambda>(m, p, h). ((m, p), h)) r) (m, p))"

section \<open>Lemmas\<close>

lemmas path_defs = versionPath_def apiPrefix_def bindPath_def preemptionPath_def predicatesPrefix_def prioritiesPrefix_def

lemma main_router_eq:
  "main_router = [(''GET'', ''/version'', HVersion), (''POST'', ''/scheduler/predicates/always_true'', HPredicate ''always_true''),
     (''POST'', ''/scheduler/priorities/zero_score'', HPrioritize ''zero_score''), (''POST'', ''/scheduler/bind'', HBind)]"
  by (simp add: main_router_def AddVersion_def AddPredicate_def AddPrioritize_def AddBind_def TruePredicate_def ZeroPriority_def
      registered_def path_defs)

lemma lookup_main:
  "lookup_law Lookup \<Longrightarrow> Lookup main_router m p =
     (if (m, p) = (''GET'', ''/version'') then Some HVersion
      else if (m, p) = (''POST'', ''/scheduler/predicates/always_true'') then Some (HPredicate ''always_true'')
      else if (m, p) = (''POST'', ''/scheduler/priorities/zero_score'') then Some (HPrioritize ''zero_score'')
      else if (m, p) = (''POST'', ''/scheduler/bind'') then Some HBind else None)"
  unfolding main_router_eq by (simp add: lookup_law_def)

lemma filter_all: "Predicate_Handler TruePredicate \<lparr>ea_Pod = Some p, ea_Nodes = Some items\<rparr> =
    Ret \<lparr>fr_Nodes = Some items, fr_FailedNodes = Some [], fr_Error = ''''\<rparr>"
proof -
  have "filter_nodes (\<lambda>pod node. Inr True) (Some p) items can cannot = Ret (can @ items, cannot)" for can cannot
    by (induction items arbitrary: can) auto
  then show ?thesis by (simp add: Predicate_Handler_def TruePredicate_def)
qed

lemma score_all: "Prioritize_Handler ZeroPriority \<lparr>ea_Pod = Some p, ea_Nodes = Some items\<rparr> =
    Ret (Inr (map (\<lambda>n. \<lparr>hp_Host = node_Name n, hp_Score = 0\<rparr>) items))"
  by (simp add: Prioritize_Handler_def ZeroPriority_def zero_scores_eq)

text \<open>A route that answers is logged twice and a route that panics once.\<close>

abbreviation answer :: "string \<Rightarrow> response_writer \<Rightarrow> debug_line list \<times> response_writer \<times> panic option" where
  "answer path w \<equiv> ([RequestBody path, Response path w], w, None)"

text \<open>The result that tells the scheduler that its pod was not bound, and why; a result with an empty error would be a success.\<close>

abbreviation bind_refused :: ExtenderBindingResult where
  "bind_refused \<equiv> \<lparr>br_Error = ''This extender doesn't support Bind.  Please make 'BindVerb' be empty in your ExtenderConfig.''\<rparr>"

abbreviation json_reply :: "string \<Rightarrow> response_writer" where
  "json_reply out \<equiv> \<lparr>rw_status = Some 200, rw_ctype = ''application/json'', rw_body = out\<rparr>"

section \<open>Properties\<close>


definition list_router :: "router \<Rightarrow> string \<Rightarrow> string \<Rightarrow> handle option" where
  "list_router r m p = map_of (map (\<lambda>(m, p, h). ((m, p), h)) r) (m, p)"

definition demo_codec :: "(unit, unit, unit, unit) ext_codec" where
  "demo_codec = \<lparr>ec_version = ''v1'', ec_args = (\<lambda>b. Inr \<lparr>ea_Pod = Some (), ea_Nodes = Some [\<lparr>node_Name = b\<rparr>]\<rparr>),
     ec_filter = (\<lambda>r. Inr (case fr_Nodes r of None \<Rightarrow> '''' | Some ns \<Rightarrow> concat (map node_Name ns))), ec_scores = (\<lambda>_. Inr ''scores''),
     ec_binding = (\<lambda>_. Inr \<lparr>ba_PodName = ''p'', ba_PodNamespace = ''d'', ba_PodUID = ''u'', ba_Node = ''n1''\<rparr>), ec_bound = (\<lambda>r. Inr (br_Error r)), ec_preempt = (\<lambda>_. Inl ''no''), ec_victims = (\<lambda>_. Inr '''')\<rparr>"


end
