(* ===== verification/Deep_Copy.thy ===== *)
theory Deep_Copy
  imports Kube_Api
begin

text \<open>
  Slices, their backing arrays and deep copies. A slice is nil or the address of a backing array; arrays live in a
  heap, one family for conditions, one for list items and one for what metadata refers to (maps of labels and annotations,
  slices of owners and finalizers, pointers), so that two objects that share an array, a map or a pointer are visible as
  such. The generated \<open>DeepCopyInto\<close> functions of the API types are instances of the loops below.

  The metadata types and their \<open>DeepCopyInto\<close> belong to \<open>k8s.io/apimachinery\<close>: they are the parameter \<open>meta_lib\<close>, and
  \<open>meta_law\<close> says that they are deep copies, which is their documentation. \<open>simple_meta\<close> satisfies it.

  The locale \<open>deep_copier\<close> is the contract of such a function: the copy reads the same as the original, it
  owns only fresh arrays, and nothing that existed before has changed. From the contract follows once and for all that
  writes through the copy are invisible through the original and the other way round. The contract passes
  from an element to lists and to slices of elements.
\<close>

section \<open>Definitions\<close>

type_synonym slice = "nat option"

datatype meta_block =
    StringMap entries
  | Owners "OwnerReference list"
  | Strings "string list"
  | Instant int
  | Count int64

record ('c, 'o) heap =
  h_next :: nat
  h_meta :: "nat \<Rightarrow> meta_block"
  h_conds :: "nat \<Rightarrow> 'c list"
  h_items :: "nat \<Rightarrow> 'o list"

text \<open>\<open>make\<close> and filling in the new array.\<close>

definition new_conds :: "('c, 'o) heap \<Rightarrow> 'c list \<Rightarrow> slice \<times> ('c, 'o) heap" where
  "new_conds h cs = (Some (h_next h), h\<lparr>h_next := h_next h + 1, h_conds := (h_conds h)(h_next h := cs)\<rparr>)"

definition copy_conds :: "('c, 'o) heap \<Rightarrow> slice \<Rightarrow> slice \<times> ('c, 'o) heap" where
  "copy_conds h s = (case s of None \<Rightarrow> (None, h) | Some a \<Rightarrow> new_conds h (h_conds h a))"

fun copy_list :: "(('c, 'o) heap \<Rightarrow> 'v \<Rightarrow> 'v \<times> ('c, 'o) heap) \<Rightarrow> ('c, 'o) heap \<Rightarrow> 'v list \<Rightarrow> 'v list \<times> ('c, 'o) heap" where
  "copy_list copy h [] = ([], h)"
| "copy_list copy h (v # vs) =
     (case copy h v of (v', h1) \<Rightarrow> (case copy_list copy h1 vs of (vs', h2) \<Rightarrow> (v' # vs', h2)))"

text \<open>The address is taken by \<open>make\<close> before the elements are copied.\<close>

definition copy_items :: "(('c, 'o) heap \<Rightarrow> 'o \<Rightarrow> 'o \<times> ('c, 'o) heap) \<Rightarrow> ('c, 'o) heap \<Rightarrow> slice \<Rightarrow> slice \<times> ('c, 'o) heap" where
  "copy_items copy h s =
     (case s of
        None \<Rightarrow> (None, h)
      | Some a \<Rightarrow>
          (case copy_list copy (h\<lparr>h_next := h_next h + 1\<rparr>) (h_items h a) of
             (vs, h1) \<Rightarrow> (Some (h_next h), h1\<lparr>h_items := (h_items h1)(h_next h := vs)\<rparr>)))"

text \<open>\<open>DeepCopy\<close> and \<open>DeepCopyObject\<close> through a pointer, which may be nil.\<close>

definition copy_ptr :: "(('c, 'o) heap \<Rightarrow> 'v \<Rightarrow> 'v \<times> ('c, 'o) heap) \<Rightarrow> ('c, 'o) heap \<Rightarrow> 'v option \<Rightarrow> 'v option \<times> ('c, 'o) heap" where
  "copy_ptr copy h p = (case p of None \<Rightarrow> (None, h) | Some v \<Rightarrow> (case copy h v of (v', h') \<Rightarrow> (Some v', h')))"

subsection \<open>Metadata\<close>

text \<open>Addresses stand for slices, maps and pointers; what is behind them is a block of the heap.\<close>

record hObjectMeta =
  hom_Name :: string
  hom_GenerateName :: string
  hom_Namespace :: string
  hom_UID :: string
  hom_Generation :: int64
  hom_DeletionTimestamp :: slice
  hom_Labels :: slice
  hom_Annotations :: slice
  hom_OwnerReferences :: slice
  hom_Finalizers :: slice

record hListMeta =
  hlm_ResourceVersion :: string
  hlm_Continue :: string
  hlm_RemainingItemCount :: slice

record ('c, 'o) meta_lib =
  ObjectMeta_DeepCopyInto :: "('c, 'o) heap \<Rightarrow> hObjectMeta \<Rightarrow> hObjectMeta \<times> ('c, 'o) heap"
  ListMeta_DeepCopyInto :: "('c, 'o) heap \<Rightarrow> hListMeta \<Rightarrow> hListMeta \<times> ('c, 'o) heap"

subsection \<open>What an object reads and owns\<close>

definition agree_on :: "nat set \<Rightarrow> ('c, 'o) heap \<Rightarrow> ('c, 'o) heap \<Rightarrow> bool" where
  "agree_on A h h' \<longleftrightarrow> (\<forall>a\<in>A. h_meta h' a = h_meta h a \<and> h_conds h' a = h_conds h a \<and> h_items h' a = h_items h a)"

definition grows :: "('c, 'o) heap \<Rightarrow> ('c, 'o) heap \<Rightarrow> bool" where
  "grows h h' \<longleftrightarrow> h_next h \<le> h_next h' \<and> agree_on {..<h_next h} h h'"

definition view_conds :: "('c, 'o) heap \<Rightarrow> slice \<Rightarrow> 'c list option" where
  "view_conds h s = map_option (h_conds h) s"

definition refs_slice :: "slice \<Rightarrow> nat set" where
  "refs_slice s = (case s of None \<Rightarrow> {} | Some a \<Rightarrow> {a})"

definition view_block :: "('c, 'o) heap \<Rightarrow> slice \<Rightarrow> meta_block option" where
  "view_block h s = map_option (h_meta h) s"

definition meta_refs :: "hObjectMeta \<Rightarrow> slice \<times> slice \<times> slice \<times> slice \<times> slice" where
  "meta_refs m = (hom_DeletionTimestamp m, hom_Labels m, hom_Annotations m, hom_OwnerReferences m, hom_Finalizers m)"

fun set_meta_refs :: "slice \<times> slice \<times> slice \<times> slice \<times> slice \<Rightarrow> hObjectMeta \<Rightarrow> hObjectMeta" where
  "set_meta_refs (t, l, a, os, fs) m = m\<lparr>hom_DeletionTimestamp := t, hom_Labels := l, hom_Annotations := a,
     hom_OwnerReferences := os, hom_Finalizers := fs\<rparr>"

definition view_ObjectMeta :: "('c, 'o) heap \<Rightarrow> hObjectMeta \<Rightarrow>
    hObjectMeta \<times> meta_block option \<times> meta_block option \<times> meta_block option \<times> meta_block option \<times> meta_block option" where
  "view_ObjectMeta h m = (set_meta_refs (None, None, None, None, None) m,
     (case meta_refs m of (t, l, a, os, fs) \<Rightarrow> (view_block h t, view_block h l, view_block h a, view_block h os, view_block h fs)))"

definition refs_ObjectMeta :: "('c, 'o) heap \<Rightarrow> hObjectMeta \<Rightarrow> nat set" where
  "refs_ObjectMeta h m = (case meta_refs m of
     (t, l, a, os, fs) \<Rightarrow> refs_slice t \<union> (refs_slice l \<union> (refs_slice a \<union> (refs_slice os \<union> refs_slice fs))))"

definition view_ListMeta :: "('c, 'o) heap \<Rightarrow> hListMeta \<Rightarrow> hListMeta \<times> meta_block option" where
  "view_ListMeta h m = (m\<lparr>hlm_RemainingItemCount := None\<rparr>, view_block h (hlm_RemainingItemCount m))"

definition refs_ListMeta :: "('c, 'o) heap \<Rightarrow> hListMeta \<Rightarrow> nat set" where
  "refs_ListMeta h m = refs_slice (hlm_RemainingItemCount m)"

definition refs_list :: "(('c, 'o) heap \<Rightarrow> 'v \<Rightarrow> nat set) \<Rightarrow> ('c, 'o) heap \<Rightarrow> 'v list \<Rightarrow> nat set" where
  "refs_list refs h vs = \<Union> (refs h ` set vs)"

definition view_items :: "(('c, 'o) heap \<Rightarrow> 'o \<Rightarrow> 'p) \<Rightarrow> ('c, 'o) heap \<Rightarrow> slice \<Rightarrow> 'p list option" where
  "view_items view h s = map_option (\<lambda>a. map (view h) (h_items h a)) s"

definition refs_items :: "(('c, 'o) heap \<Rightarrow> 'o \<Rightarrow> nat set) \<Rightarrow> ('c, 'o) heap \<Rightarrow> slice \<Rightarrow> nat set" where
  "refs_items refs h s = (case s of None \<Rightarrow> {} | Some a \<Rightarrow> insert a (refs_list refs h (h_items h a)))"

section \<open>The contract\<close>

locale deep_copier =
  fixes copy :: "('c, 'o) heap \<Rightarrow> 'v \<Rightarrow> 'v \<times> ('c, 'o) heap"
    and view :: "('c, 'o) heap \<Rightarrow> 'v \<Rightarrow> 'p"
    and refs :: "('c, 'o) heap \<Rightarrow> 'v \<Rightarrow> nat set"
  assumes copy_ok: "refs h v \<subseteq> {..<h_next h} \<Longrightarrow> copy h v = (v', h') \<Longrightarrow>
      grows h h' \<and> view h' v' = view h v \<and> refs h' v' \<subseteq> {h_next h..<h_next h'}"
    and view_local: "agree_on (refs h v) h h' \<Longrightarrow> view h' v = view h v \<and> refs h' v = refs h v"
begin

lemma grows_view:
  assumes "refs h v \<subseteq> {..<h_next h}" "grows h h'"
  shows "view h' v = view h v \<and> refs h' v = refs h v \<and> refs h' v \<subseteq> {..<h_next h'}"
proof -
  have "agree_on (refs h v) h h'" using assms by (auto simp: grows_def agree_on_def)
  from view_local [OF this] assms show ?thesis by (auto simp: grows_def)
qed

text \<open>Original and copy share nothing, and neither sees writes to the arrays of the other.\<close>

lemma independent:
  assumes "refs h v \<subseteq> {..<h_next h}" "copy h v = (v', h')"
  shows "refs h' v \<inter> refs h' v' = {} \<and> view h' v = view h v \<and> view h' v' = view h v \<and>
    (\<forall>h''. agree_on (- refs h' v') h' h'' \<longrightarrow> view h'' v = view h v) \<and>
    (\<forall>h''. agree_on (- refs h' v) h' h'' \<longrightarrow> view h'' v' = view h v)"
proof -
  have c: "grows h h'" "view h' v' = view h v" "refs h' v' \<subseteq> {h_next h..<h_next h'}"
    using copy_ok [OF assms] by auto
  have o: "view h' v = view h v" "refs h' v = refs h v" using grows_view [OF assms(1) c(1)] by auto
  have dis: "refs h' v \<inter> refs h' v' = {}" using c(3) o(2) assms(1) by fastforce
  have "view h'' v = view h v" if "agree_on (- refs h' v') h' h''" for h''
  proof -
    have "agree_on (refs h' v) h' h''" using that dis by (auto simp: agree_on_def)
    from view_local [OF this] o show ?thesis by simp
  qed
  moreover have "view h'' v' = view h v" if "agree_on (- refs h' v) h' h''" for h''
  proof -
    have "agree_on (refs h' v') h' h''" using that dis by (auto simp: agree_on_def)
    from view_local [OF this] c show ?thesis by simp
  qed
  ultimately show ?thesis using dis o c by blast
qed

lemma copy_list_ok:
  assumes "refs_list refs h vs \<subseteq> {..<h_next h}" "copy_list copy h vs = (vs', h')"
  shows "grows h h' \<and> map (view h') vs' = map (view h) vs \<and> refs_list refs h' vs' \<subseteq> {h_next h..<h_next h'}"
  using assms
proof (induction vs arbitrary: h vs' h')
  case Nil
  then show ?case by (auto simp: grows_def agree_on_def refs_list_def)
next
  case (Cons v vs)
  obtain w h1 where w: "copy h v = (w, h1)" by fastforce
  obtain ws where ws: "copy_list copy h1 vs = (ws, h')" "vs' = w # ws"
    using Cons.prems(2) w by (auto split: prod.splits)
  have v: "refs h v \<subseteq> {..<h_next h}" and tl: "refs_list refs h vs \<subseteq> {..<h_next h}"
    using Cons.prems(1) by (auto simp: refs_list_def)
  have c: "grows h h1" "view h1 w = view h v" "refs h1 w \<subseteq> {h_next h..<h_next h1}"
    using copy_ok [OF v w] by auto
  have old: "view h1 x = view h x \<and> refs h1 x = refs h x" if "x \<in> set vs" for x
    using grows_view [OF _ c(1), of x] tl that by (auto simp: refs_list_def)
  then have "refs_list refs h1 vs \<subseteq> {..<h_next h1}" using tl c(1) by (force simp: refs_list_def grows_def)
  from Cons.IH [OF this ws(1)]
  have r: "grows h1 h'" "map (view h') ws = map (view h1) vs" "refs_list refs h' ws \<subseteq> {h_next h1..<h_next h'}" by auto
  have "refs h1 w \<subseteq> {..<h_next h1}" using c(3) by auto
  from grows_view [OF this r(1)] have w': "view h' w = view h v" "refs h' w = refs h1 w" using c(2) by auto
  have "grows h h'" using c(1) r(1) by (auto simp: grows_def agree_on_def)
  moreover have "map (view h') vs' = map (view h) (v # vs)" using ws(2) w' r(2) old by simp
  moreover have "refs_list refs h' vs' \<subseteq> {h_next h..<h_next h'}"
    using ws(2) w'(2) c r by (auto simp: refs_list_def grows_def)
  ultimately show ?case by blast
qed

lemma view_list_local:
  assumes "agree_on (refs_list refs h vs) h h'"
  shows "map (view h') vs = map (view h) vs \<and> refs_list refs h' vs = refs_list refs h vs"
proof -
  have "view h' x = view h x \<and> refs h' x = refs h x" if "x \<in> set vs" for x
    using assms that by (intro view_local) (auto simp: agree_on_def refs_list_def)
  then show ?thesis by (simp add: refs_list_def)
qed

end

context deep_copier
begin

text \<open>A copier of pointers.\<close>

lemma ptr_copier: "deep_copier (copy_ptr copy) (\<lambda>h p. map_option (view h) p) (\<lambda>h p. case p of None \<Rightarrow> {} | Some v \<Rightarrow> refs h v)"
proof
  fix h h' p p'
  assume "(case p of None \<Rightarrow> {} | Some v \<Rightarrow> refs h v) \<subseteq> {..<h_next h}" "copy_ptr copy h p = (p', h')"
  then show "grows h h' \<and> map_option (view h') p' = map_option (view h) p \<and>
      (case p' of None \<Rightarrow> {} | Some v \<Rightarrow> refs h' v) \<subseteq> {h_next h..<h_next h'}"
    using copy_ok [of h "the p" "the p'" h']
    by (cases p) (auto simp: copy_ptr_def split: prod.splits, auto simp: grows_def agree_on_def)
next
  fix h h' :: "('c, 'o) heap" and p
  assume "agree_on (case p of None \<Rightarrow> {} | Some v \<Rightarrow> refs h v) h h'"
  then show "map_option (view h') p = map_option (view h) p \<and>
      (case p of None \<Rightarrow> {} | Some v \<Rightarrow> refs h' v) = (case p of None \<Rightarrow> {} | Some v \<Rightarrow> refs h v)"
    using view_local by (cases p) auto
qed

end

section \<open>The library of metadata\<close>

definition meta_law :: "('c, 'o) meta_lib \<Rightarrow> bool" where
  "meta_law M \<longleftrightarrow> deep_copier (ObjectMeta_DeepCopyInto M) view_ObjectMeta refs_ObjectMeta \<and>
     deep_copier (ListMeta_DeepCopyInto M) view_ListMeta refs_ListMeta"

text \<open>One copy after another.\<close>

fun copy_pair :: "(('c, 'o) heap \<Rightarrow> 'a \<Rightarrow> 'a \<times> ('c, 'o) heap) \<Rightarrow> (('c, 'o) heap \<Rightarrow> 'b \<Rightarrow> 'b \<times> ('c, 'o) heap) \<Rightarrow>
    ('c, 'o) heap \<Rightarrow> 'a \<times> 'b \<Rightarrow> ('a \<times> 'b) \<times> ('c, 'o) heap" where
  "copy_pair copy1 copy2 h (a, b) = (case copy1 h a of (a', h1) \<Rightarrow> (case copy2 h1 b of (b', h2) \<Rightarrow> ((a', b'), h2)))"

text \<open>A library for the examples: it copies block after block.\<close>

definition copy_block :: "('c, 'o) heap \<Rightarrow> slice \<Rightarrow> slice \<times> ('c, 'o) heap" where
  "copy_block h s =
     (case s of
        None \<Rightarrow> (None, h)
      | Some a \<Rightarrow> (Some (h_next h), h\<lparr>h_next := h_next h + 1, h_meta := (h_meta h)(h_next h := h_meta h a)\<rparr>))"

definition simple_meta :: "('c, 'o) meta_lib" where
  "simple_meta = \<lparr>
     ObjectMeta_DeepCopyInto = (\<lambda>h m.
       case copy_pair copy_block (copy_pair copy_block (copy_pair copy_block (copy_pair copy_block copy_block))) h (meta_refs m) of
         (r, h') \<Rightarrow> (set_meta_refs r m, h')),
     ListMeta_DeepCopyInto = (\<lambda>h m. case copy_block h (hlm_RemainingItemCount m) of (s, h') \<Rightarrow> (m\<lparr>hlm_RemainingItemCount := s\<rparr>, h'))\<rparr>"

section \<open>Lemmas\<close>

text \<open>Copiers of two parts make a copier of the pair, and a copier of a part one of the whole.\<close>

lemma pair_copier:
  assumes c1: "deep_copier copy1 view1 refs1" and c2: "deep_copier copy2 view2 refs2"
  shows "deep_copier (copy_pair copy1 copy2) (\<lambda>h (a, b). (view1 h a, view2 h b)) (\<lambda>h (a, b). refs1 h a \<union> refs2 h b)"
proof
  fix h h' v v'
  assume r: "(case v of (a, b) \<Rightarrow> refs1 h a \<union> refs2 h b) \<subseteq> {..<h_next h}" and run: "copy_pair copy1 copy2 h v = (v', h')"
  obtain a b where v: "v = (a, b)" by fastforce
  obtain a' h1 where a: "copy1 h a = (a', h1)" by fastforce
  obtain b' where b: "copy2 h1 b = (b', h')" and v': "v' = (a', b')" using run v a by (auto split: prod.splits)
  have ra: "refs1 h a \<subseteq> {..<h_next h}" and rb: "refs2 h b \<subseteq> {..<h_next h}" using r v by auto
  have o1: "grows h h1" "view1 h1 a' = view1 h a" "refs1 h1 a' \<subseteq> {h_next h..<h_next h1}"
    using deep_copier.copy_ok [OF c1 ra a] by auto
  have k: "view2 h1 b = view2 h b" "refs2 h1 b \<subseteq> {..<h_next h1}" using deep_copier.grows_view [OF c2 rb o1(1)] by auto
  have o2: "grows h1 h'" "view2 h' b' = view2 h1 b" "refs2 h' b' \<subseteq> {h_next h1..<h_next h'}"
    using deep_copier.copy_ok [OF c2 k(2) b] by auto
  have "refs1 h1 a' \<subseteq> {..<h_next h1}" using o1(3) by auto
  from deep_copier.grows_view [OF c1 this o2(1)] have "view1 h' a' = view1 h a" "refs1 h' a' = refs1 h1 a'" using o1(2) by auto
  with o1 o2 k(1) show "grows h h' \<and> (case v' of (a, b) \<Rightarrow> (view1 h' a, view2 h' b)) = (case v of (a, b) \<Rightarrow> (view1 h a, view2 h b)) \<and>
      (case v' of (a, b) \<Rightarrow> refs1 h' a \<union> refs2 h' b) \<subseteq> {h_next h..<h_next h'}"
    unfolding v v' by (auto simp: grows_def agree_on_def)
next
  fix h h' v
  assume "agree_on (case v of (a, b) \<Rightarrow> refs1 h a \<union> refs2 h b) h h'"
  then have "agree_on (refs1 h (fst v)) h h'" "agree_on (refs2 h (snd v)) h h'" by (auto simp: agree_on_def split: prod.splits)
  from deep_copier.view_local [OF c1 this(1)] deep_copier.view_local [OF c2 this(2)]
  show "(case v of (a, b) \<Rightarrow> (view1 h' a, view2 h' b)) = (case v of (a, b) \<Rightarrow> (view1 h a, view2 h b)) \<and>
      (case v of (a, b) \<Rightarrow> refs1 h' a \<union> refs2 h' b) = (case v of (a, b) \<Rightarrow> refs1 h a \<union> refs2 h b)"
    by (cases v) simp
qed

lemma part_copier:
  assumes part: "deep_copier copyp viewp refsp"
    and run: "\<And>h v. copy h v = (case copyp h (gt v) of (p, h') \<Rightarrow> (st p v, h'))"
    and fields: "\<And>p v. gt (st p v) = p" "\<And>p v. flat (st p v) = flat v"
  shows "deep_copier copy (\<lambda>h v. (flat v, viewp h (gt v))) (\<lambda>h v. refsp h (gt v))"
proof
  fix h h' v v'
  assume "refsp h (gt v) \<subseteq> {..<h_next h}" and c: "copy h v = (v', h')"
  moreover obtain p where "copyp h (gt v) = (p, h')" "v' = st p v" using c run by (auto split: prod.splits)
  ultimately show "grows h h' \<and> (flat v', viewp h' (gt v')) = (flat v, viewp h (gt v)) \<and>
      refsp h' (gt v') \<subseteq> {h_next h..<h_next h'}"
    using deep_copier.copy_ok [OF part, of h "gt v" p h'] fields by simp
next
  fix h h' v
  assume "agree_on (refsp h (gt v)) h h'"
  from deep_copier.view_local [OF part this]
  show "(flat v, viewp h' (gt v)) = (flat v, viewp h (gt v)) \<and> refsp h' (gt v) = refsp h (gt v)" by simp
qed

interpretation blocks: deep_copier copy_block view_block "\<lambda>h s. refs_slice s"
proof
  fix h h' :: "('c, 'o) heap" and s s'
  assume "refs_slice s \<subseteq> {..<h_next h}" "copy_block h s = (s', h')"
  then show "grows h h' \<and> view_block h' s' = view_block h s \<and> refs_slice s' \<subseteq> {h_next h..<h_next h'}"
    by (cases s) (auto simp: copy_block_def grows_def agree_on_def view_block_def refs_slice_def)
next
  fix h h' :: "('c, 'o) heap" and s
  assume "agree_on (refs_slice s) h h'"
  then show "view_block h' s = view_block h s \<and> refs_slice s = refs_slice s"
    by (cases s) (auto simp: agree_on_def view_block_def refs_slice_def)
qed

lemma simple_meta_law: "meta_law simple_meta"
proof -
  note b = blocks.deep_copier_axioms
  note five = pair_copier [OF b pair_copier [OF b pair_copier [OF b pair_copier [OF b b]]]]
  have "deep_copier (ObjectMeta_DeepCopyInto simple_meta) view_ObjectMeta refs_ObjectMeta"
    using part_copier [OF five, where copy = "ObjectMeta_DeepCopyInto simple_meta" and gt = meta_refs and st = set_meta_refs
      and flat = "set_meta_refs (None, None, None, None, None)"]
    by (auto simp: view_ObjectMeta_def [abs_def] refs_ObjectMeta_def [abs_def] simple_meta_def meta_refs_def)
  moreover have "deep_copier (ListMeta_DeepCopyInto simple_meta) view_ListMeta refs_ListMeta"
    unfolding view_ListMeta_def [abs_def] refs_ListMeta_def [abs_def]
    by (rule part_copier [OF b, where st = "\<lambda>s m. m\<lparr>hlm_RemainingItemCount := s\<rparr>"]) (simp_all add: simple_meta_def)
  ultimately show ?thesis by (simp add: meta_law_def)
qed

text \<open>Conditions are flat values, so their slices have a copier by themselves.\<close>

interpretation conds: deep_copier copy_conds view_conds "\<lambda>h s. refs_slice s"
proof
  fix h h' :: "('c, 'o) heap" and s s'
  assume "refs_slice s \<subseteq> {..<h_next h}" "copy_conds h s = (s', h')"
  then show "grows h h' \<and> view_conds h' s' = view_conds h s \<and> refs_slice s' \<subseteq> {h_next h..<h_next h'}"
    by (cases s) (auto simp: copy_conds_def new_conds_def grows_def agree_on_def view_conds_def refs_slice_def)
next
  fix h h' :: "('c, 'o) heap" and s
  assume "agree_on (refs_slice s) h h'"
  then show "view_conds h' s = view_conds h s \<and> refs_slice s = refs_slice s"
    by (cases s) (auto simp: agree_on_def view_conds_def refs_slice_def)
qed

text \<open>A copier of list items gives a copier of slices of items.\<close>

locale item_copier = deep_copier copy view refs
  for copy :: "('c, 'o) heap \<Rightarrow> 'o \<Rightarrow> 'o \<times> ('c, 'o) heap"
    and view :: "('c, 'o) heap \<Rightarrow> 'o \<Rightarrow> 'p"
    and refs :: "('c, 'o) heap \<Rightarrow> 'o \<Rightarrow> nat set"
begin

lemma copy_items_ok:
  assumes "refs_items refs h s \<subseteq> {..<h_next h}" "copy_items copy h s = (s', h')"
  shows "grows h h' \<and> view_items view h' s' = view_items view h s \<and> refs_items refs h' s' \<subseteq> {h_next h..<h_next h'}"
proof (cases s)
  case None
  with assms show ?thesis by (auto simp: copy_items_def grows_def agree_on_def view_items_def refs_items_def)
next
  case (Some a)
  let ?h0 = "h\<lparr>h_next := h_next h + 1\<rparr>"
  obtain vs h1 where run: "copy_list copy ?h0 (h_items h a) = (vs, h1)" by fastforce
  then have s': "s' = Some (h_next h)" and h': "h' = h1\<lparr>h_items := (h_items h1)(h_next h := vs)\<rparr>"
    using assms(2) Some by (auto simp: copy_items_def)
  have list: "refs_list refs h (h_items h a) \<subseteq> {..<h_next h}" and a: "a < h_next h"
    using assms(1) Some by (auto simp: refs_items_def)
  have "agree_on (refs_list refs h (h_items h a)) h ?h0" by (simp add: agree_on_def)
  from view_list_local [OF this]
  have same: "map (view ?h0) (h_items h a) = map (view h) (h_items h a)"
    "refs_list refs ?h0 (h_items h a) \<subseteq> {..<h_next ?h0}" using list by auto
  from copy_list_ok [OF same(2) run]
  have c: "grows ?h0 h1" "map (view h1) vs = map (view h) (h_items h a)"
    "refs_list refs h1 vs \<subseteq> {h_next h + 1..<h_next h1}" using same(1) by auto
  have "agree_on (refs_list refs h1 vs) h1 h'" using c(3) by (auto simp: agree_on_def h')
  from view_list_local [OF this]
  have v: "map (view h') vs = map (view h) (h_items h a)" "refs_list refs h' vs = refs_list refs h1 vs"
    using c(2) by auto
  have "grows h h'" using c(1) by (auto simp: grows_def agree_on_def h')
  moreover have "view_items view h' s' = view_items view h s" using v Some s' by (simp add: view_items_def h')
  moreover have "refs_items refs h' s' \<subseteq> {h_next h..<h_next h'}"
    using v c(1,3) s' by (auto simp: refs_items_def h' grows_def)
  ultimately show ?thesis by blast
qed

lemma view_items_local:
  assumes "agree_on (refs_items refs h s) h h'"
  shows "view_items view h' s = view_items view h s \<and> refs_items refs h' s = refs_items refs h s"
proof (cases s)
  case (Some a)
  have "h_items h' a = h_items h a" and "agree_on (refs_list refs h (h_items h a)) h h'"
    using assms Some by (auto simp: agree_on_def refs_items_def)
  with view_list_local [of h "h_items h a" h'] Some show ?thesis by (simp add: view_items_def refs_items_def)
qed (simp add: view_items_def refs_items_def)

end

sublocale item_copier \<subseteq> items: deep_copier "copy_items copy" "view_items view" "refs_items refs"
  by unfold_locales (fact copy_items_ok view_items_local)+

lemma items_copier: "item_copier copy view refs \<Longrightarrow> deep_copier (copy_items copy) (view_items view) (refs_items refs)"
  by (intro deep_copier.intro) (auto dest: item_copier.copy_items_ok item_copier.view_items_local)

lemma flat_copier: "deep_copier (\<lambda>h v. (v, h)) (\<lambda>h v. v) (\<lambda>h v. {})"
  by unfold_locales (auto simp: grows_def agree_on_def)

end
