(* ===== verification/Resource_Definition.thy ===== *)
theory Resource_Definition
  imports Deep_Copy
begin

text \<open>
  The resource XXX of \<open>src/resourcedefinition/apps/\<close>: its types, once versioned (\<open>v1beta1/xxx_types.go\<close>) and once internal
  (\<open>xxx_types.go\<close>), defaulting (\<open>v1beta1/defaults.go\<close>, \<open>zz_generated.defaults.go\<close>), conversion between the two versions
  (\<open>zz_generated.conversion.go\<close>) and deep copies (\<open>zz_generated.deepcopy.go\<close>).

  The conversion of a list does not convert its items: it reads the array of versioned objects as an array of internal
  ones, by an unsafe pointer. That is meaningful because both structs have the same layout in memory (\<open>layout_XXX\<close>,
  \<open>layout_apps_XXX\<close>); \<open>as_apps\<close> is the object that is read. Conditions and metadata are library types.
  A slice is an address in the heap of \<open>Deep_Copy\<close>, so that what conversions share is visible.
\<close>

section \<open>Definitions\<close>

subsection \<open>Types\<close>

record TypeMeta =
  tm_Kind :: string
  tm_APIVersion :: string

text \<open>The list metadata of an object that is not in the heap.\<close>

record ListMeta =
  lm_ResourceVersion :: string
  lm_Continue :: string

type_synonym XXXPhase = string

definition XXXRunning :: XXXPhase where "XXXRunning = ''Running''"

definition XXXPending :: XXXPhase where "XXXPending = ''Pending''"

record XXXSpec =
  xs_DisplayName :: string
  xs_Description :: string

record XXXStatus =
  xt_Phase :: XXXPhase
  xt_ObservedGeneration :: int64
  xt_Conditions :: slice

text \<open>\<open>'m\<close> is the metadata: \<open>hObjectMeta\<close> for an object of the heap, \<open>ObjectMeta\<close> for its contents.\<close>

record 'm XXX =
  x_TypeMeta :: TypeMeta
  x_ObjectMeta :: 'm
  x_Spec :: XXXSpec
  x_Status :: XXXStatus

type_synonym hXXX = "hObjectMeta XXX"

record XXXList =
  xl_TypeMeta :: TypeMeta
  xl_ListMeta :: hListMeta
  xl_Items :: slice

text \<open>The internal version.\<close>

definition apps_XXXRunning :: XXXPhase where "apps_XXXRunning = ''Running''"

definition apps_XXXPending :: XXXPhase where "apps_XXXPending = ''Pending''"

record apps_XXXSpec =
  as_DisplayName :: string
  as_Description :: string

record apps_XXXStatus =
  at_Phase :: XXXPhase
  at_ObservedGeneration :: int64
  at_Conditions :: slice

record 'm apps_XXX =
  a_TypeMeta :: TypeMeta
  a_ObjectMeta :: 'm
  a_Spec :: apps_XXXSpec
  a_Status :: apps_XXXStatus

record apps_XXXList =
  al_TypeMeta :: TypeMeta
  al_ListMeta :: hListMeta
  al_Items :: slice

text \<open>The fields of an object in the order in which they lie in memory.\<close>

datatype 'm field = TypeMetaField TypeMeta | ObjectMetaField 'm | StringField string | Int64Field int64 | SliceField slice

definition layout_XXX :: "'m XXX \<Rightarrow> 'm field list" where
  "layout_XXX x = [TypeMetaField (x_TypeMeta x), ObjectMetaField (x_ObjectMeta x),
     StringField (xs_DisplayName (x_Spec x)), StringField (xs_Description (x_Spec x)),
     StringField (xt_Phase (x_Status x)), Int64Field (xt_ObservedGeneration (x_Status x)), SliceField (xt_Conditions (x_Status x))]"

definition layout_apps_XXX :: "'m apps_XXX \<Rightarrow> 'm field list" where
  "layout_apps_XXX y = [TypeMetaField (a_TypeMeta y), ObjectMetaField (a_ObjectMeta y),
     StringField (as_DisplayName (a_Spec y)), StringField (as_Description (a_Spec y)),
     StringField (at_Phase (a_Status y)), Int64Field (at_ObservedGeneration (a_Status y)), SliceField (at_Conditions (a_Status y))]"

definition as_apps :: "'m XXX \<Rightarrow> 'm apps_XXX" where
  "as_apps x = \<lparr>a_TypeMeta = x_TypeMeta x, a_ObjectMeta = x_ObjectMeta x,
     a_Spec = \<lparr>as_DisplayName = xs_DisplayName (x_Spec x), as_Description = xs_Description (x_Spec x)\<rparr>,
     a_Status = \<lparr>at_Phase = xt_Phase (x_Status x), at_ObservedGeneration = xt_ObservedGeneration (x_Status x),
       at_Conditions = xt_Conditions (x_Status x)\<rparr>\<rparr>"

text \<open>The items an internal list reads.\<close>

definition apps_items :: "('c, 'm XXX) heap \<Rightarrow> apps_XXXList \<Rightarrow> 'm apps_XXX list option" where
  "apps_items h l = map_option (\<lambda>a. map as_apps (h_items h a)) (al_Items l)"

subsection \<open>Defaults\<close>

definition SetDefaults_XXXSpec :: "XXXSpec \<Rightarrow> XXXSpec" where
  "SetDefaults_XXXSpec obj = (if xs_DisplayName obj = '''' then obj\<lparr>xs_DisplayName := ''xxxdefaulter''\<rparr> else obj)"

definition SetDefaults_XXX :: "hXXX \<Rightarrow> hXXX" where
  "SetDefaults_XXX obj =
     (let obj1 = (if hom_GenerateName (x_ObjectMeta obj) = ''''
            then obj\<lparr>x_ObjectMeta := (x_ObjectMeta obj)\<lparr>hom_GenerateName := ''hello-''\<rparr>\<rparr> else obj) in
      obj1\<lparr>x_Spec := SetDefaults_XXXSpec (x_Spec obj1)\<rparr>)"

definition SetObjectDefaults_XXX :: "hXXX \<Rightarrow> hXXX" where
  "SetObjectDefaults_XXX obj =
     (let obj1 = SetDefaults_XXX obj in obj1\<lparr>x_Spec := SetDefaults_XXXSpec (x_Spec obj1)\<rparr>)"

fun default_items :: "hXXX list \<Rightarrow> hXXX list" where
  "default_items [] = []"
| "default_items (x # xs) = SetObjectDefaults_XXX x # default_items xs"

text \<open>The items are defaulted in place.\<close>

definition SetObjectDefaults_XXXList :: "('c, hXXX) heap \<Rightarrow> XXXList \<Rightarrow> ('c, hXXX) heap" where
  "SetObjectDefaults_XXXList h l =
     (case xl_Items l of
        None \<Rightarrow> h
      | Some a \<Rightarrow> h\<lparr>h_items := (h_items h)(a := default_items (h_items h a))\<rparr>)"

subsection \<open>Conversion\<close>

text \<open>Each function writes fields of \<open>out\<close> and returns a nil error.\<close>

definition Convert_v1beta1_XXXSpec_To_apps_XXXSpec :: "XXXSpec \<Rightarrow> apps_XXXSpec \<Rightarrow> go_error option \<times> apps_XXXSpec" where
  "Convert_v1beta1_XXXSpec_To_apps_XXXSpec inp out =
     (None, out\<lparr>as_DisplayName := xs_DisplayName inp, as_Description := xs_Description inp\<rparr>)"

definition Convert_apps_XXXSpec_To_v1beta1_XXXSpec :: "apps_XXXSpec \<Rightarrow> XXXSpec \<Rightarrow> go_error option \<times> XXXSpec" where
  "Convert_apps_XXXSpec_To_v1beta1_XXXSpec inp out =
     (None, out\<lparr>xs_DisplayName := as_DisplayName inp, xs_Description := as_Description inp\<rparr>)"

definition Convert_v1beta1_XXXStatus_To_apps_XXXStatus :: "XXXStatus \<Rightarrow> apps_XXXStatus \<Rightarrow> go_error option \<times> apps_XXXStatus" where
  "Convert_v1beta1_XXXStatus_To_apps_XXXStatus inp out =
     (None, out\<lparr>at_Phase := xt_Phase inp, at_ObservedGeneration := xt_ObservedGeneration inp,
        at_Conditions := xt_Conditions inp\<rparr>)"

definition Convert_apps_XXXStatus_To_v1beta1_XXXStatus :: "apps_XXXStatus \<Rightarrow> XXXStatus \<Rightarrow> go_error option \<times> XXXStatus" where
  "Convert_apps_XXXStatus_To_v1beta1_XXXStatus inp out =
     (None, out\<lparr>xt_Phase := at_Phase inp, xt_ObservedGeneration := at_ObservedGeneration inp,
        xt_Conditions := at_Conditions inp\<rparr>)"

definition Convert_v1beta1_XXX_To_apps_XXX :: "'m XXX \<Rightarrow> 'm apps_XXX \<Rightarrow> go_error option \<times> 'm apps_XXX" where
  "Convert_v1beta1_XXX_To_apps_XXX inp out =
     (let out1 = out\<lparr>a_ObjectMeta := x_ObjectMeta inp\<rparr> in
      case Convert_v1beta1_XXXSpec_To_apps_XXXSpec (x_Spec inp) (a_Spec out1) of
        (Some err, sp) \<Rightarrow> (Some err, out1\<lparr>a_Spec := sp\<rparr>)
      | (None, sp) \<Rightarrow>
          (case Convert_v1beta1_XXXStatus_To_apps_XXXStatus (x_Status inp) (a_Status out1) of
             (err, st) \<Rightarrow> (err, out1\<lparr>a_Spec := sp, a_Status := st\<rparr>)))"

definition Convert_apps_XXX_To_v1beta1_XXX :: "'m apps_XXX \<Rightarrow> 'm XXX \<Rightarrow> go_error option \<times> 'm XXX" where
  "Convert_apps_XXX_To_v1beta1_XXX inp out =
     (let out1 = out\<lparr>x_ObjectMeta := a_ObjectMeta inp\<rparr> in
      case Convert_apps_XXXSpec_To_v1beta1_XXXSpec (a_Spec inp) (x_Spec out1) of
        (Some err, sp) \<Rightarrow> (Some err, out1\<lparr>x_Spec := sp\<rparr>)
      | (None, sp) \<Rightarrow>
          (case Convert_apps_XXXStatus_To_v1beta1_XXXStatus (a_Status inp) (x_Status out1) of
             (err, st) \<Rightarrow> (err, out1\<lparr>x_Spec := sp, x_Status := st\<rparr>)))"

definition Convert_v1beta1_XXXList_To_apps_XXXList :: "XXXList \<Rightarrow> apps_XXXList \<Rightarrow> go_error option \<times> apps_XXXList" where
  "Convert_v1beta1_XXXList_To_apps_XXXList inp out =
     (None, out\<lparr>al_ListMeta := xl_ListMeta inp, al_Items := xl_Items inp\<rparr>)"

definition Convert_apps_XXXList_To_v1beta1_XXXList :: "apps_XXXList \<Rightarrow> XXXList \<Rightarrow> go_error option \<times> XXXList" where
  "Convert_apps_XXXList_To_v1beta1_XXXList inp out =
     (None, out\<lparr>xl_ListMeta := al_ListMeta inp, xl_Items := al_Items inp\<rparr>)"

subsection \<open>Deep copies\<close>

definition XXXStatus_DeepCopyInto :: "('c, hXXX) heap \<Rightarrow> XXXStatus \<Rightarrow> XXXStatus \<times> ('c, hXXX) heap" where
  "XXXStatus_DeepCopyInto h inp =
     (case copy_conds h (xt_Conditions inp) of (s, h') \<Rightarrow> (inp\<lparr>xt_Conditions := s\<rparr>, h'))"

definition XXXSpec_DeepCopyInto :: "('c, hXXX) heap \<Rightarrow> XXXSpec \<Rightarrow> XXXSpec \<times> ('c, hXXX) heap" where
  "XXXSpec_DeepCopyInto h inp = (inp, h)"

definition XXX_DeepCopyInto :: "('c, hXXX) meta_lib \<Rightarrow> ('c, hXXX) heap \<Rightarrow> hXXX \<Rightarrow> hXXX \<times> ('c, hXXX) heap" where
  "XXX_DeepCopyInto M h inp =
     (case ObjectMeta_DeepCopyInto M h (x_ObjectMeta inp) of
        (m, h1) \<Rightarrow>
          (case XXXStatus_DeepCopyInto h1 (x_Status inp) of
             (st, h2) \<Rightarrow> (inp\<lparr>x_ObjectMeta := m, x_Spec := x_Spec inp, x_Status := st\<rparr>, h2)))"

definition XXXList_DeepCopyInto :: "('c, hXXX) meta_lib \<Rightarrow> ('c, hXXX) heap \<Rightarrow> XXXList \<Rightarrow> XXXList \<times> ('c, hXXX) heap" where
  "XXXList_DeepCopyInto M h inp =
     (case ListMeta_DeepCopyInto M h (xl_ListMeta inp) of
        (m, h1) \<Rightarrow>
          (case copy_items (XXX_DeepCopyInto M) h1 (xl_Items inp) of
             (s, h2) \<Rightarrow> (inp\<lparr>xl_ListMeta := m, xl_Items := s\<rparr>, h2)))"

definition XXX_DeepCopy :: "('c, hXXX) meta_lib \<Rightarrow> ('c, hXXX) heap \<Rightarrow> hXXX option \<Rightarrow> hXXX option \<times> ('c, hXXX) heap" where
  "XXX_DeepCopy M h inp = copy_ptr (XXX_DeepCopyInto M) h inp"

definition XXX_DeepCopyObject :: "('c, hXXX) meta_lib \<Rightarrow> ('c, hXXX) heap \<Rightarrow> hXXX option \<Rightarrow> hXXX option \<times> ('c, hXXX) heap" where
  "XXX_DeepCopyObject M h inp = (case XXX_DeepCopy M h inp of (Some c, h') \<Rightarrow> (Some c, h') | (None, h') \<Rightarrow> (None, h'))"

definition XXXList_DeepCopy :: "('c, hXXX) meta_lib \<Rightarrow> ('c, hXXX) heap \<Rightarrow> XXXList option \<Rightarrow> XXXList option \<times> ('c, hXXX) heap" where
  "XXXList_DeepCopy M h inp = copy_ptr (XXXList_DeepCopyInto M) h inp"

definition XXXList_DeepCopyObject :: "('c, hXXX) meta_lib \<Rightarrow> ('c, hXXX) heap \<Rightarrow> XXXList option \<Rightarrow> XXXList option \<times> ('c, hXXX) heap" where
  "XXXList_DeepCopyObject M h inp = (case XXXList_DeepCopy M h inp of (Some c, h') \<Rightarrow> (Some c, h') | (None, h') \<Rightarrow> (None, h'))"

definition XXXSpec_DeepCopy :: "('c, hXXX) heap \<Rightarrow> XXXSpec option \<Rightarrow> XXXSpec option \<times> ('c, hXXX) heap" where
  "XXXSpec_DeepCopy h inp = copy_ptr XXXSpec_DeepCopyInto h inp"

definition XXXStatus_DeepCopy :: "('c, hXXX) heap \<Rightarrow> XXXStatus option \<Rightarrow> XXXStatus option \<times> ('c, hXXX) heap" where
  "XXXStatus_DeepCopy h inp = copy_ptr XXXStatus_DeepCopyInto h inp"

subsection \<open>What objects read and own\<close>

definition no_meta :: hObjectMeta where
  "no_meta = \<lparr>hom_Name = '''', hom_GenerateName = '''', hom_Namespace = '''', hom_UID = '''', hom_Generation = 0,
     hom_DeletionTimestamp = None, hom_Labels = None, hom_Annotations = None, hom_OwnerReferences = None, hom_Finalizers = None\<rparr>"

definition no_list_meta :: hListMeta where
  "no_list_meta = \<lparr>hlm_ResourceVersion = '''', hlm_Continue = '''', hlm_RemainingItemCount = None\<rparr>"

definition view_XXX where
  "view_XXX h x = (x\<lparr>x_ObjectMeta := no_meta, x_Status := (x_Status x)\<lparr>xt_Conditions := None\<rparr>\<rparr>,
     (view_ObjectMeta h (x_ObjectMeta x), view_conds h (xt_Conditions (x_Status x))))"

definition refs_XXX :: "('c, hXXX) heap \<Rightarrow> hXXX \<Rightarrow> nat set" where
  "refs_XXX h x = refs_ObjectMeta h (x_ObjectMeta x) \<union> refs_slice (xt_Conditions (x_Status x))"

definition view_XXXList where
  "view_XXXList h l = (l\<lparr>xl_ListMeta := no_list_meta, xl_Items := None\<rparr>,
     (view_ListMeta h (xl_ListMeta l), view_items view_XXX h (xl_Items l)))"

definition refs_XXXList :: "('c, hXXX) heap \<Rightarrow> XXXList \<Rightarrow> nat set" where
  "refs_XXXList h l = refs_ListMeta h (xl_ListMeta l) \<union> refs_items refs_XXX h (xl_Items l)"

definition xxx_complete :: "hXXX \<Rightarrow> bool" where
  "xxx_complete x \<longleftrightarrow> hom_GenerateName (x_ObjectMeta x) \<noteq> '''' \<and> xs_DisplayName (x_Spec x) \<noteq> ''''"

subsection \<open>An example heap\<close>

definition demo_xxx :: hXXX where
  "demo_xxx = \<lparr>x_TypeMeta = \<lparr>tm_Kind = ''XXX'', tm_APIVersion = ''apps.k8sdemo.io/v1beta1''\<rparr>,
     x_ObjectMeta = no_meta\<lparr>hom_Name := ''x'', hom_Labels := Some 2\<rparr>,
     x_Spec = \<lparr>xs_DisplayName = '''', xs_Description = ''d''\<rparr>,
     x_Status = \<lparr>xt_Phase = XXXPending, xt_ObservedGeneration = 1, xt_Conditions = Some 0\<rparr>\<rparr>"

definition demo_list :: XXXList where
  "demo_list = \<lparr>xl_TypeMeta = \<lparr>tm_Kind = ''XXXList'', tm_APIVersion = ''apps.k8sdemo.io/v1beta1''\<rparr>,
     xl_ListMeta = no_list_meta\<lparr>hlm_ResourceVersion := ''7''\<rparr>, xl_Items = Some 1\<rparr>"

definition demo_heap :: "(string, hXXX) heap" where
  "demo_heap = \<lparr>h_next = 3, h_meta = (\<lambda>_. StringMap [(''app'', ''x'')]), h_conds = (\<lambda>_. [''Ready'']), h_items = (\<lambda>_. [demo_xxx])\<rparr>"

section \<open>Lemmas\<close>

lemmas conversion_defs =
  Convert_v1beta1_XXX_To_apps_XXX_def Convert_apps_XXX_To_v1beta1_XXX_def
  Convert_v1beta1_XXXSpec_To_apps_XXXSpec_def Convert_apps_XXXSpec_To_v1beta1_XXXSpec_def
  Convert_v1beta1_XXXStatus_To_apps_XXXStatus_def Convert_apps_XXXStatus_To_v1beta1_XXXStatus_def
  Convert_v1beta1_XXXList_To_apps_XXXList_def Convert_apps_XXXList_To_v1beta1_XXXList_def

lemma SetObjectDefaults_XXX_eq:
  "SetObjectDefaults_XXX x = x\<lparr>
     x_ObjectMeta := (x_ObjectMeta x)\<lparr>hom_GenerateName := (if hom_GenerateName (x_ObjectMeta x) = '''' then ''hello-''
        else hom_GenerateName (x_ObjectMeta x))\<rparr>,
     x_Spec := (x_Spec x)\<lparr>xs_DisplayName := (if xs_DisplayName (x_Spec x) = '''' then ''xxxdefaulter''
        else xs_DisplayName (x_Spec x))\<rparr>\<rparr>"
  by (simp add: SetObjectDefaults_XXX_def SetDefaults_XXX_def SetDefaults_XXXSpec_def Let_def)

interpretation xxxd: defaulter SetObjectDefaults_XXX xxx_complete
  by unfold_locales (auto simp: SetObjectDefaults_XXX_eq xxx_complete_def)

lemma default_items_map: "default_items xs = map SetObjectDefaults_XXX xs"
  by (induction xs) auto

lemma XXX_copier:
  assumes "meta_law M"
  shows "item_copier (XXX_DeepCopyInto M) view_XXX refs_XXX"
proof -
  have om: "deep_copier (ObjectMeta_DeepCopyInto M) view_ObjectMeta refs_ObjectMeta" using assms by (simp add: meta_law_def)
  show ?thesis
    using part_copier [OF pair_copier [OF om conds.deep_copier_axioms], where copy = "XXX_DeepCopyInto M"
      and gt = "\<lambda>x. (x_ObjectMeta x, xt_Conditions (x_Status x))"
      and st = "\<lambda>(m, s) x. x\<lparr>x_ObjectMeta := m, x_Status := (x_Status x)\<lparr>xt_Conditions := s\<rparr>\<rparr>"
      and flat = "\<lambda>x. x\<lparr>x_ObjectMeta := no_meta, x_Status := (x_Status x)\<lparr>xt_Conditions := None\<rparr>\<rparr>"]
    by (intro item_copier.intro)
      (simp add: view_XXX_def [abs_def] refs_XXX_def [abs_def] XXX_DeepCopyInto_def XXXStatus_DeepCopyInto_def split: prod.splits)
qed

lemma XXXList_copier:
  assumes "meta_law M"
  shows "deep_copier (XXXList_DeepCopyInto M) view_XXXList refs_XXXList"
proof -
  have lm: "deep_copier (ListMeta_DeepCopyInto M) view_ListMeta refs_ListMeta" using assms by (simp add: meta_law_def)
  show ?thesis
    using part_copier [OF pair_copier [OF lm items_copier [OF XXX_copier [OF assms]]], where copy = "XXXList_DeepCopyInto M"
      and gt = "\<lambda>l. (xl_ListMeta l, xl_Items l)" and st = "\<lambda>(m, s) l. l\<lparr>xl_ListMeta := m, xl_Items := s\<rparr>"
      and flat = "\<lambda>l. l\<lparr>xl_ListMeta := no_list_meta, xl_Items := None\<rparr>"]
    by (simp add: view_XXXList_def [abs_def] refs_XXXList_def [abs_def] XXXList_DeepCopyInto_def split: prod.splits)
qed

interpretation xxxc: item_copier "XXX_DeepCopyInto simple_meta" view_XXX refs_XXX
  by (rule XXX_copier [OF simple_meta_law])

section \<open>Properties\<close>

lemma demo_refs: "refs_XXXList demo_heap demo_list \<subseteq> {..<h_next demo_heap}"
  by (auto simp: refs_XXXList_def refs_ListMeta_def refs_items_def refs_list_def refs_XXX_def refs_ObjectMeta_def meta_refs_def refs_slice_def
      demo_heap_def demo_list_def demo_xxx_def no_meta_def no_list_meta_def)

text \<open>Defaulting fills the two defaulted fields and nothing else, settles in one application, and leaves an object alone
  exactly when both fields are set; on a list it completes every item in place and touches no other array.\<close>

theorem xxx_defaulting:
  "SetObjectDefaults_XXX x = x\<lparr>
     x_ObjectMeta := (x_ObjectMeta x)\<lparr>hom_GenerateName := (if hom_GenerateName (x_ObjectMeta x) = '''' then ''hello-''
        else hom_GenerateName (x_ObjectMeta x))\<rparr>,
     x_Spec := (x_Spec x)\<lparr>xs_DisplayName := (if xs_DisplayName (x_Spec x) = '''' then ''xxxdefaulter''
        else xs_DisplayName (x_Spec x))\<rparr>\<rparr> \<and>
   (SetObjectDefaults_XXX x = x \<longleftrightarrow> xxx_complete x) \<and>
   (SetObjectDefaults_XXX ^^ Suc n) x = SetObjectDefaults_XXX x \<and>
   SetObjectDefaults_XXXList (SetObjectDefaults_XXXList h l) l = SetObjectDefaults_XXXList h l \<and>
   h_items (SetObjectDefaults_XXXList h (l\<lparr>xl_Items := Some a\<rparr>)) = (h_items h)(a := map SetObjectDefaults_XXX (h_items h a)) \<and>
   h_conds (SetObjectDefaults_XXXList h l) = h_conds h \<and>
   list_all xxx_complete (h_items (SetObjectDefaults_XXXList h (l\<lparr>xl_Items := Some a\<rparr>)) a)"
  using xxxd.dflt_fixed_iff [of x] xxxd.dflt_pow [of "Suc n" x]
  by (simp add: SetObjectDefaults_XXX_eq [of x] SetObjectDefaults_XXXList_def default_items_map xxxd.dflt_idem o_def
      xxxd.dflt_complete list_all_iff split: option.splits del: funpow.simps)

text \<open>C30. Conversion to the internal version and back, in either direction, gives the object back, apart from the type
  metadata, which belongs to the destination, and no conversion fails. The two structs have the same layout, so that reading
  an array of versioned objects as internal ones is meaningful, and a converted list read in this way differs from the list
  of its converted items in exactly one respect: its items keep the type metadata of the versioned objects.\<close>

theorem xxx_conversion_roundtrip:
  "(let (e1, mid) = Convert_v1beta1_XXX_To_apps_XXX x aout; (e2, back) = Convert_apps_XXX_To_v1beta1_XXX mid xout in
      e1 = None \<and> e2 = None \<and> back = x\<lparr>x_TypeMeta := x_TypeMeta xout\<rparr> \<and> a_TypeMeta mid = a_TypeMeta aout) \<and>
   (let (e1, mid) = Convert_apps_XXX_To_v1beta1_XXX y xout; (e2, back) = Convert_v1beta1_XXX_To_apps_XXX mid aout in
      e1 = None \<and> e2 = None \<and> back = y\<lparr>a_TypeMeta := a_TypeMeta aout\<rparr>) \<and>
   (let (e1, mid) = Convert_v1beta1_XXXList_To_apps_XXXList l alout; (e2, back) = Convert_apps_XXXList_To_v1beta1_XXXList mid xlout in
      e1 = None \<and> e2 = None \<and> back = l\<lparr>xl_TypeMeta := xl_TypeMeta xlout\<rparr> \<and>
      apps_items h mid = map_option (\<lambda>a. map (\<lambda>i. (snd (Convert_v1beta1_XXX_To_apps_XXX i aout))\<lparr>a_TypeMeta := x_TypeMeta i\<rparr>) (h_items h a))
        (xl_Items l)) \<and>
   (layout_apps_XXX y = layout_XXX x \<longleftrightarrow> y = as_apps x)"
proof -
  have "layout_apps_XXX y = layout_XXX x \<longleftrightarrow> y = as_apps x"
    by (cases y; cases "a_Spec y"; cases "a_Status y") (auto simp: layout_apps_XXX_def layout_XXX_def as_apps_def)
  moreover have "as_apps i = (snd (Convert_v1beta1_XXX_To_apps_XXX i aout))\<lparr>a_TypeMeta := x_TypeMeta i\<rparr>" for i
    by (cases "a_Spec aout"; cases "a_Status aout") (simp add: as_apps_def conversion_defs Let_def)
  then have "as_apps = (\<lambda>i. (snd (Convert_v1beta1_XXX_To_apps_XXX i aout))\<lparr>a_TypeMeta := x_TypeMeta i\<rparr>)" by blast
  ultimately show ?thesis
    by (simp add: conversion_defs Let_def apps_items_def)
qed

text \<open>C31. A converted list is an alias, a deep copy is not: defaulting a list changes what the list converted from it reads,
  item by item, while defaulting a deep copy leaves the source list as it was.\<close>

theorem xxx_conversion_aliases:
  assumes "meta_law M" and "xl_Items l = Some a" and "refs_XXXList h l \<subseteq> {..<h_next h}"
    and "XXXList_DeepCopyInto M h l = (l', h')"
  shows "apps_items (SetObjectDefaults_XXXList h l) (snd (Convert_v1beta1_XXXList_To_apps_XXXList l out)) =
      Some (map (\<lambda>x. as_apps (SetObjectDefaults_XXX x)) (h_items h a)) \<and>
    view_XXXList (SetObjectDefaults_XXXList h' l') l = view_XXXList h l"
proof -
  have "apps_items (SetObjectDefaults_XXXList h l) (snd (Convert_v1beta1_XXXList_To_apps_XXXList l out)) =
      Some (map (\<lambda>x. as_apps (SetObjectDefaults_XXX x)) (h_items h a))"
    using assms(2)
    by (simp add: conversion_defs SetObjectDefaults_XXXList_def default_items_map apps_items_def)
  moreover have "agree_on (- refs_XXXList h' l') h' (SetObjectDefaults_XXXList h' l')"
    by (auto simp: agree_on_def SetObjectDefaults_XXXList_def refs_XXXList_def refs_items_def split: option.splits)
  ultimately show ?thesis using deep_copier.independent [OF XXXList_copier [OF assms(1)] assms(3,4)] by blast
qed

theorem xxx_conversion_aliases_witness:
  "\<exists>l' h'. XXXList_DeepCopyInto simple_meta demo_heap demo_list = (l', h') \<and>
     view_XXXList (SetObjectDefaults_XXXList h' l') demo_list = view_XXXList demo_heap demo_list"
proof -
  obtain l' h' where run: "XXXList_DeepCopyInto simple_meta demo_heap demo_list = (l', h')" by fastforce
  have "xl_Items demo_list = Some 1" by (simp add: demo_list_def)
  moreover have "refs_XXXList demo_heap demo_list \<subseteq> {..<h_next demo_heap}"
    by (rule demo_refs)
  ultimately show ?thesis using xxx_conversion_aliases [OF simple_meta_law _ _ run] run by blast
qed

end
