(* ===== verification/Generated_Copies.thy ===== *)
theory Generated_Copies
  imports Resource_Definition Pod_Operator Calculator
begin

text \<open>
  The generated deep copies of the PodManager types (\<open>src/pod-operator/api/v1/zz_generated.deepcopy.go\<close>) and of
  the Calculate types (\<open>src/webhook/using-kubebuilder/api/v1/zz_generated.deepcopy.go\<close>). The controllers' models
  keep conditions as lists and metadata as values; here an object has the slices, maps and pointers themselves, so that
  sharing is visible. The last property is about all three families of generated copies.
\<close>

section \<open>Definitions\<close>

subsection \<open>PodManager\<close>

record hPodManagerStatus =
  hst_ReadyReplicas :: int32
  hst_CurrentReplicas :: int32
  hst_Conditions :: slice

record hPodManager =
  hpm_TypeMeta :: TypeMeta
  hpm_meta :: hObjectMeta
  hpm_Spec :: PodManagerSpec
  hpm_Status :: hPodManagerStatus

record hPodManagerList =
  hpl_TypeMeta :: TypeMeta
  hpl_ListMeta :: hListMeta
  hpl_Items :: slice

type_synonym pm_heap = "(PodCondition, hPodManager) heap"

type_synonym pm_meta_lib = "(PodCondition, hPodManager) meta_lib"

definition PodCondition_DeepCopyInto :: "pm_heap \<Rightarrow> PodCondition \<Rightarrow> PodCondition \<times> pm_heap" where
  "PodCondition_DeepCopyInto h inp = (inp, h)"

definition PodCondition_DeepCopy :: "pm_heap \<Rightarrow> PodCondition option \<Rightarrow> PodCondition option \<times> pm_heap" where
  "PodCondition_DeepCopy h inp = copy_ptr PodCondition_DeepCopyInto h inp"

definition PodManagerStatus_DeepCopyInto :: "pm_heap \<Rightarrow> hPodManagerStatus \<Rightarrow> hPodManagerStatus \<times> pm_heap" where
  "PodManagerStatus_DeepCopyInto h inp =
     (case copy_conds h (hst_Conditions inp) of (s, h') \<Rightarrow> (inp\<lparr>hst_Conditions := s\<rparr>, h'))"

definition PodManagerSpec_DeepCopyInto :: "pm_heap \<Rightarrow> PodManagerSpec \<Rightarrow> PodManagerSpec \<times> pm_heap" where
  "PodManagerSpec_DeepCopyInto h inp = (inp, h)"

definition PodManager_DeepCopyInto :: "pm_meta_lib \<Rightarrow> pm_heap \<Rightarrow> hPodManager \<Rightarrow> hPodManager \<times> pm_heap" where
  "PodManager_DeepCopyInto M h inp =
     (case ObjectMeta_DeepCopyInto M h (hpm_meta inp) of
        (m, h1) \<Rightarrow>
          (case PodManagerStatus_DeepCopyInto h1 (hpm_Status inp) of
             (st, h2) \<Rightarrow> (inp\<lparr>hpm_meta := m, hpm_Spec := hpm_Spec inp, hpm_Status := st\<rparr>, h2)))"

definition PodManagerList_DeepCopyInto :: "pm_meta_lib \<Rightarrow> pm_heap \<Rightarrow> hPodManagerList \<Rightarrow> hPodManagerList \<times> pm_heap" where
  "PodManagerList_DeepCopyInto M h inp =
     (case ListMeta_DeepCopyInto M h (hpl_ListMeta inp) of
        (m, h1) \<Rightarrow>
          (case copy_items (PodManager_DeepCopyInto M) h1 (hpl_Items inp) of
             (s, h2) \<Rightarrow> (inp\<lparr>hpl_ListMeta := m, hpl_Items := s\<rparr>, h2)))"

definition PodManager_DeepCopy :: "pm_meta_lib \<Rightarrow> pm_heap \<Rightarrow> hPodManager option \<Rightarrow> hPodManager option \<times> pm_heap" where
  "PodManager_DeepCopy M h inp = copy_ptr (PodManager_DeepCopyInto M) h inp"

definition PodManagerList_DeepCopy :: "pm_meta_lib \<Rightarrow> pm_heap \<Rightarrow> hPodManagerList option \<Rightarrow> hPodManagerList option \<times> pm_heap" where
  "PodManagerList_DeepCopy M h inp = copy_ptr (PodManagerList_DeepCopyInto M) h inp"

definition PodManager_DeepCopyObject :: "pm_meta_lib \<Rightarrow> pm_heap \<Rightarrow> hPodManager option \<Rightarrow> hPodManager option \<times> pm_heap" where
  "PodManager_DeepCopyObject M h inp = (case PodManager_DeepCopy M h inp of (Some c, h') \<Rightarrow> (Some c, h') | (None, h') \<Rightarrow> (None, h'))"

definition PodManagerList_DeepCopyObject :: "pm_meta_lib \<Rightarrow> pm_heap \<Rightarrow> hPodManagerList option \<Rightarrow> hPodManagerList option \<times> pm_heap" where
  "PodManagerList_DeepCopyObject M h inp = (case PodManagerList_DeepCopy M h inp of (Some c, h') \<Rightarrow> (Some c, h') | (None, h') \<Rightarrow> (None, h'))"

definition PodManagerStatus_DeepCopy :: "pm_heap \<Rightarrow> hPodManagerStatus option \<Rightarrow> hPodManagerStatus option \<times> pm_heap" where
  "PodManagerStatus_DeepCopy h inp = copy_ptr PodManagerStatus_DeepCopyInto h inp"

definition PodManagerSpec_DeepCopy :: "pm_heap \<Rightarrow> PodManagerSpec option \<Rightarrow> PodManagerSpec option \<times> pm_heap" where
  "PodManagerSpec_DeepCopy h inp = copy_ptr PodManagerSpec_DeepCopyInto h inp"

definition view_PodManager where
  "view_PodManager h x = (x\<lparr>hpm_meta := no_meta, hpm_Status := (hpm_Status x)\<lparr>hst_Conditions := None\<rparr>\<rparr>,
     (view_ObjectMeta h (hpm_meta x), view_conds h (hst_Conditions (hpm_Status x))))"

definition refs_PodManager :: "pm_heap \<Rightarrow> hPodManager \<Rightarrow> nat set" where
  "refs_PodManager h x = refs_ObjectMeta h (hpm_meta x) \<union> refs_slice (hst_Conditions (hpm_Status x))"

definition view_PodManagerList where
  "view_PodManagerList h l = (l\<lparr>hpl_ListMeta := no_list_meta, hpl_Items := None\<rparr>,
     (view_ListMeta h (hpl_ListMeta l), view_items view_PodManager h (hpl_Items l)))"

definition refs_PodManagerList :: "pm_heap \<Rightarrow> hPodManagerList \<Rightarrow> nat set" where
  "refs_PodManagerList h l = refs_ListMeta h (hpl_ListMeta l) \<union> refs_items refs_PodManager h (hpl_Items l)"

subsection \<open>Calculate\<close>

record hCalculate =
  hca_TypeMeta :: TypeMeta
  hca_meta :: hObjectMeta
  hca_Spec :: CalculateSpec
  hca_Status :: CalculateStatus

record hCalculateList =
  hcl_TypeMeta :: TypeMeta
  hcl_ListMeta :: hListMeta
  hcl_Items :: slice

type_synonym cal_heap = "(unit, hCalculate) heap"

type_synonym cal_meta_lib = "(unit, hCalculate) meta_lib"

definition Calculate_DeepCopyInto :: "cal_meta_lib \<Rightarrow> cal_heap \<Rightarrow> hCalculate \<Rightarrow> hCalculate \<times> cal_heap" where
  "Calculate_DeepCopyInto M h inp =
     (case ObjectMeta_DeepCopyInto M h (hca_meta inp) of
        (m, h') \<Rightarrow> (inp\<lparr>hca_meta := m, hca_Spec := hca_Spec inp, hca_Status := hca_Status inp\<rparr>, h'))"

definition CalculateList_DeepCopyInto :: "cal_meta_lib \<Rightarrow> cal_heap \<Rightarrow> hCalculateList \<Rightarrow> hCalculateList \<times> cal_heap" where
  "CalculateList_DeepCopyInto M h inp =
     (case ListMeta_DeepCopyInto M h (hcl_ListMeta inp) of
        (m, h1) \<Rightarrow>
          (case copy_items (Calculate_DeepCopyInto M) h1 (hcl_Items inp) of
             (s, h2) \<Rightarrow> (inp\<lparr>hcl_ListMeta := m, hcl_Items := s\<rparr>, h2)))"

definition Calculate_DeepCopy :: "cal_meta_lib \<Rightarrow> cal_heap \<Rightarrow> hCalculate option \<Rightarrow> hCalculate option \<times> cal_heap" where
  "Calculate_DeepCopy M h inp = copy_ptr (Calculate_DeepCopyInto M) h inp"

definition CalculateList_DeepCopy :: "cal_meta_lib \<Rightarrow> cal_heap \<Rightarrow> hCalculateList option \<Rightarrow> hCalculateList option \<times> cal_heap" where
  "CalculateList_DeepCopy M h inp = copy_ptr (CalculateList_DeepCopyInto M) h inp"

definition Calculate_DeepCopyObject :: "cal_meta_lib \<Rightarrow> cal_heap \<Rightarrow> hCalculate option \<Rightarrow> hCalculate option \<times> cal_heap" where
  "Calculate_DeepCopyObject M h inp = (case Calculate_DeepCopy M h inp of (Some c, h') \<Rightarrow> (Some c, h') | (None, h') \<Rightarrow> (None, h'))"

definition CalculateList_DeepCopyObject :: "cal_meta_lib \<Rightarrow> cal_heap \<Rightarrow> hCalculateList option \<Rightarrow> hCalculateList option \<times> cal_heap" where
  "CalculateList_DeepCopyObject M h inp = (case CalculateList_DeepCopy M h inp of (Some c, h') \<Rightarrow> (Some c, h') | (None, h') \<Rightarrow> (None, h'))"

definition CalculateSpec_DeepCopy :: "cal_heap \<Rightarrow> CalculateSpec option \<Rightarrow> CalculateSpec option \<times> cal_heap" where
  "CalculateSpec_DeepCopy h inp = copy_ptr (\<lambda>h v. (v, h)) h inp"

definition CalculateStatus_DeepCopy :: "cal_heap \<Rightarrow> CalculateStatus option \<Rightarrow> CalculateStatus option \<times> cal_heap" where
  "CalculateStatus_DeepCopy h inp = copy_ptr (\<lambda>h v. (v, h)) h inp"

definition view_Calculate where
  "view_Calculate h x = (x\<lparr>hca_meta := no_meta\<rparr>, view_ObjectMeta h (hca_meta x))"

definition refs_Calculate :: "cal_heap \<Rightarrow> hCalculate \<Rightarrow> nat set" where
  "refs_Calculate h x = refs_ObjectMeta h (hca_meta x)"

definition view_CalculateList where
  "view_CalculateList h l = (l\<lparr>hcl_ListMeta := no_list_meta, hcl_Items := None\<rparr>,
     (view_ListMeta h (hcl_ListMeta l), view_items view_Calculate h (hcl_Items l)))"

definition refs_CalculateList :: "cal_heap \<Rightarrow> hCalculateList \<Rightarrow> nat set" where
  "refs_CalculateList h l = refs_ListMeta h (hcl_ListMeta l) \<union> refs_items refs_Calculate h (hcl_Items l)"

subsection \<open>Separate copies\<close>

text \<open>
  A copy that reads like the original, owns no array, map or pointer of the original, and is independent of it: a heap that
  differs only in blocks of the one reads the same through the other.
\<close>

definition separate_copy :: "(('c, 'o) heap \<Rightarrow> 'v \<Rightarrow> 'p) \<Rightarrow> (('c, 'o) heap \<Rightarrow> 'v \<Rightarrow> nat set) \<Rightarrow>
    ('c, 'o) heap \<Rightarrow> 'v \<Rightarrow> 'v \<Rightarrow> ('c, 'o) heap \<Rightarrow> bool" where
  "separate_copy view refs h v v' h' \<longleftrightarrow>
     refs h' v \<inter> refs h' v' = {} \<and> view h' v = view h v \<and> view h' v' = view h v \<and>
     (\<forall>h''. agree_on (- refs h' v') h' h'' \<longrightarrow> view h'' v = view h v) \<and>
     (\<forall>h''. agree_on (- refs h' v) h' h'' \<longrightarrow> view h'' v' = view h v)"

text \<open>A function that copies nil to nil and an object whose references are allocated to a separate copy.\<close>

definition copies_apart :: "(('c, 'o) heap \<Rightarrow> 'v option \<Rightarrow> 'v option \<times> ('c, 'o) heap) \<Rightarrow> (('c, 'o) heap \<Rightarrow> 'v \<Rightarrow> 'p) \<Rightarrow>
    (('c, 'o) heap \<Rightarrow> 'v \<Rightarrow> nat set) \<Rightarrow> bool" where
  "copies_apart copy view refs \<longleftrightarrow> (\<forall>h. copy h None = (None, h)) \<and>
     (\<forall>h v. refs h v \<subseteq> {..<h_next h} \<longrightarrow> (\<exists>v' h'. copy h (Some v) = (Some v', h') \<and> separate_copy view refs h v v' h'))"

section \<open>Lemmas\<close>

lemma PodManager_copier:
  assumes "meta_law M"
  shows "item_copier (PodManager_DeepCopyInto M) view_PodManager refs_PodManager"
proof -
  have om: "deep_copier (ObjectMeta_DeepCopyInto M) view_ObjectMeta refs_ObjectMeta" using assms by (simp add: meta_law_def)
  show ?thesis
    using part_copier [OF pair_copier [OF om conds.deep_copier_axioms], where copy = "PodManager_DeepCopyInto M"
      and gt = "\<lambda>x. (hpm_meta x, hst_Conditions (hpm_Status x))"
      and st = "\<lambda>(m, s) x. x\<lparr>hpm_meta := m, hpm_Status := (hpm_Status x)\<lparr>hst_Conditions := s\<rparr>\<rparr>"
      and flat = "\<lambda>x. x\<lparr>hpm_meta := no_meta, hpm_Status := (hpm_Status x)\<lparr>hst_Conditions := None\<rparr>\<rparr>"]
    by (intro item_copier.intro)
      (simp add: view_PodManager_def [abs_def] refs_PodManager_def [abs_def] PodManager_DeepCopyInto_def
        PodManagerStatus_DeepCopyInto_def split: prod.splits)
qed

lemma PodManagerList_copier:
  assumes "meta_law M"
  shows "deep_copier (PodManagerList_DeepCopyInto M) view_PodManagerList refs_PodManagerList"
proof -
  have lm: "deep_copier (ListMeta_DeepCopyInto M) view_ListMeta refs_ListMeta" using assms by (simp add: meta_law_def)
  show ?thesis
    using part_copier [OF pair_copier [OF lm items_copier [OF PodManager_copier [OF assms]]], where copy = "PodManagerList_DeepCopyInto M"
      and gt = "\<lambda>l. (hpl_ListMeta l, hpl_Items l)" and st = "\<lambda>(m, s) l. l\<lparr>hpl_ListMeta := m, hpl_Items := s\<rparr>"
      and flat = "\<lambda>l. l\<lparr>hpl_ListMeta := no_list_meta, hpl_Items := None\<rparr>"]
    by (simp add: view_PodManagerList_def [abs_def] refs_PodManagerList_def [abs_def] PodManagerList_DeepCopyInto_def split: prod.splits)
qed

lemma Calculate_copier:
  assumes "meta_law M"
  shows "item_copier (Calculate_DeepCopyInto M) view_Calculate refs_Calculate"
proof -
  have om: "deep_copier (ObjectMeta_DeepCopyInto M) view_ObjectMeta refs_ObjectMeta" using assms by (simp add: meta_law_def)
  show ?thesis
    using part_copier [OF om, where copy = "Calculate_DeepCopyInto M" and gt = hca_meta and st = "\<lambda>m x. x\<lparr>hca_meta := m\<rparr>"
      and flat = "\<lambda>x. x\<lparr>hca_meta := no_meta\<rparr>"]
    by (intro item_copier.intro) (simp add: view_Calculate_def [abs_def] refs_Calculate_def [abs_def] Calculate_DeepCopyInto_def)
qed

lemma CalculateList_copier:
  assumes "meta_law M"
  shows "deep_copier (CalculateList_DeepCopyInto M) view_CalculateList refs_CalculateList"
proof -
  have lm: "deep_copier (ListMeta_DeepCopyInto M) view_ListMeta refs_ListMeta" using assms by (simp add: meta_law_def)
  show ?thesis
    using part_copier [OF pair_copier [OF lm items_copier [OF Calculate_copier [OF assms]]], where copy = "CalculateList_DeepCopyInto M"
      and gt = "\<lambda>l. (hcl_ListMeta l, hcl_Items l)" and st = "\<lambda>(m, s) l. l\<lparr>hcl_ListMeta := m, hcl_Items := s\<rparr>"
      and flat = "\<lambda>l. l\<lparr>hcl_ListMeta := no_list_meta, hcl_Items := None\<rparr>"]
    by (simp add: view_CalculateList_def [abs_def] refs_CalculateList_def [abs_def] CalculateList_DeepCopyInto_def split: prod.splits)
qed

interpretation pmc: item_copier "PodManager_DeepCopyInto simple_meta" view_PodManager refs_PodManager
  by (rule PodManager_copier [OF simple_meta_law])

interpretation calc: item_copier "Calculate_DeepCopyInto simple_meta" view_Calculate refs_Calculate
  by (rule Calculate_copier [OF simple_meta_law])

text \<open>\<open>DeepCopyObject\<close> of a deep copier makes separate copies.\<close>

lemma deep_copier_apart:
  assumes "deep_copier copy view refs" and "\<And>h p. object h p = copy_ptr copy h p"
  shows "copies_apart object view refs"
proof -
  have "\<exists>v' h'. object h (Some v) = (Some v', h') \<and> separate_copy view refs h v v' h'" if "refs h v \<subseteq> {..<h_next h}" for h v
  proof -
    obtain v' h' where c: "copy h v = (v', h')" by fastforce
    then show ?thesis
      using deep_copier.independent [OF assms(1) that c] by (simp add: assms(2) copy_ptr_def separate_copy_def)
  qed
  then show ?thesis by (simp add: copies_apart_def assms(2) copy_ptr_def)
qed

lemma object_copy_eqs:
  "PodManager_DeepCopyObject M1 h1 p1 = copy_ptr (PodManager_DeepCopyInto M1) h1 p1"
  "PodManagerList_DeepCopyObject M1 h1 q1 = copy_ptr (PodManagerList_DeepCopyInto M1) h1 q1"
  "Calculate_DeepCopyObject M2 h2 p2 = copy_ptr (Calculate_DeepCopyInto M2) h2 p2"
  "CalculateList_DeepCopyObject M2 h2 q2 = copy_ptr (CalculateList_DeepCopyInto M2) h2 q2"
  "XXX_DeepCopyObject M3 h3 p3 = copy_ptr (XXX_DeepCopyInto M3) h3 p3"
  "XXXList_DeepCopyObject M3 h3 q3 = copy_ptr (XXXList_DeepCopyInto M3) h3 q3"
  by (simp_all add: PodManager_DeepCopyObject_def PodManager_DeepCopy_def PodManagerList_DeepCopyObject_def PodManagerList_DeepCopy_def
      Calculate_DeepCopyObject_def Calculate_DeepCopy_def CalculateList_DeepCopyObject_def CalculateList_DeepCopy_def
      XXX_DeepCopyObject_def XXX_DeepCopy_def XXXList_DeepCopyObject_def XXXList_DeepCopy_def split: prod.splits option.splits)

section \<open>Properties\<close>

text \<open>C32. The generated deep copies are deep, given that those of the metadata types are: \<open>DeepCopyObject\<close> of a PodManager, a
  Calculate, an XXX object or a list of them yields nil for nil, and otherwise an object that reads the same, shares with
  the original no backing array, map or pointer, be it of the metadata, of the conditions, of the items or of what the items
  refer to, and is independent of it under later writes to such blocks in both directions.\<close>

theorem generated_copies_separate:
  assumes "meta_law M1" and "meta_law M2" and "meta_law M3"
  shows "copies_apart (PodManager_DeepCopyObject M1) view_PodManager refs_PodManager \<and>
    copies_apart (PodManagerList_DeepCopyObject M1) view_PodManagerList refs_PodManagerList \<and>
    copies_apart (Calculate_DeepCopyObject M2) view_Calculate refs_Calculate \<and>
    copies_apart (CalculateList_DeepCopyObject M2) view_CalculateList refs_CalculateList \<and>
    copies_apart (XXX_DeepCopyObject M3) view_XXX refs_XXX \<and>
    copies_apart (XXXList_DeepCopyObject M3) view_XXXList refs_XXXList"
  using assms
  by (intro conjI deep_copier_apart)
    (rule object_copy_eqs PodManagerList_copier CalculateList_copier XXXList_copier item_copier.axioms
      PodManager_copier Calculate_copier XXX_copier | assumption)+

theorem generated_copies_separate_witness:
  "\<exists>l' h'. XXXList_DeepCopyObject simple_meta demo_heap (Some demo_list) = (Some l', h') \<and>
     separate_copy view_XXXList refs_XXXList demo_heap demo_list l' h'"
  using generated_copies_separate [OF simple_meta_law simple_meta_law simple_meta_law] demo_refs
  unfolding copies_apart_def by blast

end
