(* ===== verification/Clientset.thy ===== *)
theory Clientset
  imports Complex_Main Resource_Definition
begin

text \<open>
  The generated clientset of the resource XXX (\<open>src/resourcedefinition/generated/clientset/versioned/\<close>): how a
  client is configured (\<open>clientset.go\<close>, \<open>typed/apps/v1beta1/apps_client.go\<close>), the requests of the typed client
  (\<open>typed/apps/v1beta1/xxx.go\<close>) and the actions of the fake one (\<open>typed/apps/v1beta1/fake/fake_xxx.go\<close>,
  \<open>fake/clientset_generated.go\<close>).

  The REST client, the transport and the reactors and the tracker behind the fake are libraries. They are parameters, over the
  state of a server, of which nothing is assumed. \<open>request_operation\<close> and \<open>action_operation\<close> read a request and an action
  as an operation of the API.
\<close>

section \<open>Definitions\<close>

subsection \<open>Configuration\<close>

record rest_Config =
  cf_Host :: string
  cf_UserAgent :: string
  cf_QPS :: rat
  cf_Burst :: int64
  cf_RateLimiter :: "(rat \<times> int64) option"
  cf_GroupVersion :: string
  cf_APIPath :: string
  cf_Serializer :: string

record ('h, 'c, 'd) rest_env =
  DefaultKubernetesUserAgent :: string
  HTTPClientFor :: "rest_Config \<Rightarrow> go_error + 'h"
  RESTClientForConfigAndClient :: "rest_Config \<Rightarrow> 'h \<Rightarrow> go_error + 'c"
  NewDiscoveryClientForConfigAndClient :: "rest_Config \<Rightarrow> 'h \<Rightarrow> go_error + 'd"

definition setConfigDefaults :: "('h, 'c, 'd) rest_env \<Rightarrow> rest_Config \<Rightarrow> rest_Config" where
  "setConfigDefaults e config =
     (let c1 = config\<lparr>cf_GroupVersion := ''apps.k8sdemo.io/v1beta1'', cf_APIPath := ''/apis'',
            cf_Serializer := ''WithoutConversion''\<rparr> in
      if cf_UserAgent c1 = '''' then c1\<lparr>cf_UserAgent := DefaultKubernetesUserAgent e\<rparr> else c1)"

text \<open>A Go interface value is nil, or holds a pointer of some type; the pointer may itself be nil.\<close>

datatype 'p iface = NilIface | Dyn "'p option"

record 'c AppsV1beta1Client =
  ac_restClient :: "'c iface"

definition apps_New :: "'c iface \<Rightarrow> 'c AppsV1beta1Client" where
  "apps_New c = \<lparr>ac_restClient = c\<rparr>"

definition apps_NewForConfigAndClient :: "('h, 'c, 'd) rest_env \<Rightarrow> rest_Config \<Rightarrow> 'h \<Rightarrow> go_error + 'c AppsV1beta1Client" where
  "apps_NewForConfigAndClient e c h =
     (case RESTClientForConfigAndClient e (setConfigDefaults e c) h of
        Inl err \<Rightarrow> Inl err
      | Inr client \<Rightarrow> Inr \<lparr>ac_restClient = Dyn (Some client)\<rparr>)"

definition apps_NewForConfig :: "('h, 'c, 'd) rest_env \<Rightarrow> rest_Config \<Rightarrow> go_error + 'c AppsV1beta1Client" where
  "apps_NewForConfig e c =
     (let config = setConfigDefaults e c in
      case HTTPClientFor e config of
        Inl err \<Rightarrow> Inl err
      | Inr h \<Rightarrow> apps_NewForConfigAndClient e config h)"

record ('c, 'd) Clientset =
  cs_appsV1beta1 :: 'c
  cs_Discovery :: 'd

definition NewForConfigAndClient :: "('h, 'c, 'd) rest_env \<Rightarrow> rest_Config \<Rightarrow> 'h \<Rightarrow> go_error + ('c AppsV1beta1Client, 'd) Clientset" where
  "NewForConfigAndClient e c h =
     (if cf_RateLimiter c = None \<and> 0 < cf_QPS c \<and> sint (cf_Burst c) \<le> 0
      then Inl (PlainError
        ''burst is required to be greater than 0 when RateLimiter is not set and QPS is set to greater than 0'')
      else
        (let config = (if cf_RateLimiter c = None \<and> 0 < cf_QPS c
               then c\<lparr>cf_RateLimiter := Some (cf_QPS c, cf_Burst c)\<rparr> else c) in
         case apps_NewForConfigAndClient e config h of
           Inl err \<Rightarrow> Inl err
         | Inr apps \<Rightarrow>
             (case NewDiscoveryClientForConfigAndClient e config h of
                Inl err \<Rightarrow> Inl err
              | Inr d \<Rightarrow> Inr \<lparr>cs_appsV1beta1 = apps, cs_Discovery = d\<rparr>)))"

definition NewForConfig :: "('h, 'c, 'd) rest_env \<Rightarrow> rest_Config \<Rightarrow> go_error + ('c AppsV1beta1Client, 'd) Clientset" where
  "NewForConfig e c =
     (let config = (if cf_UserAgent c = '''' then c\<lparr>cf_UserAgent := DefaultKubernetesUserAgent e\<rparr> else c) in
      case HTTPClientFor e config of
        Inl err \<Rightarrow> Inl err
      | Inr h \<Rightarrow> NewForConfigAndClient e config h)"

definition NewForConfigOrDie :: "('h, 'c, 'd) rest_env \<Rightarrow> rest_Config \<Rightarrow> ('c AppsV1beta1Client, 'd) Clientset outcome" where
  "NewForConfigOrDie e c = (case NewForConfig e c of Inl err \<Rightarrow> Panic (PanicErr (Error err)) | Inr cs \<Rightarrow> Ret cs)"

subsection \<open>The typed client\<close>

text \<open>An object as its contents, with the metadata as values.\<close>

type_synonym XXX_object = "ObjectMeta XXX"

datatype verb = GET | POST | PUT | DELETE | PATCH string

record ListOptions =
  lo_LabelSelector :: string
  lo_TimeoutSeconds :: "int64 option"
  lo_Watch :: bool

datatype params = NoParams | OptParams string | ListParams ListOptions

datatype request_body = NoBody | ObjBody XXX_object | OptBody string | DataBody string

record rest_request =
  rr_Verb :: verb
  rr_Namespace :: string
  rr_Resource :: string
  rr_Name :: "string option"
  rr_SubResource :: "string list"
  rr_Params :: params
  rr_Timeout :: duration
  rr_Body :: request_body

text \<open>A list of the API with its items spelt out.\<close>

record item_list =
  il_TypeMeta :: TypeMeta
  il_ListMeta :: ListMeta
  il_Items :: "XXX_object list"

type_synonym 'a reply = "'a option \<times> go_error option"

text \<open>
  The REST client, over a server state \<open>'s\<close>: \<open>Do(ctx).Into(result)\<close> sends a request and decodes the answer into an
  object, \<open>Do(ctx).Error()\<close> only reports the error, \<open>Watch(ctx)\<close> opens a watch.
\<close>

record ('s, 'w) rest_client =
  Into :: "rest_request \<Rightarrow> XXX_object \<Rightarrow> 's \<Rightarrow> (XXX_object \<times> go_error option) \<times> 's"
  IntoList :: "rest_request \<Rightarrow> item_list \<Rightarrow> 's \<Rightarrow> (item_list \<times> go_error option) \<times> 's"
  Do_Error :: "rest_request \<Rightarrow> 's \<Rightarrow> go_error option \<times> 's"
  Do_Watch :: "rest_request \<Rightarrow> 's \<Rightarrow> 'w reply \<times> 's"

definition TypeMeta0 :: TypeMeta where
  "TypeMeta0 = \<lparr>tm_Kind = '''', tm_APIVersion = ''''\<rparr>"

definition XXX0 :: XXX_object where
  "XXX0 = \<lparr>x_TypeMeta = TypeMeta0, x_ObjectMeta = meta0, x_Spec = \<lparr>xs_DisplayName = '''', xs_Description = ''''\<rparr>,
     x_Status = \<lparr>xt_Phase = '''', xt_ObservedGeneration = 0, xt_Conditions = None\<rparr>\<rparr>"

definition XXXList0 :: item_list where
  "XXXList0 = \<lparr>il_TypeMeta = TypeMeta0, il_ListMeta = \<lparr>lm_ResourceVersion = '''', lm_Continue = ''''\<rparr>, il_Items = []\<rparr>"

definition request0 :: "verb \<Rightarrow> string \<Rightarrow> rest_request" where
  "request0 v ns = \<lparr>rr_Verb = v, rr_Namespace = ns, rr_Resource = ''xxxs'', rr_Name = None, rr_SubResource = [],
     rr_Params = NoParams, rr_Timeout = 0, rr_Body = NoBody\<rparr>"

definition list_timeout :: "ListOptions \<Rightarrow> duration" where
  "list_timeout opts = (case lo_TimeoutSeconds opts of None \<Rightarrow> 0 | Some s \<Rightarrow> s * Second)"

definition xxx_name :: "XXX_object \<Rightarrow> string" where
  "xxx_name x = om_Name (x_ObjectMeta x)"

definition xXXs_Get :: "('s, 'w) rest_client \<Rightarrow> string \<Rightarrow> string \<Rightarrow> string \<Rightarrow> 's \<Rightarrow> (XXX_object \<times> go_error option) \<times> 's" where
  "xXXs_Get c ns name options = Into c ((request0 GET ns)\<lparr>rr_Name := Some name, rr_Params := OptParams options\<rparr>) XXX0"

definition xXXs_List :: "('s, 'w) rest_client \<Rightarrow> string \<Rightarrow> ListOptions \<Rightarrow> 's \<Rightarrow> (item_list \<times> go_error option) \<times> 's" where
  "xXXs_List c ns opts =
     IntoList c ((request0 GET ns)\<lparr>rr_Params := ListParams opts, rr_Timeout := list_timeout opts\<rparr>) XXXList0"

definition xXXs_Watch :: "('s, 'w) rest_client \<Rightarrow> string \<Rightarrow> ListOptions \<Rightarrow> 's \<Rightarrow> 'w reply \<times> 's" where
  "xXXs_Watch c ns opts =
     (let timeout = list_timeout opts; opts1 = opts\<lparr>lo_Watch := True\<rparr> in
      Do_Watch c ((request0 GET ns)\<lparr>rr_Params := ListParams opts1, rr_Timeout := timeout\<rparr>))"

definition xXXs_Create :: "('s, 'w) rest_client \<Rightarrow> string \<Rightarrow> XXX_object \<Rightarrow> string \<Rightarrow> 's \<Rightarrow> (XXX_object \<times> go_error option) \<times> 's" where
  "xXXs_Create c ns x opts = Into c ((request0 POST ns)\<lparr>rr_Params := OptParams opts, rr_Body := ObjBody x\<rparr>) XXX0"

definition xXXs_Update :: "('s, 'w) rest_client \<Rightarrow> string \<Rightarrow> XXX_object \<Rightarrow> string \<Rightarrow> 's \<Rightarrow> (XXX_object \<times> go_error option) \<times> 's" where
  "xXXs_Update c ns x opts =
     Into c ((request0 PUT ns)\<lparr>rr_Name := Some (xxx_name x), rr_Params := OptParams opts, rr_Body := ObjBody x\<rparr>) XXX0"

definition xXXs_UpdateStatus :: "('s, 'w) rest_client \<Rightarrow> string \<Rightarrow> XXX_object \<Rightarrow> string \<Rightarrow> 's \<Rightarrow> (XXX_object \<times> go_error option) \<times> 's" where
  "xXXs_UpdateStatus c ns x opts =
     Into c ((request0 PUT ns)\<lparr>rr_Name := Some (xxx_name x), rr_SubResource := [''status''], rr_Params := OptParams opts,
       rr_Body := ObjBody x\<rparr>) XXX0"

definition xXXs_Delete :: "('s, 'w) rest_client \<Rightarrow> string \<Rightarrow> string \<Rightarrow> string \<Rightarrow> 's \<Rightarrow> go_error option \<times> 's" where
  "xXXs_Delete c ns name opts = Do_Error c ((request0 DELETE ns)\<lparr>rr_Name := Some name, rr_Body := OptBody opts\<rparr>)"

definition xXXs_DeleteCollection :: "('s, 'w) rest_client \<Rightarrow> string \<Rightarrow> string \<Rightarrow> ListOptions \<Rightarrow> 's \<Rightarrow> go_error option \<times> 's" where
  "xXXs_DeleteCollection c ns opts listOpts =
     Do_Error c ((request0 DELETE ns)\<lparr>rr_Params := ListParams listOpts, rr_Timeout := list_timeout listOpts, rr_Body := OptBody opts\<rparr>)"

definition xXXs_Patch :: "('s, 'w) rest_client \<Rightarrow> string \<Rightarrow> string \<Rightarrow> string \<Rightarrow> string \<Rightarrow> string \<Rightarrow> string list \<Rightarrow>
    's \<Rightarrow> (XXX_object \<times> go_error option) \<times> 's" where
  "xXXs_Patch c ns name pt data opts subresources =
     Into c ((request0 (PATCH pt) ns)\<lparr>rr_Name := Some name, rr_SubResource := subresources, rr_Params := OptParams opts,
       rr_Body := DataBody data\<rparr>) XXX0"

subsection \<open>The fake client\<close>

text \<open>The resource of the actions: group, version and name.\<close>

definition xxxsResource :: "string \<times> string \<times> string" where
  "xxxsResource = (''apps.k8sdemo.io'', ''v1beta1'', ''xxxs'')"

definition xxxsKind :: GroupVersionKind where
  "xxxsKind = \<lparr>gvk_Group = ''apps.k8sdemo.io'', gvk_Version = ''v1beta1'', gvk_Kind = ''XXX''\<rparr>"

datatype action =
    GetAction "string \<times> string \<times> string" string string
  | ListAction "string \<times> string \<times> string" GroupVersionKind string ListOptions
  | WatchAction "string \<times> string \<times> string" string ListOptions
  | CreateAction "string \<times> string \<times> string" string XXX_object
  | UpdateAction "string \<times> string \<times> string" string XXX_object
  | UpdateSubresourceAction "string \<times> string \<times> string" string string XXX_object
  | DeleteActionWithOptions "string \<times> string \<times> string" string string string
  | DeleteCollectionAction "string \<times> string \<times> string" string ListOptions
  | PatchSubresourceAction "string \<times> string \<times> string" string string string string "string list"

text \<open>
  \<open>Invokes\<close> runs the reactors on an action and an object to fall back on; it answers with an object, which may be nil, and an error,
  which may be nil. The object may have any type, and the pointer in it may be nil. \<open>ExtractFromListOptions\<close> gives the
  label selector of the options, or nil, which selects everything.
\<close>

datatype runtime_obj = AnXXX "XXX_object option" | AnXXXList "item_list option" | OtherObject

record ('s, 'w) fake_client =
  Invokes :: "action \<Rightarrow> runtime_obj \<Rightarrow> 's \<Rightarrow> runtime_obj reply \<times> 's"
  InvokesWatch :: "action \<Rightarrow> 's \<Rightarrow> 'w reply \<times> 's"
  ExtractFromListOptions :: "ListOptions \<Rightarrow> (entries \<Rightarrow> bool) option"

text \<open>Nil is answered by nil; an object of another type fails the type assertion.\<close>

definition fake_object :: "('s, 'w) fake_client \<Rightarrow> action \<Rightarrow> 's \<Rightarrow> XXX_object reply outcome \<times> 's" where
  "fake_object f a s =
     (case Invokes f a (AnXXX (Some XXX0)) s of
        ((None, err), s') \<Rightarrow> (Ret (None, err), s')
      | ((Some obj, err), s') \<Rightarrow> (case obj of AnXXX p \<Rightarrow> (Ret (p, err), s') | _ \<Rightarrow> (Panic TypeAssertion, s')))"

definition Fake_Get :: "('s, 'w) fake_client \<Rightarrow> string \<Rightarrow> string \<Rightarrow> string \<Rightarrow> 's \<Rightarrow> XXX_object reply outcome \<times> 's" where
  "Fake_Get f ns name options = fake_object f (GetAction xxxsResource ns name)"

definition Fake_Watch :: "('s, 'w) fake_client \<Rightarrow> string \<Rightarrow> ListOptions \<Rightarrow> 's \<Rightarrow> 'w reply \<times> 's" where
  "Fake_Watch f ns opts = InvokesWatch f (WatchAction xxxsResource ns opts)"

definition Fake_Create :: "('s, 'w) fake_client \<Rightarrow> string \<Rightarrow> XXX_object \<Rightarrow> string \<Rightarrow> 's \<Rightarrow> XXX_object reply outcome \<times> 's" where
  "Fake_Create f ns x opts = fake_object f (CreateAction xxxsResource ns x)"

definition Fake_Update :: "('s, 'w) fake_client \<Rightarrow> string \<Rightarrow> XXX_object \<Rightarrow> string \<Rightarrow> 's \<Rightarrow> XXX_object reply outcome \<times> 's" where
  "Fake_Update f ns x opts = fake_object f (UpdateAction xxxsResource ns x)"

definition Fake_UpdateStatus :: "('s, 'w) fake_client \<Rightarrow> string \<Rightarrow> XXX_object \<Rightarrow> string \<Rightarrow> 's \<Rightarrow> XXX_object reply outcome \<times> 's" where
  "Fake_UpdateStatus f ns x opts = fake_object f (UpdateSubresourceAction xxxsResource ''status'' ns x)"

definition Fake_Delete :: "('s, 'w) fake_client \<Rightarrow> string \<Rightarrow> string \<Rightarrow> string \<Rightarrow> 's \<Rightarrow> go_error option \<times> 's" where
  "Fake_Delete f ns name opts s =
     (case Invokes f (DeleteActionWithOptions xxxsResource ns name opts) (AnXXX (Some XXX0)) s of ((_, err), s') \<Rightarrow> (err, s'))"

definition Fake_DeleteCollection :: "('s, 'w) fake_client \<Rightarrow> string \<Rightarrow> string \<Rightarrow> ListOptions \<Rightarrow> 's \<Rightarrow> go_error option \<times> 's" where
  "Fake_DeleteCollection f ns opts listOpts s =
     (let action = DeleteCollectionAction xxxsResource ns listOpts in
      case Invokes f action (AnXXXList (Some XXXList0)) s of ((_, err), s') \<Rightarrow> (err, s'))"

definition Fake_Patch :: "('s, 'w) fake_client \<Rightarrow> string \<Rightarrow> string \<Rightarrow> string \<Rightarrow> string \<Rightarrow> string \<Rightarrow> string list \<Rightarrow>
    's \<Rightarrow> XXX_object reply outcome \<times> 's" where
  "Fake_Patch f ns name pt data opts subresources = fake_object f (PatchSubresourceAction xxxsResource ns name pt data subresources)"

fun matching :: "(entries \<Rightarrow> bool) \<Rightarrow> XXX_object list \<Rightarrow> XXX_object list \<Rightarrow> XXX_object list" where
  "matching sel [] out = out"
| "matching sel (x # xs) out =
     (if sel (entries_of (om_Labels (x_ObjectMeta x))) then matching sel xs (out @ [x]) else matching sel xs out)"

definition Fake_List :: "('s, 'w) fake_client \<Rightarrow> string \<Rightarrow> ListOptions \<Rightarrow> 's \<Rightarrow> item_list reply outcome \<times> 's" where
  "Fake_List f ns opts s =
     (case Invokes f (ListAction xxxsResource xxxsKind ns opts) (AnXXXList (Some XXXList0)) s of
        ((None, err), s') \<Rightarrow> (Ret (None, err), s')
      | ((Some obj, err), s') \<Rightarrow>
          (let label = (case ExtractFromListOptions f opts of None \<Rightarrow> (\<lambda>_. True) | Some l \<Rightarrow> l) in
           case obj of
             AnXXXList (Some l) \<Rightarrow>
               (Ret (Some \<lparr>il_TypeMeta = TypeMeta0, il_ListMeta = il_ListMeta l, il_Items = matching label (il_Items l) []\<rparr>, err), s')
           | AnXXXList None \<Rightarrow> (Panic NilDereference, s')
           | _ \<Rightarrow> (Panic TypeAssertion, s')))"

text \<open>\<open>NewSimpleClientset\<close> adds the objects to a tracker in turn and panics on the first refusal.\<close>

fun track_all :: "('t \<Rightarrow> 'o \<Rightarrow> string + 't) \<Rightarrow> 't \<Rightarrow> 'o list \<Rightarrow> 't outcome" where
  "track_all add t [] = Ret t"
| "track_all add t (x # xs) = (case add t x of Inl err \<Rightarrow> Panic (PanicErr err) | Inr t' \<Rightarrow> track_all add t' xs)"

definition config_complete :: "('h, 'c, 'd) rest_env \<Rightarrow> rest_Config \<Rightarrow> bool" where
  "config_complete e c \<longleftrightarrow> setConfigDefaults e c = c"

subsection \<open>Operations of the API\<close>

text \<open>
  What a request and what an action ask for, in the terms of the API: \<open>request_operation\<close> reads a request by the conventions of the
  API (a name in the path or none, a watch parameter), \<open>action_operation\<close> reads an action by its documentation. Of the
  options of a list the selector and the timeout count; other options are not part of an operation.
\<close>

record operation =
  op_Verb :: string
  op_Resource :: string
  op_Namespace :: string
  op_Name :: "string option"
  op_SubResource :: "string list"
  op_PatchType :: string
  op_Body :: request_body
  op_List :: "(string \<times> int64 option) option"

definition list_part :: "ListOptions \<Rightarrow> (string \<times> int64 option) option" where
  "list_part opts = Some (lo_LabelSelector opts, lo_TimeoutSeconds opts)"

definition request_verb :: "rest_request \<Rightarrow> string" where
  "request_verb r =
     (case rr_Verb r of
        GET \<Rightarrow> (case rr_Name r of
            Some _ \<Rightarrow> ''get''
          | None \<Rightarrow> (case rr_Params r of ListParams opts \<Rightarrow> if lo_Watch opts then ''watch'' else ''list'' | _ \<Rightarrow> ''list''))
      | POST \<Rightarrow> ''create'' | PUT \<Rightarrow> ''update'' | PATCH pt \<Rightarrow> ''patch''
      | DELETE \<Rightarrow> if rr_Name r = None then ''deletecollection'' else ''delete'')"

definition request_operation :: "rest_request \<Rightarrow> operation" where
  "request_operation r = \<lparr>op_Verb = request_verb r, op_Resource = rr_Resource r, op_Namespace = rr_Namespace r, op_Name = rr_Name r,
     op_SubResource = rr_SubResource r, op_PatchType = (case rr_Verb r of PATCH pt \<Rightarrow> pt | _ \<Rightarrow> ''''), op_Body = rr_Body r,
     op_List = (case rr_Params r of ListParams opts \<Rightarrow> list_part opts | _ \<Rightarrow> None)\<rparr>"

definition operation0 :: "string \<Rightarrow> string \<times> string \<times> string \<Rightarrow> string \<Rightarrow> operation" where
  "operation0 v r ns = \<lparr>op_Verb = v, op_Resource = snd (snd r), op_Namespace = ns, op_Name = None, op_SubResource = [], op_PatchType = '''',
     op_Body = NoBody, op_List = None\<rparr>"

fun action_operation :: "action \<Rightarrow> operation" where
  "action_operation (GetAction r ns n) = (operation0 ''get'' r ns)\<lparr>op_Name := Some n\<rparr>"
| "action_operation (ListAction r k ns opts) = (operation0 ''list'' r ns)\<lparr>op_List := list_part opts\<rparr>"
| "action_operation (WatchAction r ns opts) = (operation0 ''watch'' r ns)\<lparr>op_List := list_part opts\<rparr>"
| "action_operation (CreateAction r ns x) = (operation0 ''create'' r ns)\<lparr>op_Body := ObjBody x\<rparr>"
| "action_operation (UpdateAction r ns x) = (operation0 ''update'' r ns)\<lparr>op_Name := Some (xxx_name x), op_Body := ObjBody x\<rparr>"
| "action_operation (UpdateSubresourceAction r sub ns x) =
     (operation0 ''update'' r ns)\<lparr>op_Name := Some (xxx_name x), op_SubResource := [sub], op_Body := ObjBody x\<rparr>"
| "action_operation (DeleteActionWithOptions r ns n opts) = (operation0 ''delete'' r ns)\<lparr>op_Name := Some n, op_Body := OptBody opts\<rparr>"
| "action_operation (DeleteCollectionAction r ns opts) = (operation0 ''deletecollection'' r ns)\<lparr>op_List := list_part opts\<rparr>"
| "action_operation (PatchSubresourceAction r ns n pt d subs) =
     (operation0 ''patch'' r ns)\<lparr>op_Name := Some n, op_SubResource := subs, op_PatchType := pt, op_Body := DataBody d\<rparr>"

text \<open>\<open>asks send m op\<close>: \<open>m\<close> sends one request by \<open>send\<close>, which asks for \<open>op\<close>.\<close>

definition asks :: "(rest_request \<Rightarrow> 'r) \<Rightarrow> 'r \<Rightarrow> operation \<Rightarrow> bool" where
  "asks send m op \<longleftrightarrow> (\<exists>r. m = send r \<and> request_operation r = op)"

definition selected :: "(entries \<Rightarrow> bool) option \<Rightarrow> XXX_object list \<Rightarrow> XXX_object list" where
  "selected label = filter (\<lambda>x. case label of None \<Rightarrow> True | Some sel \<Rightarrow> sel (entries_of (om_Labels (x_ObjectMeta x))))"

section \<open>Lemmas\<close>

lemma matching_filter:
  "matching sel xs out = out @ filter (\<lambda>x. sel (entries_of (om_Labels (x_ObjectMeta x)))) xs"
  by (induction xs arbitrary: out) auto

lemma asksI: "request_operation r = op \<Longrightarrow> asks send (send r) op"
  by (auto simp: asks_def)

lemmas operation_simps = request_operation_def request_verb_def operation0_def request0_def list_part_def xxxsResource_def

interpretation cfgd: defaulter "setConfigDefaults e" "config_complete e" for e
  by unfold_locales (simp_all add: config_complete_def setConfigDefaults_def Let_def)

text \<open>Listing with the fake client returns exactly the items the reactors answer with whose labels match the selector,
  in order, with the list metadata kept; a nil answer stays nil, the error is passed through, and listing changes nothing
  beyond what the reactors did.\<close>

lemma Fake_List_filters:
  "Fake_List f ns opts s =
     (case Invokes f (ListAction xxxsResource xxxsKind ns opts) (AnXXXList (Some XXXList0)) s of ((obj, err), s') \<Rightarrow>
        (case obj of
           None \<Rightarrow> Ret (None, err)
         | Some (AnXXXList (Some l)) \<Rightarrow> Ret (Some (XXXList0\<lparr>il_ListMeta := il_ListMeta l,
             il_Items := selected (ExtractFromListOptions f opts) (il_Items l)\<rparr>), err)
         | Some (AnXXXList None) \<Rightarrow> Panic NilDereference
         | Some _ \<Rightarrow> Panic TypeAssertion, s'))"
  by (auto simp: Fake_List_def Let_def matching_filter selected_def XXXList0_def split: prod.splits option.splits runtime_obj.splits)

section \<open>Properties\<close>


text \<open>Configuring a clientset: it is refused for its rate limits exactly when no limiter is given, QPS is positive and Burst is
  not; otherwise a limiter is made from QPS and Burst when needed, the API path, group version and serializer are forced,
  the user agent is kept if set, and applying the defaults twice is applying them once.\<close>

theorem clientset_config:
  assumes ua: "c1 = c\<lparr>cf_UserAgent := (if cf_UserAgent c = '''' then DefaultKubernetesUserAgent e else cf_UserAgent c)\<rparr>"
    and "HTTPClientFor e c1 = Inr h"
  shows "(if cf_RateLimiter c = None \<and> 0 < cf_QPS c \<and> sint (cf_Burst c) \<le> 0
      then \<exists>err. NewForConfig e c = Inl err \<and> NewForConfigOrDie e c = Panic (PanicErr (Error err))
      else \<exists>c2 c3. NewForConfig e c =
          (case (RESTClientForConfigAndClient e c2 h, NewDiscoveryClientForConfigAndClient e c3 h) of
             (Inl err, _) \<Rightarrow> Inl err
           | (Inr a, Inl err) \<Rightarrow> Inl err
           | (Inr a, Inr d) \<Rightarrow> Inr \<lparr>cs_appsV1beta1 = \<lparr>ac_restClient = Dyn (Some a)\<rparr>, cs_Discovery = d\<rparr>) \<and>
        cf_APIPath c2 = ''/apis'' \<and> cf_GroupVersion c2 = ''apps.k8sdemo.io/v1beta1'' \<and>
        (cf_UserAgent c \<noteq> '''' \<longrightarrow> cf_UserAgent c2 = cf_UserAgent c) \<and> cf_UserAgent c3 = cf_UserAgent c1 \<and>
        cf_RateLimiter c3 = (if cf_RateLimiter c = None \<and> 0 < cf_QPS c then Some (cf_QPS c, cf_Burst c) else cf_RateLimiter c) \<and>
        cf_RateLimiter c2 = cf_RateLimiter c3 \<and> config_complete e c2)"
proof -
  have c1: "(if cf_UserAgent c = '''' then c\<lparr>cf_UserAgent := DefaultKubernetesUserAgent e\<rparr> else c) = c1"
    by (simp add: ua)
  define c3 where "c3 = (if cf_RateLimiter c1 = None \<and> 0 < cf_QPS c1
      then c1\<lparr>cf_RateLimiter := Some (cf_QPS c1, cf_Burst c1)\<rparr> else c1)"
  define c2 where "c2 = setConfigDefaults e c3"
  have same: "cf_RateLimiter c1 = cf_RateLimiter c" "cf_QPS c1 = cf_QPS c" "cf_Burst c1 = cf_Burst c"
    by (simp_all add: ua)
  have new: "NewForConfig e c = NewForConfigAndClient e c1 h"
    using assms(2) by (simp add: NewForConfig_def Let_def c1)
  show ?thesis
  proof (cases "cf_RateLimiter c = None \<and> 0 < cf_QPS c \<and> sint (cf_Burst c) \<le> 0")
    case True
    then show ?thesis by (simp add: new NewForConfigOrDie_def NewForConfigAndClient_def same)
  next
    case False
    have "NewForConfig e c =
        (case (RESTClientForConfigAndClient e c2 h, NewDiscoveryClientForConfigAndClient e c3 h) of
           (Inl err, _) \<Rightarrow> Inl err
         | (Inr a, Inl err) \<Rightarrow> Inl err
         | (Inr a, Inr d) \<Rightarrow> Inr \<lparr>cs_appsV1beta1 = \<lparr>ac_restClient = Dyn (Some a)\<rparr>, cs_Discovery = d\<rparr>)"
      using False by (auto simp: new NewForConfigAndClient_def apps_NewForConfigAndClient_def Let_def same
          c2_def c3_def split: sum.splits)
    moreover have "cf_APIPath c2 = ''/apis''" "cf_GroupVersion c2 = ''apps.k8sdemo.io/v1beta1''"
      "cf_RateLimiter c2 = cf_RateLimiter c3" "cf_UserAgent c \<noteq> '''' \<longrightarrow> cf_UserAgent c2 = cf_UserAgent c"
      by (simp_all add: c2_def setConfigDefaults_def Let_def) (simp add: c3_def ua)
    moreover have "cf_UserAgent c3 = cf_UserAgent c1"
      "cf_RateLimiter c3 = (if cf_RateLimiter c = None \<and> 0 < cf_QPS c then Some (cf_QPS c, cf_Burst c) else cf_RateLimiter c)"
      by (simp_all add: c3_def same)
    moreover have "config_complete e c2" unfolding c2_def by (rule cfgd.dflt_complete)
    ultimately show ?thesis unfolding if_not_P [OF False]
      by (intro exI [of _ c2] exI [of _ c3] conjI)
  qed
qed

theorem clientset_config_witness:
  "\<exists>err. NewForConfig \<lparr>DefaultKubernetesUserAgent = ''go'', HTTPClientFor = (\<lambda>c. Inr ()),
      RESTClientForConfigAndClient = (\<lambda>c h. Inr c), NewDiscoveryClientForConfigAndClient = (\<lambda>c h. Inr c)\<rparr>
     \<lparr>cf_Host = ''h'', cf_UserAgent = ''me'', cf_QPS = 5, cf_Burst = 0, cf_RateLimiter = None, cf_GroupVersion = '''', cf_APIPath = '''',
      cf_Serializer = ''''\<rparr> = Inl err"
  using clientset_config [OF refl, of "\<lparr>DefaultKubernetesUserAgent = ''go'', HTTPClientFor = (\<lambda>c. Inr ()),
      RESTClientForConfigAndClient = (\<lambda>c h. Inr c), NewDiscoveryClientForConfigAndClient = (\<lambda>c h. Inr c)\<rparr>"
      "\<lparr>cf_Host = ''h'', cf_UserAgent = ''me'', cf_QPS = 5, cf_Burst = 0, cf_RateLimiter = None, cf_GroupVersion = '''', cf_APIPath = '''',
      cf_Serializer = ''''\<rparr>"]
  by auto

end
