(* ===== verification/Clientset_Access.thy ===== *)
theory Clientset_Access
  imports Clientset
begin

text \<open>
  How a program gets from a configuration to the methods of \<open>Clientset\<close>: the accessors of the generated clientset
  (\<open>clientset.go\<close>, \<open>typed/apps/v1beta1/apps_client.go\<close>, \<open>typed/apps/v1beta1/xxx.go\<close>) and of its fake
  (\<open>fake/clientset_generated.go\<close>, \<open>typed/apps/v1beta1/fake/fake_apps_client.go\<close>) under
  \<open>src/resourcedefinition/generated/clientset/versioned/\<close>.

  Receivers are pointers and may be nil. Some accessors check for that and some do not, and an interface that holds a nil
  pointer is not a nil interface, so both are kept apart (\<open>iface\<close>). The tracker and the reaction chains of the fake are
  the library's.
\<close>

section \<open>Definitions\<close>

subsection \<open>The typed client\<close>

definition apps_RESTClient :: "'c AppsV1beta1Client option \<Rightarrow> 'c iface" where
  "apps_RESTClient c = (case c of None \<Rightarrow> NilIface | Some cl \<Rightarrow> ac_restClient cl)"

definition apps_NewForConfigOrDie :: "('h, 'c, 'd) rest_env \<Rightarrow> rest_Config \<Rightarrow> 'c AppsV1beta1Client outcome" where
  "apps_NewForConfigOrDie e c = (case apps_NewForConfig e c of Inl err \<Rightarrow> Panic (PanicErr (Error err)) | Inr client \<Rightarrow> Ret client)"

record 'c xXXs =
  xx_client :: "'c iface"
  xx_ns :: string

definition newXXXs :: "'c AppsV1beta1Client option \<Rightarrow> string \<Rightarrow> 'c xXXs" where
  "newXXXs c namespace = \<lparr>xx_client = apps_RESTClient c, xx_ns = namespace\<rparr>"

definition apps_XXXs :: "'c AppsV1beta1Client option \<Rightarrow> string \<Rightarrow> 'c xXXs" where
  "apps_XXXs c namespace = newXXXs c namespace"

text \<open>The field of a nil clientset is dereferenced; the discovery client is asked for after a check.\<close>

definition AppsV1beta1 :: "('c AppsV1beta1Client, 'd) Clientset option \<Rightarrow> 'c AppsV1beta1Client option outcome" where
  "AppsV1beta1 c = (case c of None \<Rightarrow> Panic NilDereference | Some cs \<Rightarrow> Ret (Some (cs_appsV1beta1 cs)))"

definition Discovery :: "('c AppsV1beta1Client, 'd) Clientset option \<Rightarrow> 'd iface" where
  "Discovery c = (case c of None \<Rightarrow> NilIface | Some cs \<Rightarrow> Dyn (Some (cs_Discovery cs)))"

definition clientset_New :: "('c iface \<Rightarrow> 'd) \<Rightarrow> 'c iface \<Rightarrow> ('c AppsV1beta1Client, 'd) Clientset" where
  "clientset_New NewDiscoveryClient c = \<lparr>cs_appsV1beta1 = apps_New c, cs_Discovery = NewDiscoveryClient c\<rparr>"

text \<open>
  A method of the client calls the REST client through the interface. On a nil interface that fails; otherwise the pointer in
  the interface is the receiver, also when it is nil, and what becomes of that is up to the method.
\<close>

definition through :: "'c iface \<Rightarrow> ('c option \<Rightarrow> 'r outcome) \<Rightarrow> 'r outcome" where
  "through i m = (case i of NilIface \<Rightarrow> Panic NilDereference | Dyn receiver \<Rightarrow> m receiver)"

text \<open>
  A call of the method \<open>m\<close> of \<open>xXXs\<close>, one of \<open>xXXs_Get\<close> to \<open>xXXs_Patch\<close>. \<open>methods\<close> gives the methods of the REST client for
  a receiver, or the panic of the call.
\<close>

definition call_xXXs :: "('c option \<Rightarrow> ('s, 'w) rest_client outcome) \<Rightarrow> 'c xXXs \<Rightarrow> (('s, 'w) rest_client \<Rightarrow> string \<Rightarrow> 'r) \<Rightarrow> 'r outcome" where
  "call_xXXs methods x m =
     through (xx_client x) (\<lambda>receiver. case methods receiver of Panic p \<Rightarrow> Panic p | Ret c \<Rightarrow> Ret (m c (xx_ns x)))"

subsection \<open>The fake client\<close>

record 'f FakeAppsV1beta1 =
  fa_Fake :: 'f

record 'f FakeXXXs =
  fx_Fake :: "'f FakeAppsV1beta1"
  fx_ns :: string

definition FakeAppsV1beta1_XXXs :: "'f FakeAppsV1beta1 \<Rightarrow> string \<Rightarrow> 'f FakeXXXs" where
  "FakeAppsV1beta1_XXXs c namespace = \<lparr>fx_Fake = c, fx_ns = namespace\<rparr>"

text \<open>A variable of pointer type that was never set, returned as an interface.\<close>

definition FakeAppsV1beta1_RESTClient :: "'f FakeAppsV1beta1 \<Rightarrow> 'c iface" where
  "FakeAppsV1beta1_RESTClient c = (let ret = None in Dyn ret)"

record ('f, 'd, 't) FakeClientset =
  fc_Fake :: 'f
  fc_discovery :: 'd
  fc_tracker :: 't

record ('t, 'o, 'f, 'd, 'r, 'w) tracker_env =
  te_NewObjectTracker :: 't
  te_Add :: "'t \<Rightarrow> 'o \<Rightarrow> string + 't"
  te_ObjectReaction :: "'t \<Rightarrow> 'r"
  te_Watch :: "'t \<Rightarrow> string \<Rightarrow> string \<Rightarrow> go_error + 'w"
  te_Fake :: 'f
  te_AddReactor :: "string \<Rightarrow> string \<Rightarrow> 'r \<Rightarrow> 'f \<Rightarrow> 'f"
  te_AddWatchReactor :: "string \<Rightarrow> (string \<Rightarrow> string \<Rightarrow> bool \<times> 'w option \<times> go_error option) \<Rightarrow> 'f \<Rightarrow> 'f"
  te_FakeDiscovery :: "'f \<Rightarrow> 'd"

text \<open>The reaction to a watch, given the resource and the namespace of the action.\<close>

definition watch_reaction :: "('t, 'o, 'f, 'd, 'r, 'w) tracker_env \<Rightarrow> 't \<Rightarrow> string \<Rightarrow> string \<Rightarrow> bool \<times> 'w option \<times> go_error option" where
  "watch_reaction e tr gvr ns =
     (case te_Watch e tr gvr ns of Inl err \<Rightarrow> (False, None, Some err) | Inr watch \<Rightarrow> (True, Some watch, None))"

definition NewSimpleClientset :: "('t, 'o, 'f, 'd, 'r, 'w) tracker_env \<Rightarrow> 'o list \<Rightarrow> ('f, 'd, 't) FakeClientset outcome" where
  "NewSimpleClientset e objects =
     (case track_all (te_Add e) (te_NewObjectTracker e) objects of
        Panic p \<Rightarrow> Panic p
      | Ret tr \<Rightarrow>
          (let f1 = te_AddReactor e ''*'' ''*'' (te_ObjectReaction e tr) (te_Fake e);
               f2 = te_AddWatchReactor e ''*'' (watch_reaction e tr) f1 in
           Ret \<lparr>fc_Fake = f2, fc_discovery = te_FakeDiscovery e f2, fc_tracker = tr\<rparr>))"

definition Fake_Discovery :: "('f, 'd, 't) FakeClientset \<Rightarrow> 'd" where
  "Fake_Discovery c = fc_discovery c"

definition Tracker :: "('f, 'd, 't) FakeClientset \<Rightarrow> 't" where
  "Tracker c = fc_tracker c"

definition Fake_AppsV1beta1 :: "('f, 'd, 't) FakeClientset \<Rightarrow> 'f FakeAppsV1beta1" where
  "Fake_AppsV1beta1 c = \<lparr>fa_Fake = fc_Fake c\<rparr>"

subsection \<open>An example\<close>

definition silent_client :: "(unit, unit) rest_client" where
  "silent_client = \<lparr>Into = (\<lambda>r x s. ((x, None), s)), IntoList = (\<lambda>r l s. ((l, None), s)), Do_Error = (\<lambda>r s. (None, s)),
     Do_Watch = (\<lambda>r s. ((None, None), s))\<rparr>"

definition wired_env :: "(unit, rest_Config, rest_Config) rest_env" where
  "wired_env = \<lparr>DefaultKubernetesUserAgent = ''go'', HTTPClientFor = (\<lambda>c. Inr ()),
     RESTClientForConfigAndClient = (\<lambda>c h. Inr c), NewDiscoveryClientForConfigAndClient = (\<lambda>c h. Inr c)\<rparr>"

definition wired_config :: rest_Config where
  "wired_config = \<lparr>cf_Host = ''https://api'', cf_UserAgent = '''', cf_QPS = 5, cf_Burst = 10, cf_RateLimiter = None, cf_GroupVersion = '''',
     cf_APIPath = '''', cf_Serializer = ''''\<rparr>"

text \<open>The configuration of the REST client of XXX and of the discovery client, as the program sees it.\<close>

definition shared_config :: "('h, 'c, 'd) rest_env \<Rightarrow> rest_Config \<Rightarrow> rest_Config" where
  "shared_config e c = c\<lparr>cf_UserAgent := (if cf_UserAgent c = '''' then DefaultKubernetesUserAgent e else cf_UserAgent c),
     cf_RateLimiter := (if cf_RateLimiter c = None \<and> 0 < cf_QPS c then Some (cf_QPS c, cf_Burst c) else cf_RateLimiter c)\<rparr>"

definition group_config :: "rest_Config \<Rightarrow> rest_Config" where
  "group_config c = c\<lparr>cf_GroupVersion := ''apps.k8sdemo.io/v1beta1'', cf_APIPath := ''/apis'', cf_Serializer := ''WithoutConversion''\<rparr>"

section \<open>Lemmas\<close>

lemmas access_defs = AppsV1beta1_def Discovery_def apps_XXXs_def newXXXs_def apps_RESTClient_def call_xXXs_def through_def

lemma config_built:
  assumes "NewForConfig e c = Inr cs"
  shows "\<exists>h r. RESTClientForConfigAndClient e (group_config (shared_config e c)) h = Inr r \<and>
    NewDiscoveryClientForConfigAndClient e (shared_config e c) h = Inr (cs_Discovery cs) \<and>
    cs_appsV1beta1 cs = \<lparr>ac_restClient = Dyn (Some r)\<rparr> \<and> (cf_RateLimiter c = None \<and> 0 < cf_QPS c \<longrightarrow> 0 < sint (cf_Burst c)) \<and>
    HTTPClientFor e (c\<lparr>cf_UserAgent := cf_UserAgent (shared_config e c)\<rparr>) = Inr h"
proof -
  let ?c = "c\<lparr>cf_UserAgent := (if cf_UserAgent c = '''' then DefaultKubernetesUserAgent e else cf_UserAgent c)\<rparr>"
  have c1: "(if cf_UserAgent c = '''' then c\<lparr>cf_UserAgent := DefaultKubernetesUserAgent e\<rparr> else c) = ?c" by simp
  obtain h where h: "HTTPClientFor e ?c = Inr h" using assms by (auto simp: NewForConfig_def c1 Let_def split: sum.splits)
  have new: "NewForConfigAndClient e ?c h = Inr cs" using assms h by (simp add: NewForConfig_def c1 Let_def)
  show ?thesis
  proof (cases "cf_RateLimiter c = None \<and> 0 < cf_QPS c \<and> sint (cf_Burst c) \<le> 0")
    case True
    then show ?thesis using new by (simp add: NewForConfigAndClient_def)
  next
    case False
    have shared: "(if cf_RateLimiter ?c = None \<and> 0 < cf_QPS ?c then ?c\<lparr>cf_RateLimiter := Some (cf_QPS ?c, cf_Burst ?c)\<rparr> else ?c) = shared_config e c"
      by (simp add: shared_config_def)
    have group: "setConfigDefaults e (shared_config e c) = group_config (shared_config e c)"
      by (simp add: setConfigDefaults_def group_config_def shared_config_def Let_def)
    have "(case apps_NewForConfigAndClient e (shared_config e c) h of
          Inl err \<Rightarrow> Inl err
        | Inr apps \<Rightarrow> (case NewDiscoveryClientForConfigAndClient e (shared_config e c) h of
            Inl err \<Rightarrow> Inl err | Inr d \<Rightarrow> Inr \<lparr>cs_appsV1beta1 = apps, cs_Discovery = d\<rparr>)) = Inr cs"
      using new False unfolding NewForConfigAndClient_def Let_def shared by (auto split: if_splits)
    moreover have "HTTPClientFor e (c\<lparr>cf_UserAgent := cf_UserAgent (shared_config e c)\<rparr>) = Inr h"
      using h by (simp add: shared_config_def)
    ultimately show ?thesis using False
      by (auto simp: apps_NewForConfigAndClient_def group split: sum.splits)
  qed
qed

section \<open>Properties\<close>

text \<open>C35. What a clientset sends goes where its configuration says. A clientset that \<open>NewForConfig\<close> returns holds a REST client and a
  discovery client made with one HTTP client from the given configuration, with the same host and everything else of it except:
  the user agent, if it was empty, a rate limiter made from QPS and Burst, when none is given and QPS is positive (Burst is then
  positive), and for the REST client the group and version of XXX under \<open>/apis\<close> and the serializer. Every method reached through
  \<open>AppsV1beta1().XXXs(ns)\<close> is called with that REST client as its receiver and with that namespace. On a nil clientset \<open>Discovery\<close>
  gives a nil interface while \<open>AppsV1beta1\<close> panics; a nil group client hands its methods a nil interface, so they panic. The fake never has
  a REST client, yet what its \<open>RESTClient\<close> returns is not a nil interface: a check against nil lets it through, and the methods
  are then called on a nil pointer.\<close>

theorem client_wiring:
  assumes "NewForConfig e c = Inr cs"
  shows "(\<exists>h r apps. HTTPClientFor e (c\<lparr>cf_UserAgent := cf_UserAgent (shared_config e c)\<rparr>) = Inr h \<and>
      RESTClientForConfigAndClient e (group_config (shared_config e c)) h = Inr r \<and>
      cf_Host (group_config (shared_config e c)) = cf_Host c \<and>
      (cf_RateLimiter c = None \<and> 0 < cf_QPS c \<longrightarrow> 0 < sint (cf_Burst c)) \<and>
      NewDiscoveryClientForConfigAndClient e (shared_config e c) h = Inr (cs_Discovery cs) \<and>
      Discovery (Some cs) = Dyn (Some (cs_Discovery cs)) \<and>
      AppsV1beta1 (Some cs) = Ret apps \<and>
      (\<forall>ns methods m. call_xXXs methods (apps_XXXs apps ns) m =
         (case methods (Some r) of Panic p \<Rightarrow> Panic p | Ret client \<Rightarrow> Ret (m client ns)))) \<and>
    Discovery (None :: ('b AppsV1beta1Client, 'g) Clientset option) = NilIface \<and>
    AppsV1beta1 (None :: ('b AppsV1beta1Client, 'g) Clientset option) = Panic NilDereference \<and>
    (\<forall>methods m. call_xXXs methods (apps_XXXs None ns) m = Panic NilDereference) \<and>
    FakeAppsV1beta1_RESTClient f \<noteq> NilIface \<and> (\<forall>m. through (FakeAppsV1beta1_RESTClient f) m = m None)"
proof -
  from config_built [OF assms] obtain h r where
      "HTTPClientFor e (c\<lparr>cf_UserAgent := cf_UserAgent (shared_config e c)\<rparr>) = Inr h \<and>
      RESTClientForConfigAndClient e (group_config (shared_config e c)) h = Inr r \<and>
      NewDiscoveryClientForConfigAndClient e (shared_config e c) h = Inr (cs_Discovery cs) \<and>
      (cf_RateLimiter c = None \<and> 0 < cf_QPS c \<longrightarrow> 0 < sint (cf_Burst c))"
    and r: "cs_appsV1beta1 cs = \<lparr>ac_restClient = Dyn (Some r)\<rparr>"
    by blast
  moreover have "\<forall>ns methods m. call_xXXs methods (apps_XXXs (Some \<lparr>ac_restClient = Dyn (Some r)\<rparr>) ns) m =
      (case methods (Some r) of Panic p \<Rightarrow> Panic p | Ret client \<Rightarrow> Ret (m client ns))"
    by (simp add: access_defs split: outcome.splits)
  ultimately show ?thesis
    by (simp add: AppsV1beta1_def Discovery_def r) (auto simp: access_defs FakeAppsV1beta1_RESTClient_def group_config_def shared_config_def)
qed

theorem client_wiring_witness:
  "\<exists>cs apps. NewForConfig wired_env wired_config = Inr cs \<and> AppsV1beta1 (Some cs) = Ret apps \<and>
     call_xXXs (\<lambda>receiver. Ret silent_client) (apps_XXXs apps ''default'') (\<lambda>client ns. xXXs_Get client ns ''x'' '''' ()) =
       Ret (xXXs_Get silent_client ''default'' ''x'' '''' ())"
proof -
  obtain cs where cs: "NewForConfig wired_env wired_config = Inr cs"
    by (simp add: NewForConfig_def NewForConfigAndClient_def apps_NewForConfigAndClient_def Let_def wired_env_def wired_config_def)
  from client_wiring [OF cs, THEN conjunct1] obtain apps r where "AppsV1beta1 (Some cs) = Ret apps"
      and call: "\<forall>ns methods m. call_xXXs methods (apps_XXXs apps ns) m =
         (case methods (Some r) of Panic p \<Rightarrow> Panic p | Ret (client :: (unit, unit) rest_client) \<Rightarrow>
            Ret (m client ns :: (XXX_object \<times> go_error option) \<times> unit))"
    by blast
  with cs call show ?thesis by auto
qed

end
