(* ===== verification/Scheme_Registration.thy ===== *)
theory Scheme_Registration
  imports Clientset Pod_Operator "HOL-Library.Sublist"
begin

text \<open>
  What the programs register with the schemes of the API machinery: the group and version of XXX with its types, defaulting
  functions and conversions (\<open>register.go\<close>, \<open>defaults.go\<close>, \<open>zz_generated.defaults.go\<close> and \<open>zz_generated.conversion.go\<close> under
  \<open>src/resourcedefinition/apps/v1beta1/\<close>), the schemes of the clientset and of its fake, the schemes of the two controller
  managers, and the scheme of the webhook server.

  A scheme belongs to the library. It is a state \<open>'s\<close> with the operations the code calls and three observers, in the record
  \<open>scheme_env\<close>; the locale \<open>scheme_library\<close> states what is documented about them. Registered functions are functions on
  untyped objects (\<open>api_obj\<close>), which assert the type they expect, as the closures of the generated code do.
\<close>

section \<open>Definitions\<close>

subsection \<open>Types and objects\<close>

datatype go_type = GoType string string

record GroupVersion =
  gv_Group :: string
  gv_Version :: string

definition WithKind :: "GroupVersion \<Rightarrow> string \<Rightarrow> GroupVersionKind" where
  "WithKind gv kind = \<lparr>gvk_Group = gv_Group gv, gvk_Version = gv_Version gv, gvk_Kind = kind\<rparr>"

fun type_name :: "go_type \<Rightarrow> string" where
  "type_name (GoType package name) = name"

datatype api_obj =
    ObjXXX hXXX | ObjXXXList XXXList | ObjXXXSpec XXXSpec | ObjXXXStatus XXXStatus
  | ObjApps "hObjectMeta apps_XXX" | ObjAppsList apps_XXXList | ObjAppsSpec apps_XXXSpec | ObjAppsStatus apps_XXXStatus

fun type_of :: "api_obj \<Rightarrow> go_type" where
  "type_of (ObjXXX _) = GoType ''apps/v1beta1'' ''XXX''"
| "type_of (ObjXXXList _) = GoType ''apps/v1beta1'' ''XXXList''"
| "type_of (ObjXXXSpec _) = GoType ''apps/v1beta1'' ''XXXSpec''"
| "type_of (ObjXXXStatus _) = GoType ''apps/v1beta1'' ''XXXStatus''"
| "type_of (ObjApps _) = GoType ''apps'' ''XXX''"
| "type_of (ObjAppsList _) = GoType ''apps'' ''XXXList''"
| "type_of (ObjAppsSpec _) = GoType ''apps'' ''XXXSpec''"
| "type_of (ObjAppsStatus _) = GoType ''apps'' ''XXXStatus''"

type_synonym 'c store = "('c, hXXX) heap"
type_synonym 'c defaulting = "'c store \<Rightarrow> api_obj \<Rightarrow> ('c store \<times> api_obj) outcome"
type_synonym conversion = "api_obj \<Rightarrow> api_obj \<Rightarrow> (go_error option \<times> api_obj) outcome"

subsection \<open>The library\<close>

text \<open>A registration function changes a scheme and may report an error or panic.\<close>

type_synonym 's registration = "'s \<Rightarrow> (go_error option \<times> 's) outcome"

record ('s, 'c) scheme_env =
  NewScheme :: 's
  AddKnownTypes :: "'s \<Rightarrow> GroupVersion \<Rightarrow> go_type list \<Rightarrow> 's outcome"
  AddToGroupVersion :: "'s \<Rightarrow> GroupVersion \<Rightarrow> 's"
  AddTypeDefaultingFunc :: "'s \<Rightarrow> go_type \<Rightarrow> 'c defaulting \<Rightarrow> 's"
  AddGeneratedConversionFunc :: "'s \<Rightarrow> go_type \<Rightarrow> go_type \<Rightarrow> conversion \<Rightarrow> go_error option \<times> 's"
  SchemeBuilder_AddToScheme :: "'s registration list \<Rightarrow> 's registration"
  Builder_AddToScheme :: "GroupVersion \<Rightarrow> go_type list \<Rightarrow> 's registration"
  clientgoscheme_AddToScheme :: "'s registration"
  corev1_AddToScheme :: "'s registration"
  admissionregistrationv1_AddToScheme :: "'s registration"
  appsv1_AddToScheme :: "'s registration"
  recognizes :: "'s \<Rightarrow> GroupVersionKind \<Rightarrow> go_type option"
  default_func :: "'s \<Rightarrow> go_type \<Rightarrow> 'c defaulting option"
  conversion_func :: "'s \<Rightarrow> go_type \<Rightarrow> go_type \<Rightarrow> conversion option"

definition Must :: "(go_error option \<times> 's) outcome \<Rightarrow> 's outcome" where
  "Must r = (case r of Panic p \<Rightarrow> Panic p | Ret (Some err, s) \<Rightarrow> Panic (PanicErr (Error err)) | Ret (None, s) \<Rightarrow> Ret s)"

subsection \<open>The group of XXX\<close>

definition GroupName :: string where
  "GroupName = ''apps.k8sdemo.io''"

definition SchemeGroupVersion :: GroupVersion where
  "SchemeGroupVersion = \<lparr>gv_Group = GroupName, gv_Version = ''v1beta1''\<rparr>"

text \<open>The group and the resource; the version is dropped.\<close>

definition Resource :: "string \<Rightarrow> string \<times> string" where
  "Resource resource = (gv_Group SchemeGroupVersion, resource)"

definition addKnownTypes :: "('s, 'c) scheme_env \<Rightarrow> 's registration" where
  "addKnownTypes e scheme =
     (case AddKnownTypes e scheme SchemeGroupVersion [GoType ''apps/v1beta1'' ''XXX'', GoType ''apps/v1beta1'' ''XXXList''] of
        Panic p \<Rightarrow> Panic p
      | Ret s \<Rightarrow> Ret (None, AddToGroupVersion e s SchemeGroupVersion))"

definition default_XXX :: "'c defaulting" where
  "default_XXX h obj = (case obj of ObjXXX x \<Rightarrow> Ret (h, ObjXXX (SetObjectDefaults_XXX x)) | _ \<Rightarrow> Panic TypeAssertion)"

definition default_XXXList :: "'c defaulting" where
  "default_XXXList h obj = (case obj of ObjXXXList l \<Rightarrow> Ret (SetObjectDefaults_XXXList h l, ObjXXXList l) | _ \<Rightarrow> Panic TypeAssertion)"

definition RegisterDefaults :: "('s, 'c) scheme_env \<Rightarrow> 's registration" where
  "RegisterDefaults e scheme =
     (let s1 = AddTypeDefaultingFunc e scheme (GoType ''apps/v1beta1'' ''XXX'') default_XXX;
          s2 = AddTypeDefaultingFunc e s1 (GoType ''apps/v1beta1'' ''XXXList'') default_XXXList in
      Ret (None, s2))"

definition addDefaultingFuncs :: "('s, 'c) scheme_env \<Rightarrow> 's registration" where
  "addDefaultingFuncs e scheme = RegisterDefaults e scheme"

text \<open>The closures that \<open>RegisterConversions\<close> registers, with the types they are registered for.\<close>

definition conversions :: "(go_type \<times> go_type \<times> conversion) list" where
  "conversions =
     [(GoType ''apps/v1beta1'' ''XXX'', GoType ''apps'' ''XXX'', \<lambda>a b. case (a, b) of
         (ObjXXX x, ObjApps y) \<Rightarrow> Ret (apsnd ObjApps (Convert_v1beta1_XXX_To_apps_XXX x y)) | _ \<Rightarrow> Panic TypeAssertion),
      (GoType ''apps'' ''XXX'', GoType ''apps/v1beta1'' ''XXX'', \<lambda>a b. case (a, b) of
         (ObjApps x, ObjXXX y) \<Rightarrow> Ret (apsnd ObjXXX (Convert_apps_XXX_To_v1beta1_XXX x y)) | _ \<Rightarrow> Panic TypeAssertion),
      (GoType ''apps/v1beta1'' ''XXXList'', GoType ''apps'' ''XXXList'', \<lambda>a b. case (a, b) of
         (ObjXXXList x, ObjAppsList y) \<Rightarrow> Ret (apsnd ObjAppsList (Convert_v1beta1_XXXList_To_apps_XXXList x y)) | _ \<Rightarrow> Panic TypeAssertion),
      (GoType ''apps'' ''XXXList'', GoType ''apps/v1beta1'' ''XXXList'', \<lambda>a b. case (a, b) of
         (ObjAppsList x, ObjXXXList y) \<Rightarrow> Ret (apsnd ObjXXXList (Convert_apps_XXXList_To_v1beta1_XXXList x y)) | _ \<Rightarrow> Panic TypeAssertion),
      (GoType ''apps/v1beta1'' ''XXXSpec'', GoType ''apps'' ''XXXSpec'', \<lambda>a b. case (a, b) of
         (ObjXXXSpec x, ObjAppsSpec y) \<Rightarrow> Ret (apsnd ObjAppsSpec (Convert_v1beta1_XXXSpec_To_apps_XXXSpec x y)) | _ \<Rightarrow> Panic TypeAssertion),
      (GoType ''apps'' ''XXXSpec'', GoType ''apps/v1beta1'' ''XXXSpec'', \<lambda>a b. case (a, b) of
         (ObjAppsSpec x, ObjXXXSpec y) \<Rightarrow> Ret (apsnd ObjXXXSpec (Convert_apps_XXXSpec_To_v1beta1_XXXSpec x y)) | _ \<Rightarrow> Panic TypeAssertion),
      (GoType ''apps/v1beta1'' ''XXXStatus'', GoType ''apps'' ''XXXStatus'', \<lambda>a b. case (a, b) of
         (ObjXXXStatus x, ObjAppsStatus y) \<Rightarrow> Ret (apsnd ObjAppsStatus (Convert_v1beta1_XXXStatus_To_apps_XXXStatus x y)) | _ \<Rightarrow> Panic TypeAssertion),
      (GoType ''apps'' ''XXXStatus'', GoType ''apps/v1beta1'' ''XXXStatus'', \<lambda>a b. case (a, b) of
         (ObjAppsStatus x, ObjXXXStatus y) \<Rightarrow> Ret (apsnd ObjXXXStatus (Convert_apps_XXXStatus_To_v1beta1_XXXStatus x y)) | _ \<Rightarrow> Panic TypeAssertion)]"

fun register_conversions :: "('s, 'c) scheme_env \<Rightarrow> (go_type \<times> go_type \<times> conversion) list \<Rightarrow> 's \<Rightarrow> go_error option \<times> 's" where
  "register_conversions e [] s = (None, s)"
| "register_conversions e ((a, b, f) # cs) s =
     (case AddGeneratedConversionFunc e s a b f of (Some err, s') \<Rightarrow> (Some err, s') | (None, s') \<Rightarrow> register_conversions e cs s')"

definition RegisterConversions :: "('s, 'c) scheme_env \<Rightarrow> 's registration" where
  "RegisterConversions e s = Ret (register_conversions e conversions s)"

text \<open>
  The builder of the package is a variable with two functions to which the \<open>init\<close> function of the generated conversions
  adds a third. \<open>AddToScheme\<close> is bound to a pointer to that variable and so runs what the builder holds when it is called.
\<close>

definition v1beta1_SchemeBuilder :: "('s, 'c) scheme_env \<Rightarrow> 's registration list" where
  "v1beta1_SchemeBuilder e = [addKnownTypes e, addDefaultingFuncs e]"

definition v1beta1_init :: "('s, 'c) scheme_env \<Rightarrow> 's registration list \<Rightarrow> 's registration list" where
  "v1beta1_init e localSchemeBuilder = localSchemeBuilder @ [RegisterConversions e]"

definition v1beta1_AddToScheme :: "('s, 'c) scheme_env \<Rightarrow> 's registration" where
  "v1beta1_AddToScheme e = SchemeBuilder_AddToScheme e (v1beta1_init e (v1beta1_SchemeBuilder e))"

subsection \<open>The schemes of the programs\<close>

definition clientset_AddToScheme :: "('s, 'c) scheme_env \<Rightarrow> 's registration" where
  "clientset_AddToScheme e = SchemeBuilder_AddToScheme e [v1beta1_AddToScheme e]"

definition clientset_scheme :: "('s, 'c) scheme_env \<Rightarrow> 's outcome" where
  "clientset_scheme e = Must (clientset_AddToScheme e (AddToGroupVersion e (NewScheme e) \<lparr>gv_Group = '''', gv_Version = ''v1''\<rparr>))"

definition fake_AddToScheme :: "('s, 'c) scheme_env \<Rightarrow> 's registration" where
  "fake_AddToScheme e = SchemeBuilder_AddToScheme e [v1beta1_AddToScheme e]"

definition fake_scheme :: "('s, 'c) scheme_env \<Rightarrow> 's outcome" where
  "fake_scheme e = Must (fake_AddToScheme e (AddToGroupVersion e (NewScheme e) \<lparr>gv_Group = '''', gv_Version = ''v1''\<rparr>))"

definition pod_GroupVersion :: GroupVersion where
  "pod_GroupVersion = \<lparr>gv_Group = ''apps.mycompany.com'', gv_Version = ''v1''\<rparr>"

definition pod_registered :: "go_type list" where
  "pod_registered = [GoType ''pod-operator/api/v1'' ''PodManager'', GoType ''pod-operator/api/v1'' ''PodManagerList'']"

definition pod_scheme :: "('s, 'c) scheme_env \<Rightarrow> 's outcome" where
  "pod_scheme e =
     (case Must (clientgoscheme_AddToScheme e (NewScheme e)) of
        Panic p \<Rightarrow> Panic p
      | Ret s \<Rightarrow> Must (Builder_AddToScheme e pod_GroupVersion pod_registered s))"

definition calc_GroupVersion :: GroupVersion where
  "calc_GroupVersion = \<lparr>gv_Group = ''math.superproj.com'', gv_Version = ''v1''\<rparr>"

definition calc_registered :: "go_type list" where
  "calc_registered = [GoType ''using-kubebuilder/api/v1'' ''Calculate'', GoType ''using-kubebuilder/api/v1'' ''CalculateList'']"

definition calc_scheme :: "('s, 'c) scheme_env \<Rightarrow> 's outcome" where
  "calc_scheme e =
     (case Must (clientgoscheme_AddToScheme e (NewScheme e)) of
        Panic p \<Rightarrow> Panic p
      | Ret s \<Rightarrow> Must (Builder_AddToScheme e calc_GroupVersion calc_registered s))"

text \<open>The webhook server drops the errors of its registrations.\<close>

fun register_ignoring :: "'s registration list \<Rightarrow> 's \<Rightarrow> 's outcome" where
  "register_ignoring [] s = Ret s"
| "register_ignoring (f # fs) s = (case f s of Panic p \<Rightarrow> Panic p | Ret (_, s') \<Rightarrow> register_ignoring fs s')"

definition webhook_scheme :: "('s, 'c) scheme_env \<Rightarrow> 's outcome" where
  "webhook_scheme e = register_ignoring [corev1_AddToScheme e, admissionregistrationv1_AddToScheme e, appsv1_AddToScheme e] (NewScheme e)"

subsection \<open>What is documented about the library\<close>

text \<open>The kinds that \<open>metav1.AddToGroupVersion\<close> adds to a group and version, or as unversioned types.\<close>

definition metav1_kinds :: "string list" where
  "metav1_kinds = [''WatchEvent'', ''ListOptions'', ''GetOptions'', ''DeleteOptions'', ''CreateOptions'', ''UpdateOptions'', ''PatchOptions'',
     ''Status'', ''APIVersions'', ''APIGroupList'', ''APIGroup'', ''APIResourceList'']"

text \<open>The groups of Kubernetes itself have no dot in their name, or end in \<open>.k8s.io\<close>.\<close>

definition builtin_group :: "string \<Rightarrow> bool" where
  "builtin_group g \<longleftrightarrow> CHR ''.'' \<notin> set g \<or> suffix ''.k8s.io'' g"

text \<open>The kind of a type is its name.\<close>

definition with_types :: "GroupVersion \<Rightarrow> go_type list \<Rightarrow> (GroupVersionKind \<Rightarrow> go_type option) \<Rightarrow> GroupVersionKind \<Rightarrow> go_type option" where
  "with_types gv ts r g = (case find (\<lambda>t. g = WithKind gv (type_name t)) ts of Some t \<Rightarrow> Some t | None \<Rightarrow> r g)"

text \<open>Types can be added under a version whose kinds are not taken by other types.\<close>

definition addable :: "GroupVersion \<Rightarrow> go_type list \<Rightarrow> (GroupVersionKind \<Rightarrow> go_type option) \<Rightarrow> bool" where
  "addable gv ts r \<longleftrightarrow> gv_Version gv \<noteq> '''' \<and> distinct (map type_name ts) \<and>
     (\<forall>t\<in>set ts. r (WithKind gv (type_name t)) = None \<or> r (WithKind gv (type_name t)) = Some t)"

definition put_conversion :: "go_type \<times> go_type \<times> conversion \<Rightarrow> (go_type \<Rightarrow> go_type \<Rightarrow> conversion option) \<Rightarrow>
    go_type \<Rightarrow> go_type \<Rightarrow> conversion option" where
  "put_conversion x m = (case x of (a, b, c) \<Rightarrow> m(a := (m a)(b \<mapsto> c)))"

locale scheme_library =
  fixes e :: "('s, 'c) scheme_env"
  assumes new_scheme: "recognizes e (NewScheme e) g = None"
    and add_known: "addable gv ts (recognizes e s) \<Longrightarrow>
      \<exists>s'. AddKnownTypes e s gv ts = Ret s' \<and> recognizes e s' = with_types gv ts (recognizes e s) \<and>
        default_func e s' = default_func e s"
    and add_group: "gvk_Kind g \<notin> set metav1_kinds \<Longrightarrow> recognizes e (AddToGroupVersion e s gv) g = recognizes e s g"
    and add_group_default: "default_func e (AddToGroupVersion e s gv) = default_func e s"
    and add_default: "recognizes e (AddTypeDefaultingFunc e s t f) = recognizes e s \<and>
      default_func e (AddTypeDefaultingFunc e s t f) = (default_func e s)(t \<mapsto> f) \<and>
      conversion_func e (AddTypeDefaultingFunc e s t f) = conversion_func e s"
    and add_conversion: "\<exists>s'. AddGeneratedConversionFunc e s a b c = (None, s') \<and> recognizes e s' = recognizes e s \<and>
      default_func e s' = default_func e s \<and> conversion_func e s' = put_conversion (a, b, c) (conversion_func e s)"
    and builder_none: "SchemeBuilder_AddToScheme e [] s = Ret (None, s)"
    and builder_some: "SchemeBuilder_AddToScheme e (r # rs) s =
      (case r s of Panic p \<Rightarrow> Panic p | Ret (Some err, s') \<Rightarrow> Ret (Some err, s') | Ret (None, s') \<Rightarrow> SchemeBuilder_AddToScheme e rs s')"
    and controller_builder: "addable gv ts (recognizes e s) \<Longrightarrow> \<exists>s'. Builder_AddToScheme e gv ts s = Ret (None, s') \<and>
      (\<forall>g. gvk_Kind g \<notin> set metav1_kinds \<longrightarrow> recognizes e s' g = with_types gv ts (recognizes e s) g)"
    and clientgo: "\<exists>s'. clientgoscheme_AddToScheme e s = Ret (None, s') \<and>
      (\<forall>g. \<not> builtin_group (gvk_Group g) \<longrightarrow> recognizes e s' g = recognizes e s g)"
    and api_group: "(r, grp) \<in> {(corev1_AddToScheme e, ''''), (admissionregistrationv1_AddToScheme e, ''admissionregistration.k8s.io''),
        (appsv1_AddToScheme e, ''apps'')} \<Longrightarrow>
      \<exists>err s'. r s = Ret (err, s') \<and> (\<forall>g. gvk_Group g \<noteq> grp \<and> gvk_Kind g \<notin> set metav1_kinds \<longrightarrow> recognizes e s' g = recognizes e s g)"
begin

text \<open>What \<open>AddToScheme\<close> of the group of XXX leaves in a scheme.\<close>

lemma register_conversions_ok:
  "\<exists>s'. register_conversions e cs s = (None, s') \<and> recognizes e s' = recognizes e s \<and> default_func e s' = default_func e s \<and>
     conversion_func e s' = fold put_conversion cs (conversion_func e s)"
proof (induction cs arbitrary: s)
  case (Cons x cs)
  obtain a b c where x: "x = (a, b, c)" by (cases x)
  obtain s' where s': "AddGeneratedConversionFunc e s a b c = (None, s')" "recognizes e s' = recognizes e s"
      "default_func e s' = default_func e s" "conversion_func e s' = put_conversion (a, b, c) (conversion_func e s)"
    using add_conversion by blast
  with Cons.IH [of s'] x show ?case by auto
qed simp

lemma v1beta1_added:
  assumes "addable SchemeGroupVersion [GoType ''apps/v1beta1'' ''XXX'', GoType ''apps/v1beta1'' ''XXXList''] (recognizes e s)"
  shows "\<exists>s' c. v1beta1_AddToScheme e s = Ret (None, s') \<and>
    (\<forall>g. gvk_Kind g \<notin> set metav1_kinds \<longrightarrow> recognizes e s' g =
       with_types SchemeGroupVersion [GoType ''apps/v1beta1'' ''XXX'', GoType ''apps/v1beta1'' ''XXXList''] (recognizes e s) g) \<and>
    default_func e s' = (default_func e s)(GoType ''apps/v1beta1'' ''XXX'' \<mapsto> default_XXX, GoType ''apps/v1beta1'' ''XXXList'' \<mapsto> default_XXXList) \<and>
    conversion_func e s' = fold put_conversion conversions c"
proof -
  obtain t where t: "AddKnownTypes e s SchemeGroupVersion [GoType ''apps/v1beta1'' ''XXX'', GoType ''apps/v1beta1'' ''XXXList''] = Ret t"
      "recognizes e t = with_types SchemeGroupVersion [GoType ''apps/v1beta1'' ''XXX'', GoType ''apps/v1beta1'' ''XXXList''] (recognizes e s)"
      "default_func e t = default_func e s"
    using add_known [OF assms] by blast
  let ?u = "AddToGroupVersion e t SchemeGroupVersion"
  let ?v = "AddTypeDefaultingFunc e (AddTypeDefaultingFunc e ?u (GoType ''apps/v1beta1'' ''XXX'') default_XXX) (GoType ''apps/v1beta1'' ''XXXList'') default_XXXList"
  obtain w where w: "register_conversions e conversions ?v = (None, w)" "recognizes e w = recognizes e ?v" "default_func e w = default_func e ?v"
      "conversion_func e w = fold put_conversion conversions (conversion_func e ?v)"
    using register_conversions_ok by blast
  have "v1beta1_AddToScheme e s = Ret (None, w)"
    by (simp add: v1beta1_AddToScheme_def v1beta1_init_def v1beta1_SchemeBuilder_def builder_none builder_some addKnownTypes_def
        addDefaultingFuncs_def RegisterDefaults_def RegisterConversions_def Let_def t w)
  moreover have "default_func e w = (default_func e s)(GoType ''apps/v1beta1'' ''XXX'' \<mapsto> default_XXX, GoType ''apps/v1beta1'' ''XXXList'' \<mapsto> default_XXXList)"
    by (simp add: w add_default add_group_default t)
  moreover have "\<forall>g. gvk_Kind g \<notin> set metav1_kinds \<longrightarrow> recognizes e w g =
       with_types SchemeGroupVersion [GoType ''apps/v1beta1'' ''XXX'', GoType ''apps/v1beta1'' ''XXXList''] (recognizes e s) g"
    by (simp add: w add_default add_group t)
  ultimately show ?thesis using w(4) by blast
qed

text \<open>A manager's scheme: the types of Kubernetes and two of its own.\<close>

lemma manager_scheme:
  assumes "\<not> builtin_group (gv_Group gv)" and "gv_Version gv \<noteq> ''''" and "distinct (map type_name ts)"
  shows "\<exists>s. (case Must (clientgoscheme_AddToScheme e (NewScheme e)) of Panic p \<Rightarrow> Panic p | Ret s \<Rightarrow> Must (Builder_AddToScheme e gv ts s)) = Ret s \<and>
    (\<forall>g. gvk_Group g = gv_Group gv \<and> gvk_Kind g \<notin> set metav1_kinds \<longrightarrow> recognizes e s g = with_types gv ts (\<lambda>_. None) g)"
proof -
  obtain t where t: "clientgoscheme_AddToScheme e (NewScheme e) = Ret (None, t)"
      "\<And>g. \<not> builtin_group (gvk_Group g) \<Longrightarrow> recognizes e t g = None"
    using clientgo [of "NewScheme e"] new_scheme by auto
  have "addable gv ts (recognizes e t)" using assms t(2) by (simp add: addable_def WithKind_def)
  then obtain s where "Builder_AddToScheme e gv ts t = Ret (None, s)"
      "\<And>g. gvk_Kind g \<notin> set metav1_kinds \<Longrightarrow> recognizes e s g = with_types gv ts (recognizes e t) g"
    using controller_builder by blast
  with t assms(1) show ?thesis by (auto simp: Must_def with_types_def split: option.splits)
qed

end

subsection \<open>A scheme in memory\<close>

record 'c mem_scheme =
  ms_kinds :: "GroupVersionKind \<Rightarrow> go_type option"
  ms_defaults :: "go_type \<Rightarrow> 'c defaulting option"
  ms_conversions :: "go_type \<Rightarrow> go_type \<Rightarrow> conversion option"

fun run_all :: "'s registration list \<Rightarrow> 's registration" where
  "run_all [] s = Ret (None, s)"
| "run_all (r # rs) s =
     (case r s of Panic p \<Rightarrow> Panic p | Ret (Some err, s') \<Rightarrow> Ret (Some err, s') | Ret (None, s') \<Rightarrow> run_all rs s')"

definition mem_known :: "string \<Rightarrow> string \<Rightarrow> go_type list \<Rightarrow> 'c mem_scheme \<Rightarrow> 'c mem_scheme" where
  "mem_known grp version ts s = s\<lparr>ms_kinds := with_types \<lparr>gv_Group = grp, gv_Version = version\<rparr> ts (ms_kinds s)\<rparr>"

definition mem_schemes :: "('c mem_scheme, 'c) scheme_env" where
  "mem_schemes =
     \<lparr>NewScheme = \<lparr>ms_kinds = (\<lambda>_. None), ms_defaults = (\<lambda>_. None), ms_conversions = (\<lambda>_ _. None)\<rparr>,
      AddKnownTypes = (\<lambda>s gv ts. if addable gv ts (ms_kinds s) then Ret (mem_known (gv_Group gv) (gv_Version gv) ts s)
        else Panic (PanicErr ''Double registration of different types'')),
      AddToGroupVersion = (\<lambda>s gv. mem_known (gv_Group gv) (gv_Version gv) (map (GoType ''meta/v1'') metav1_kinds) s),
      AddTypeDefaultingFunc = (\<lambda>s t f. s\<lparr>ms_defaults := (ms_defaults s)(t \<mapsto> f)\<rparr>),
      AddGeneratedConversionFunc = (\<lambda>s a b c. (None, s\<lparr>ms_conversions := put_conversion (a, b, c) (ms_conversions s)\<rparr>)),
      SchemeBuilder_AddToScheme = run_all,
      Builder_AddToScheme = (\<lambda>gv ts s. if addable gv ts (ms_kinds s) then Ret (None, mem_known (gv_Group gv) (gv_Version gv) ts s)
        else Panic (PanicErr ''Double registration of different types'')),
      clientgoscheme_AddToScheme = (\<lambda>s. Ret (None, mem_known ''apps'' ''v1'' [GoType ''k8s.io/api/apps/v1'' ''Deployment''] s)),
      corev1_AddToScheme = (\<lambda>s. Ret (None, mem_known '''' ''v1'' [GoType ''k8s.io/api/core/v1'' ''Pod''] s)),
      admissionregistrationv1_AddToScheme = (\<lambda>s. Ret (None, s)),
      appsv1_AddToScheme = (\<lambda>s. Ret (None, mem_known ''apps'' ''v1'' [GoType ''k8s.io/api/apps/v1'' ''Deployment''] s)),
      recognizes = ms_kinds, default_func = ms_defaults, conversion_func = ms_conversions\<rparr>"

section \<open>Lemmas\<close>

lemma with_types_other: "\<forall>t\<in>set ts. g \<noteq> WithKind gv (type_name t) \<Longrightarrow> with_types gv ts r g = r g"
proof -
  assume "\<forall>t\<in>set ts. g \<noteq> WithKind gv (type_name t)"
  then have "find (\<lambda>t. g = WithKind gv (type_name t)) ts = None" by (simp add: find_None_iff)
  then show ?thesis by (simp add: with_types_def)
qed

lemma gv_surjective [simp]: "\<lparr>gv_Group = gv_Group gv, gv_Version = gv_Version gv\<rparr> = gv"
  by simp

lemma mem_builder: "SchemeBuilder_AddToScheme mem_schemes = run_all"
  by (simp add: mem_schemes_def)

interpretation mem: scheme_library mem_schemes
proof
  show "\<exists>s'. clientgoscheme_AddToScheme mem_schemes s = Ret (None, s') \<and>
      (\<forall>g. \<not> builtin_group (gvk_Group g) \<longrightarrow> recognizes mem_schemes s' g = recognizes mem_schemes s g)" for s :: "'c mem_scheme"
    by (auto simp: mem_schemes_def mem_known_def builtin_group_def WithKind_def intro!: with_types_other)
  show "gvk_Kind g \<notin> set metav1_kinds \<Longrightarrow> recognizes mem_schemes (AddToGroupVersion mem_schemes s gv) g = recognizes mem_schemes s g"
    for g gv and s :: "'c mem_scheme"
    by (auto simp: mem_schemes_def mem_known_def WithKind_def intro!: with_types_other)
  show "\<exists>err s'. r s = Ret (err, s') \<and> (\<forall>g. gvk_Group g \<noteq> grp \<and> gvk_Kind g \<notin> set metav1_kinds \<longrightarrow> recognizes mem_schemes s' g = recognizes mem_schemes s g)"
    if "(r, grp) \<in> {(corev1_AddToScheme mem_schemes, ''''), (admissionregistrationv1_AddToScheme mem_schemes, ''admissionregistration.k8s.io''),
        (appsv1_AddToScheme mem_schemes, ''apps'')}" for r grp and s :: "'c mem_scheme"
    using that by (auto simp: mem_schemes_def mem_known_def WithKind_def intro!: with_types_other)
  show "SchemeBuilder_AddToScheme mem_schemes (r # rs) s =
      (case r s of Panic p \<Rightarrow> Panic p | Ret (Some err, s') \<Rightarrow> Ret (Some err, s')
       | Ret (None, s') \<Rightarrow> SchemeBuilder_AddToScheme mem_schemes rs s')" for r rs and s :: "'c mem_scheme"
    unfolding mem_builder by simp
qed (auto simp: mem_schemes_def mem_known_def)

text \<open>Which objects have a type.\<close>

lemma type_of_iff [simp]:
  "type_of a = GoType ''apps/v1beta1'' ''XXX'' \<longleftrightarrow> (\<exists>x. a = ObjXXX x)"
  "type_of a = GoType ''apps/v1beta1'' ''XXXList'' \<longleftrightarrow> (\<exists>x. a = ObjXXXList x)"
  "type_of a = GoType ''apps/v1beta1'' ''XXXSpec'' \<longleftrightarrow> (\<exists>x. a = ObjXXXSpec x)"
  "type_of a = GoType ''apps/v1beta1'' ''XXXStatus'' \<longleftrightarrow> (\<exists>x. a = ObjXXXStatus x)"
  "type_of a = GoType ''apps'' ''XXX'' \<longleftrightarrow> (\<exists>x. a = ObjApps x)"
  "type_of a = GoType ''apps'' ''XXXList'' \<longleftrightarrow> (\<exists>x. a = ObjAppsList x)"
  "type_of a = GoType ''apps'' ''XXXSpec'' \<longleftrightarrow> (\<exists>x. a = ObjAppsSpec x)"
  "type_of a = GoType ''apps'' ''XXXStatus'' \<longleftrightarrow> (\<exists>x. a = ObjAppsStatus x)"
  by (cases a; simp)+

lemma put_conversions:
  assumes "distinct (map (\<lambda>(a, b, c). (a, b)) cs)" and "(a, b, c) \<in> set cs"
  shows "fold put_conversion cs m a b = Some c"
proof -
  have other: "(a, b) \<notin> (\<lambda>(a, b, c). (a, b)) ` set cs \<Longrightarrow> fold put_conversion cs m a b = m a b" for cs m
    by (induction cs arbitrary: m) (force simp: put_conversion_def)+
  show ?thesis
    using assms
  proof (induction cs arbitrary: m)
    case (Cons x cs)
    have hit: "put_conversion (a, b, c) m a b = Some c" by (simp add: put_conversion_def)
    show ?case
    proof (cases "x = (a, b, c)")
      case True
      then show ?thesis using Cons.prems(1) other [of cs] hit by simp
    next
      case False
      then show ?thesis using Cons.prems Cons.IH by simp
    qed
  qed simp
qed

lemma conversion_found: "(a, b, c) \<in> set conversions \<Longrightarrow> fold put_conversion conversions m a b = Some c"
  by (rule put_conversions) (simp_all add: conversions_def)

text \<open>A registered function never sees an object of another type than it asserts, and keeps the type of its result.\<close>

lemma conversions_typed:
  assumes "(type_of a, type_of b, c) \<in> set conversions"
  shows "\<exists>b'. c a b = Ret (None, b') \<and> type_of b' = type_of b"
  using assms by (auto simp: conversions_def conversion_defs Let_def)

lemma defaults_typed:
  "type_of obj = GoType ''apps/v1beta1'' ''XXX'' \<Longrightarrow> \<exists>h' obj'. default_XXX h obj = Ret (h', obj') \<and> type_of obj' = type_of obj"
  "type_of obj = GoType ''apps/v1beta1'' ''XXXList'' \<Longrightarrow> \<exists>h' obj'. default_XXXList h obj = Ret (h', obj') \<and> type_of obj' = type_of obj"
  by (auto simp: default_XXX_def default_XXXList_def)


lemmas manager_lookup_simps = WithKind_def with_types_def metav1_kinds_def suffix_def

lemma clientset_registered:
  assumes "scheme_library e"
  shows "\<exists>s. clientset_scheme e = Ret s \<and> fake_scheme e = Ret s \<and>
      (\<forall>g. gvk_Kind g \<notin> set metav1_kinds \<longrightarrow> recognizes e s g =
         (if g = WithKind SchemeGroupVersion ''XXX'' then Some (GoType ''apps/v1beta1'' ''XXX'')
          else if g = WithKind SchemeGroupVersion ''XXXList'' then Some (GoType ''apps/v1beta1'' ''XXXList'') else None)) \<and>
      (\<forall>obj h. type_of obj \<in> {GoType ''apps/v1beta1'' ''XXX'', GoType ''apps/v1beta1'' ''XXXList''} \<longrightarrow>
         (\<exists>f h' obj'. default_func e s (type_of obj) = Some f \<and> f h obj = Ret (h', obj') \<and> type_of obj' = type_of obj)) \<and>
      (\<forall>a b. (type_of a, type_of b) \<in> (\<lambda>(t, u, c). (t, u)) ` set conversions \<longrightarrow>
         (\<exists>c b'. conversion_func e s (type_of a) (type_of b) = Some c \<and> c a b = Ret (None, b') \<and> type_of b' = type_of b))"
proof -
  let ?new = "AddToGroupVersion e (NewScheme e) \<lparr>gv_Group = '''', gv_Version = ''v1''\<rparr>"
  have new: "recognizes e ?new g = None" if "gvk_Kind g \<notin> set metav1_kinds" for g
    using that by (simp add: scheme_library.add_group [OF assms] scheme_library.new_scheme [OF assms])
  then have "addable SchemeGroupVersion [GoType ''apps/v1beta1'' ''XXX'', GoType ''apps/v1beta1'' ''XXXList''] (recognizes e ?new)"
    by (simp add: addable_def SchemeGroupVersion_def WithKind_def metav1_kinds_def)
  from scheme_library.v1beta1_added [OF assms this] obtain s c where
    s: "v1beta1_AddToScheme e ?new = Ret (None, s)"
      "\<And>g. gvk_Kind g \<notin> set metav1_kinds \<Longrightarrow> recognizes e s g =
         with_types SchemeGroupVersion [GoType ''apps/v1beta1'' ''XXX'', GoType ''apps/v1beta1'' ''XXXList''] (recognizes e ?new) g"
      "default_func e s = (default_func e ?new)(GoType ''apps/v1beta1'' ''XXX'' \<mapsto> default_XXX, GoType ''apps/v1beta1'' ''XXXList'' \<mapsto> default_XXXList)"
      "conversion_func e s = fold put_conversion conversions c"
    by blast
  have schemes: "clientset_scheme e = Ret s" "fake_scheme e = Ret s"
    by (simp_all add: clientset_scheme_def fake_scheme_def clientset_AddToScheme_def fake_AddToScheme_def Must_def s(1)
        scheme_library.builder_none [OF assms] scheme_library.builder_some [OF assms])
  have kinds: "recognizes e s g = (if g = WithKind SchemeGroupVersion ''XXX'' then Some (GoType ''apps/v1beta1'' ''XXX'')
      else if g = WithKind SchemeGroupVersion ''XXXList'' then Some (GoType ''apps/v1beta1'' ''XXXList'') else None)"
    if "gvk_Kind g \<notin> set metav1_kinds" for g
    using s(2) [OF that] new [OF that] by (auto simp: with_types_def)
  have defaults: "\<exists>f h' obj'. default_func e s (type_of obj) = Some f \<and> f h obj = Ret (h', obj') \<and> type_of obj' = type_of obj"
    if "type_of obj \<in> {GoType ''apps/v1beta1'' ''XXX'', GoType ''apps/v1beta1'' ''XXXList''}" for obj h
    using that defaults_typed [of obj h] unfolding s(3) by auto
  have convs: "\<exists>c b'. conversion_func e s (type_of a) (type_of b) = Some c \<and> c a b = Ret (None, b') \<and> type_of b' = type_of b"
    if types: "(type_of a, type_of b) \<in> (\<lambda>(t, u, c). (t, u)) ` set conversions" for a b
  proof -
    obtain x where "x \<in> set conversions" "(type_of a, type_of b) = (case x of (t, u, c) \<Rightarrow> (t, u))" using types by (elim imageE)
    then obtain c where "(type_of a, type_of b, c) \<in> set conversions" by (auto split: prod.splits)
    with conversion_found conversions_typed show ?thesis unfolding s(4) by blast
  qed
  show ?thesis using schemes kinds defaults convs by (intro exI [of _ s] conjI allI impI)
qed

lemma webhook_registered:
  assumes "scheme_library e"
  shows "\<exists>s. webhook_scheme e = Ret s \<and>
    recognizes e s \<lparr>gvk_Group = ''admission.k8s.io'', gvk_Version = ''v1'', gvk_Kind = ''AdmissionReview''\<rparr> = None"
proof -
  let ?g = "\<lparr>gvk_Group = ''admission.k8s.io'', gvk_Version = ''v1'', gvk_Kind = ''AdmissionReview''\<rparr>"
  have k: "gvk_Kind ?g \<notin> set metav1_kinds" by (simp add: metav1_kinds_def)
  obtain x s1 where s1: "corev1_AddToScheme e (NewScheme e) = Ret (x, s1)" "recognizes e s1 ?g = recognizes e (NewScheme e) ?g"
    using scheme_library.api_group [OF assms, of "corev1_AddToScheme e" "''''" "NewScheme e"] k by auto
  obtain y s2 where s2: "admissionregistrationv1_AddToScheme e s1 = Ret (y, s2)" "recognizes e s2 ?g = recognizes e s1 ?g"
    using scheme_library.api_group [OF assms, of "admissionregistrationv1_AddToScheme e" "''admissionregistration.k8s.io''" s1] k by auto
  obtain z s3 where s3: "appsv1_AddToScheme e s2 = Ret (z, s3)" "recognizes e s3 ?g = recognizes e s2 ?g"
    using scheme_library.api_group [OF assms, of "appsv1_AddToScheme e" "''apps''" s2] k by auto
  show ?thesis using s1 s2 s3 scheme_library.new_scheme [OF assms] by (simp add: webhook_scheme_def)
qed

section \<open>Properties\<close>

text \<open>C34. The registrations are well typed. The schemes of the clientset and of its fake are the same. Apart from the kinds of
  options and results that every group gets, they know exactly the kinds XXX and XXXList, each under the one version to which
  the typed client sends its requests, and each of the two types has this one kind. What the scheme does with an object is well typed: the defaulting function registered for
  the type of an object, and the conversion registered for the types of two objects, accept them, so that no type assertion
  fails, report no error, and give an object of the same type. The internal types take part in conversions but have no kind,
  so no scheme can name them. A manager's scheme knows the two types of its program, a PodManager under the kind that the owner
  references of its pods carry. The scheme of the webhook server does not know the kind of the reviews it decodes.\<close>

theorem scheme_types:
  assumes "scheme_library e"
  shows "(\<exists>s. clientset_scheme e = Ret s \<and> fake_scheme e = Ret s \<and>
      (\<forall>g. gvk_Kind g \<notin> set metav1_kinds \<longrightarrow> recognizes e s g =
         (if g = WithKind SchemeGroupVersion ''XXX'' then Some (GoType ''apps/v1beta1'' ''XXX'')
          else if g = WithKind SchemeGroupVersion ''XXXList'' then Some (GoType ''apps/v1beta1'' ''XXXList'') else None)) \<and>
      (\<forall>obj h. type_of obj \<in> {GoType ''apps/v1beta1'' ''XXX'', GoType ''apps/v1beta1'' ''XXXList''} \<longrightarrow>
         (\<exists>f h' obj'. default_func e s (type_of obj) = Some f \<and> f h obj = Ret (h', obj') \<and> type_of obj' = type_of obj)) \<and>
      (\<forall>a b. (type_of a, type_of b) \<in> (\<lambda>(t, u, c). (t, u)) ` set conversions \<longrightarrow>
         (\<exists>c b'. conversion_func e s (type_of a) (type_of b) = Some c \<and> c a b = Ret (None, b') \<and> type_of b' = type_of b))) \<and>
    cf_GroupVersion (setConfigDefaults r cfg) = gv_Group SchemeGroupVersion @ ''/'' @ gv_Version SchemeGroupVersion \<and>
    (\<exists>s. pod_scheme e = Ret s \<and> recognizes e s PodManagerGVK = Some (GoType ''pod-operator/api/v1'' ''PodManager'') \<and>
      recognizes e s (WithKind pod_GroupVersion ''PodManagerList'') = Some (GoType ''pod-operator/api/v1'' ''PodManagerList'')) \<and>
    (\<exists>s. calc_scheme e = Ret s \<and> recognizes e s (WithKind calc_GroupVersion ''Calculate'') = Some (GoType ''using-kubebuilder/api/v1'' ''Calculate'') \<and>
      recognizes e s (WithKind calc_GroupVersion ''CalculateList'') = Some (GoType ''using-kubebuilder/api/v1'' ''CalculateList'')) \<and>
    (\<exists>s. webhook_scheme e = Ret s \<and>
      recognizes e s \<lparr>gvk_Group = ''admission.k8s.io'', gvk_Version = ''v1'', gvk_Kind = ''AdmissionReview''\<rparr> = None)"
proof (intro conjI)
  show "\<exists>s. clientset_scheme e = Ret s \<and> fake_scheme e = Ret s \<and>
      (\<forall>g. gvk_Kind g \<notin> set metav1_kinds \<longrightarrow> recognizes e s g =
         (if g = WithKind SchemeGroupVersion ''XXX'' then Some (GoType ''apps/v1beta1'' ''XXX'')
          else if g = WithKind SchemeGroupVersion ''XXXList'' then Some (GoType ''apps/v1beta1'' ''XXXList'') else None)) \<and>
      (\<forall>obj h. type_of obj \<in> {GoType ''apps/v1beta1'' ''XXX'', GoType ''apps/v1beta1'' ''XXXList''} \<longrightarrow>
         (\<exists>f h' obj'. default_func e s (type_of obj) = Some f \<and> f h obj = Ret (h', obj') \<and> type_of obj' = type_of obj)) \<and>
      (\<forall>a b. (type_of a, type_of b) \<in> (\<lambda>(t, u, c). (t, u)) ` set conversions \<longrightarrow>
         (\<exists>c b'. conversion_func e s (type_of a) (type_of b) = Some c \<and> c a b = Ret (None, b') \<and> type_of b' = type_of b))"
    by (rule clientset_registered [OF assms])
  show "cf_GroupVersion (setConfigDefaults r cfg) = gv_Group SchemeGroupVersion @ ''/'' @ gv_Version SchemeGroupVersion"
    by (simp add: setConfigDefaults_def SchemeGroupVersion_def GroupName_def Let_def)
  show "\<exists>s. pod_scheme e = Ret s \<and> recognizes e s PodManagerGVK = Some (GoType ''pod-operator/api/v1'' ''PodManager'') \<and>
      recognizes e s (WithKind pod_GroupVersion ''PodManagerList'') = Some (GoType ''pod-operator/api/v1'' ''PodManagerList'')"
    using scheme_library.manager_scheme [OF assms, of pod_GroupVersion pod_registered]
    by (auto simp: pod_scheme_def pod_GroupVersion_def pod_registered_def builtin_group_def manager_lookup_simps PodManagerGVK_def)
  show "\<exists>s. calc_scheme e = Ret s \<and> recognizes e s (WithKind calc_GroupVersion ''Calculate'') = Some (GoType ''using-kubebuilder/api/v1'' ''Calculate'') \<and>
      recognizes e s (WithKind calc_GroupVersion ''CalculateList'') = Some (GoType ''using-kubebuilder/api/v1'' ''CalculateList'')"
    using scheme_library.manager_scheme [OF assms, of calc_GroupVersion calc_registered]
    by (auto simp: calc_scheme_def calc_GroupVersion_def calc_registered_def builtin_group_def manager_lookup_simps)
  show "\<exists>s. webhook_scheme e = Ret s \<and>
      recognizes e s \<lparr>gvk_Group = ''admission.k8s.io'', gvk_Version = ''v1'', gvk_Kind = ''AdmissionReview''\<rparr> = None"
    by (rule webhook_registered [OF assms])
qed

theorem scheme_types_witness:
  "\<exists>s. clientset_scheme mem_schemes = Ret s \<and> fake_scheme mem_schemes = Ret s \<and>
     recognizes mem_schemes s (WithKind SchemeGroupVersion ''XXX'') = Some (GoType ''apps/v1beta1'' ''XXX'')"
proof -
  have "gvk_Kind (WithKind SchemeGroupVersion ''XXX'') \<notin> set metav1_kinds" by (simp add: WithKind_def metav1_kinds_def)
  with scheme_types [OF mem.scheme_library_axioms, THEN conjunct1] show ?thesis by fastforce
qed


end
