(* ===== verification/Api_Practices.thy ===== *)
theory Api_Practices
  imports Kube_Api
begin

text \<open>
  The small API-practice programs: a field replaced by a list while old clients still use the field
  (\<open>src/apiversioncompatibility/main.go\<close>), request parameters with defaults (\<open>src/setdefault/main.go\<close>), a feature
  gate (\<open>src/featuregates/main.go\<close>) and the kubeconfig flag (\<open>src/helper/helper.go\<close>).

  The Frobber storage keeps the caller's pointer, so objects live in a heap of addresses and the model shows
  what a caller sees of its own object after a call.
\<close>

section \<open>Definitions\<close>

subsection \<open>Frobbers\<close>

record Frobber =
  fr_Height :: int64
  fr_Width :: int64
  fr_Param :: string
  fr_Params :: "string list"

record frob_state =
  objects :: "nat \<Rightarrow> Frobber"
  frobberStorage :: "string \<Rightarrow> nat option"

definition frob_key :: string where
  "frob_key = ''frobber1''"

definition set_obj :: "nat \<Rightarrow> Frobber \<Rightarrow> frob_state \<Rightarrow> frob_state" where
  "set_obj p f s = s\<lparr>objects := (objects s)(p := f)\<rparr>"

definition CreateFrobber :: "nat \<Rightarrow> frob_state \<Rightarrow> go_error option \<times> frob_state" where
  "CreateFrobber p s =
     (let f0 = objects s p;
          f1 = (if fr_Param f0 \<noteq> '''' then f0\<lparr>fr_Params := fr_Params f0 @ [fr_Param f0]\<rparr> else f0);
          s1 = set_obj p f1 s in
      if fr_Param f1 \<noteq> '''' \<and> 0 < length (fr_Params f1) \<and> fr_Param f1 \<noteq> fr_Params f1 ! 0
      then (Some (PlainError ''param is not equal to params[0]''), s1)
      else (None, s1\<lparr>frobberStorage := (frobberStorage s1)(frob_key \<mapsto> p)\<rparr>))"

definition GetFrobber :: "frob_state \<Rightarrow> nat option \<times> frob_state" where
  "GetFrobber s =
     (case frobberStorage s frob_key of
        None \<Rightarrow> (None, s)
      | Some p \<Rightarrow>
          (let f = objects s p in
           if length (fr_Params f) = 0 \<and> fr_Param f \<noteq> ''''
           then (Some p, set_obj p (f\<lparr>fr_Params := fr_Params f @ [fr_Param f]\<rparr>) s)
           else (Some p, s)))"

text \<open>The new object is read through its own pointer, which may be the stored one.\<close>

definition UpdateFrobber :: "nat \<Rightarrow> frob_state \<Rightarrow> go_error option \<times> frob_state" where
  "UpdateFrobber aft s =
     (case frobberStorage s frob_key of
        None \<Rightarrow> (Some (PlainError ''frobber not found''), s)
      | Some p \<Rightarrow>
          (let check =
             (if fr_Param (objects s aft) \<noteq> '''' then
                (if length (fr_Params (objects s p)) = 0
                 then Inr (set_obj p ((objects s p)\<lparr>fr_Params := fr_Params (objects s p) @ [fr_Param (objects s aft)]\<rparr>) s)
                 else if fr_Param (objects s aft) \<noteq> fr_Params (objects s p) ! 0
                 then Inl (PlainError ''param is not equal to params[0]'')
                 else Inr s)
              else Inr s) in
           case check of
             Inl err \<Rightarrow> (Some err, s)
           | Inr s1 \<Rightarrow>
               (let s2 = set_obj p ((objects s1 p)\<lparr>fr_Height := fr_Height (objects s1 aft)\<rparr>) s1;
                    s3 = set_obj p ((objects s2 p)\<lparr>fr_Width := fr_Width (objects s2 aft)\<rparr>) s2;
                    s4 = set_obj p ((objects s3 p)\<lparr>fr_Params := fr_Params (objects s3 aft)\<rparr>) s3 in
                (None, s4))))"

text \<open>The main function: one object at a fresh address, created and read back. The errors of the creation and of the encoder are dropped.\<close>

definition frobber_main :: "(Frobber \<Rightarrow> go_error + string) \<Rightarrow> nat \<Rightarrow> frob_state \<Rightarrow> string list \<times> frob_state" where
  "frobber_main Marshal p s =
     (let s1 = set_obj p \<lparr>fr_Height = 10, fr_Width = 20, fr_Param = ''old_param_value'', fr_Params = []\<rparr> s;
          (_, s2) = CreateFrobber p s1;
          (retrieved, s3) = GetFrobber s2 in
      case retrieved of
        Some q \<Rightarrow> ([''Retrieved Frobber: '' @ (case Marshal (objects s3 q) of Inl err \<Rightarrow> '''' | Inr data \<Rightarrow> data)], s3)
      | None \<Rightarrow> ([''Frobber not found''], s3))"

text \<open>What old and new clients can rely on: if the old field is set, it is the first of the new values.\<close>

definition compatible :: "Frobber \<Rightarrow> bool" where
  "compatible f \<longleftrightarrow> fr_Param f = '''' \<or> (\<exists>ps. fr_Params f = fr_Param f # ps)"

subsection \<open>Request defaults\<close>

record Request =
  rq_Limit :: int64
  rq_Offset :: int64
  rq_Filter :: string

definition Validate :: "Request \<Rightarrow> Request" where
  "Validate req =
     (let r1 = (if sint (rq_Limit req) \<le> 0 then req\<lparr>rq_Limit := 10\<rparr> else req);
          r2 = (if sint (rq_Offset r1) < 0 then r1\<lparr>rq_Offset := 0\<rparr> else r1) in
      if rq_Filter r2 = '''' then r2\<lparr>rq_Filter := ''all''\<rparr> else r2)"

datatype gin_reply = JsonError nat string | JsonValues nat int64 int64 string

text \<open>The route; binding the query is the framework's and a parameter.\<close>

definition get_resource :: "('q \<Rightarrow> string + Request) \<Rightarrow> 'q \<Rightarrow> gin_reply" where
  "get_resource ShouldBindQuery q =
     (case ShouldBindQuery q of
        Inl err \<Rightarrow> JsonError 400 err
      | Inr req \<Rightarrow> (let r = Validate req in JsonValues 200 (rq_Limit r) (rq_Offset r) (rq_Filter r)))"

text \<open>The routes of the program and the address it listens on; the error of the listener is dropped.\<close>

definition setdefault_main :: "('q \<Rightarrow> string + Request) \<Rightarrow> (string \<times> string \<times> ('q \<Rightarrow> gin_reply)) list \<times> string" where
  "setdefault_main ShouldBindQuery = ([(''GET'', ''/api/resource'', get_resource ShouldBindQuery)], '':8080'')"

definition request_valid :: "Request \<Rightarrow> bool" where
  "request_valid r \<longleftrightarrow> 0 < sint (rq_Limit r) \<and> 0 \<le> sint (rq_Offset r) \<and> rq_Filter r \<noteq> ''''"

subsection \<open>Feature gate and kubeconfig flag\<close>

definition MyNewFeature :: string where
  "MyNewFeature = ''MyNewFeature''"

definition defaultFeatureGates :: "string \<Rightarrow> bool option" where
  "defaultFeatureGates = [MyNewFeature \<mapsto> False]"

datatype fg_output = Usage | Line string

definition featuregates_main :: "(string \<Rightarrow> bool) \<Rightarrow> bool \<Rightarrow> fg_output list" where
  "featuregates_main Enabled help =
     (if help then [Usage]
      else if Enabled MyNewFeature then [Line ''Feature Gates: MyNewFeature is opened'']
      else [Line ''Feature Gates: MyNewFeature is closed''])"

text \<open>The whole program: the flag set exits with status 2 when the arguments cannot be parsed.\<close>

definition featuregates_process :: "(string list \<Rightarrow> go_error + bool \<times> (string \<Rightarrow> bool)) \<Rightarrow> string list \<Rightarrow> fg_output list \<times> nat" where
  "featuregates_process Parse args =
     (case Parse (tl args) of
        Inl err \<Rightarrow> ([Line (Error err)], 2)
      | Inr (help, Enabled) \<Rightarrow> (featuregates_main Enabled help, 0))"

text \<open>Waiting for a key: the scanner finds a line, the end of the input, or an error.\<close>

datatype scan = ScanLine | ScanEnd | ScanErr go_error

definition Prompt :: "scan \<Rightarrow> string list \<times> panic option" where
  "Prompt stdin =
     (let out = [''-> Press Return key to continue.''] in
      case stdin of
        ScanErr err \<Rightarrow> (out, Some (PanicErr (Error err)))
      | _ \<Rightarrow> (out @ [[CHR 0x0A]], None))"

definition AddKubeconfigFlag :: "string \<Rightarrow> string \<Rightarrow> string option \<Rightarrow> string" where
  "AddKubeconfigFlag env homeFile flag =
     (let defaultKubeconfig = (if env = '''' then homeFile else env) in
      case flag of None \<Rightarrow> defaultKubeconfig | Some v \<Rightarrow> v)"

section \<open>Lemmas\<close>

lemma set_obj_simps [simp]:
  "objects (set_obj p f s) = (objects s)(p := f)" "frobberStorage (set_obj p f s) = frobberStorage s"
  by (simp_all add: set_obj_def)

interpretation reqd: defaulter Validate request_valid
  by unfold_locales (auto simp: Validate_def request_valid_def Let_def)

lemma Validate_eq:
  "Validate r = \<lparr>rq_Limit = (if sint (rq_Limit r) \<le> 0 then 10 else rq_Limit r),
     rq_Offset = (if sint (rq_Offset r) < 0 then 0 else rq_Offset r),
     rq_Filter = (if rq_Filter r = '''' then ''all'' else rq_Filter r)\<rparr>"
  by (simp add: Validate_def Let_def)

section \<open>Properties\<close>

text \<open>Creating a Frobber: it is accepted exactly when the old field is empty, or the list is empty, or its head is the old
  field; then the stored object is the caller's own object (later writes of the caller go through), both generations of clients
  agree on it, and the old value is appended even when the list already starts with it; a refused
  object has been changed in the caller's memory all the same, and nothing is stored.\<close>

theorem CreateFrobber_compatible:
  assumes "f = objects s p" and "CreateFrobber p s = (err, s')"
  shows "(err = None \<longleftrightarrow> fr_Param f = '''' \<or> fr_Params f = [] \<or> hd (fr_Params f) = fr_Param f) \<and>
    objects s' = (objects s)(p := f\<lparr>fr_Params := fr_Params f @ (if fr_Param f = '''' then [] else [fr_Param f])\<rparr>) \<and>
    (if err = None then GetFrobber s' = (Some p, s') \<and> compatible (objects s' p)
     else frobberStorage s' = frobberStorage s)"
proof (cases "fr_Params f")
  case Nil
  with assms show ?thesis
    by (auto simp: CreateFrobber_def GetFrobber_def Let_def compatible_def split: if_splits)
next
  case (Cons a as)
  with assms show ?thesis
    by (auto simp: CreateFrobber_def GetFrobber_def Let_def compatible_def split: if_splits)
qed

theorem CreateFrobber_compatible_witness:
  "let f = \<lparr>fr_Height = 10, fr_Width = 20, fr_Param = ''old'', fr_Params = [''old'', ''x'']\<rparr>;
       s = \<lparr>objects = (\<lambda>_. f), frobberStorage = Map.empty\<rparr> in
   fr_Params (objects (snd (CreateFrobber 0 s)) 0) = [''old'', ''x'', ''old''] \<and> fst (CreateFrobber 0 s) = None"
proof -
  let ?f = "\<lparr>fr_Height = 10, fr_Width = 20, fr_Param = ''old'', fr_Params = [''old'', ''x'']\<rparr>"
  let ?s = "\<lparr>objects = (\<lambda>_. ?f), frobberStorage = Map.empty\<rparr>"
  obtain err s' where run: "CreateFrobber 0 ?s = (err, s')" by fastforce
  have "?f = objects ?s 0" by simp
  from CreateFrobber_compatible [OF this run] run show ?thesis by (simp add: Let_def)
qed

text \<open>Updating a Frobber: the new dimensions and the new list replace the stored ones and the stored old field is kept, so
  an update by an old client, who sends only the old field, erases the list, and the stored object still serves both
  generations exactly when its old field is empty or heads the new list. An update is refused only when there is nothing stored or the
  sent old field differs from the head of the stored list, and then nothing changes.\<close>

theorem UpdateFrobber_effect:
  assumes "frobberStorage s frob_key = Some p" "aft \<noteq> p" and "UpdateFrobber aft s = (err, s')"
  shows "(err = None \<longleftrightarrow> fr_Param (objects s aft) = '''' \<or> fr_Params (objects s p) = [] \<or>
       hd (fr_Params (objects s p)) = fr_Param (objects s aft)) \<and>
    (if err = None
     then objects s' p = (objects s aft)\<lparr>fr_Param := fr_Param (objects s p)\<rparr> \<and>
       (compatible (objects s' p) \<longleftrightarrow> fr_Param (objects s p) = '''' \<or>
          (\<exists>ps. fr_Params (objects s aft) = fr_Param (objects s p) # ps))
     else s' = s) \<and>
    (\<forall>q. q \<noteq> p \<longrightarrow> objects s' q = objects s q) \<and> frobberStorage s' = frobberStorage s"
proof (cases "fr_Params (objects s p)")
  case Nil
  with assms show ?thesis
    by (auto simp: UpdateFrobber_def Let_def compatible_def split: if_splits)
next
  case (Cons a as)
  with assms show ?thesis
    by (auto simp: UpdateFrobber_def Let_def compatible_def split: if_splits)
qed

theorem UpdateFrobber_effect_witness:
  "let old = \<lparr>fr_Height = 1, fr_Width = 1, fr_Param = ''v'', fr_Params = [''v'']\<rparr>;
       upd = \<lparr>fr_Height = 2, fr_Width = 2, fr_Param = ''v'', fr_Params = []\<rparr>;
       s = \<lparr>objects = (\<lambda>_. old)(1 := upd), frobberStorage = [frob_key \<mapsto> 0]\<rparr> in
   fst (UpdateFrobber 1 s) = None \<and> fr_Params (objects (snd (UpdateFrobber 1 s)) 0) = []"
proof -
  let ?old = "\<lparr>fr_Height = 1, fr_Width = 1, fr_Param = ''v'', fr_Params = [''v'']\<rparr>"
  let ?upd = "\<lparr>fr_Height = 2, fr_Width = 2, fr_Param = ''v'', fr_Params = []\<rparr>"
  let ?s = "\<lparr>objects = (\<lambda>_. ?old)(1 := ?upd), frobberStorage = [frob_key \<mapsto> 0]\<rparr>"
  obtain err s' where run: "UpdateFrobber 1 ?s = (err, s')" by fastforce
  from UpdateFrobber_effect [OF _ _ run, of 0] run show ?thesis by (simp add: Let_def)
qed

text \<open>Request defaults: the route answers every query that binds with a valid request, whose parameters are the ones sent
  wherever those are valid; validation settles in one application and leaves exactly the valid requests alone.\<close>

theorem request_defaults:
  "(case ShouldBindQuery q of
      Inl err \<Rightarrow> get_resource ShouldBindQuery q = JsonError 400 err
    | Inr req \<Rightarrow> get_resource ShouldBindQuery q =
        JsonValues 200 (if sint (rq_Limit req) \<le> 0 then 10 else rq_Limit req)
          (if sint (rq_Offset req) < 0 then 0 else rq_Offset req) (if rq_Filter req = '''' then ''all'' else rq_Filter req)) \<and>
   request_valid (Validate r) \<and> (Validate ^^ Suc n) r = Validate r \<and> (Validate r = r \<longleftrightarrow> request_valid r)"
  using reqd.dflt_pow [of "Suc n" r] reqd.dflt_fixed_iff [of r] reqd.dflt_complete [of r]
  by (simp add: get_resource_def Validate_eq Let_def split: sum.splits del: funpow.simps)

text \<open>The demonstration prints an object that serves old and new clients, and the stored object is the caller's own.\<close>

lemma frobber_main_prints:
  "\<exists>f s'. frobber_main Marshal p s = ([''Retrieved Frobber: '' @ (case Marshal f of Inl err \<Rightarrow> '''' | Inr data \<Rightarrow> data)], s') \<and>
     fr_Params f = [''old_param_value''] \<and> compatible f \<and> frobberStorage s' frob_key = Some p \<and> objects s' p = f"
  by (auto simp: frobber_main_def CreateFrobber_def GetFrobber_def compatible_def Let_def)

text \<open>Only an error of the input stops a program at its prompt; the end of the input does not.\<close>

lemma Prompt_continues: "snd (Prompt stdin) = None \<longleftrightarrow> (\<forall>err. stdin \<noteq> ScanErr err)"
  by (cases stdin) (simp_all add: Prompt_def Let_def)

end
