(* ===== verification/Discovery_Report.thy ===== *)
theory Discovery_Report
  imports Kube_Api
begin

text \<open>
  The discovery programs of \<open>src/client-go/using-discovery-client/\<close>: \<open>discovery_client.go\<close> and
  \<open>cached_discovery_client.go\<close> print the resources a server prefers as JSON lines, \<open>example_usage.go\<close> reports
  statistics about them.

  Loading a configuration, the discovery clients, \<open>json.Marshal\<close> and \<open>errors.NewAggregate\<close> are libraries and
  parameters. What a program prints is a value: the JSON lines of the first two programs, and for the report a record of
  what its sections show, without their layout. Go iterates over the two maps of the report in any order, so they stay
  maps.
\<close>

section \<open>Definitions\<close>

subsection \<open>Listing resources\<close>

record APIResource =
  ar_Name :: string
  ar_Kind :: string
  ar_Verbs :: "string list"

record APIResourceList =
  rl_GroupVersion :: string
  rl_APIResources :: "APIResource list"

record info =
  in_Kind :: string
  in_APIVersion :: string
  in_Name :: string
  in_Verbs :: "string list"

record aggregate =
  ag_Error :: string
  ag_Errors :: "go_error list"

record discovery_client =
  ServerPreferredResources :: "APIResourceList list \<times> go_error option"
  ServerResourcesForGroupVersion :: "string \<Rightarrow> go_error + APIResourceList"

record 'cfg discovery_env =
  ClientConfig :: "go_error + 'cfg"
  NewDiscoveryClientForConfig :: "'cfg \<Rightarrow> go_error + discovery_client"
  NewCachedDiscoveryClientForConfig :: "'cfg \<Rightarrow> string \<Rightarrow> string \<Rightarrow> duration \<Rightarrow> go_error + discovery_client"
  HomeDir :: string
  Join :: "string list \<Rightarrow> string"
  Marshal_info :: "info \<Rightarrow> go_error + string"
  NewAggregate :: "go_error list \<Rightarrow> aggregate option"

fun print_resources :: "(info \<Rightarrow> go_error + string) \<Rightarrow> string \<Rightarrow> APIResource list \<Rightarrow> string list \<times> go_error list \<Rightarrow>
    string list \<times> go_error list" where
  "print_resources M gv [] acc = acc"
| "print_resources M gv (el # els) (out, errs) =
     (if ar_Verbs el = [] then print_resources M gv els (out, errs)
      else (case M \<lparr>in_Kind = ar_Kind el, in_APIVersion = gv, in_Name = ar_Name el, in_Verbs = ar_Verbs el\<rparr> of
          Inl err \<Rightarrow> print_resources M gv els (out, errs @ [err])
        | Inr res \<Rightarrow> print_resources M gv els (out @ [res], errs)))"

fun print_lists :: "(info \<Rightarrow> go_error + string) \<Rightarrow> APIResourceList list \<Rightarrow> string list \<times> go_error list \<Rightarrow>
    string list \<times> go_error list" where
  "print_lists M [] acc = acc"
| "print_lists M (l # ls) acc =
     (if rl_APIResources l = [] then print_lists M ls acc
      else print_lists M ls (print_resources M (rl_GroupVersion l) (rl_APIResources l) acc))"

definition panic_aggregate :: "'cfg discovery_env \<Rightarrow> go_error list \<Rightarrow> unit outcome" where
  "panic_aggregate e errs =
     (case NewAggregate e errs of None \<Rightarrow> Panic NilDereference | Some a \<Rightarrow> Panic (PanicErr (ag_Error a)))"

definition list_resources :: "'cfg discovery_env \<Rightarrow> discovery_client \<Rightarrow> string list \<times> unit outcome" where
  "list_resources e dc =
     (let (rls, err) = ServerPreferredResources dc;
          errs0 = (case err of None \<Rightarrow> [] | Some er \<Rightarrow> [er]);
          (out, errs) = print_lists (Marshal_info e) rls ([], errs0)
      in (out, if 0 < length errs then panic_aggregate e errs else Ret ()))"

definition discovery_main :: "'cfg discovery_env \<Rightarrow> string list \<times> unit outcome" where
  "discovery_main e =
     (case ClientConfig e of
        Inl err \<Rightarrow> ([], Panic (PanicErr (Error err)))
      | Inr rc \<Rightarrow>
          (case NewDiscoveryClientForConfig e rc of
             Inl err \<Rightarrow> ([], Panic (PanicErr (Error err)))
           | Inr dc \<Rightarrow> list_resources e dc))"

definition cached_discovery_main :: "'cfg discovery_env \<Rightarrow> string list \<times> unit outcome" where
  "cached_discovery_main e =
     (case ClientConfig e of
        Inl err \<Rightarrow> ([], Panic (PanicErr (Error err)))
      | Inr rc \<Rightarrow>
          (case NewCachedDiscoveryClientForConfig e rc (Join e [HomeDir e, ''.cache/discovery''])
             (Join e [HomeDir e, ''.cache/http'']) (Minute * 60) of
             Inl err \<Rightarrow> ([], Panic (PanicErr (Error err)))
           | Inr dc \<Rightarrow> list_resources e dc))"

subsection \<open>The report\<close>

record stats =
  st_totalResources :: nat
  st_groups :: "string \<rightharpoonup> nat"
  st_verbs :: "string \<rightharpoonup> nat"

definition bump :: "(string \<rightharpoonup> nat) \<Rightarrow> string \<Rightarrow> nat \<Rightarrow> string \<rightharpoonup> nat" where
  "bump m k n = m(k \<mapsto> (case m k of None \<Rightarrow> 0 | Some c \<Rightarrow> c) + n)"

fun count_verbs :: "string list \<Rightarrow> (string \<rightharpoonup> nat) \<Rightarrow> string \<rightharpoonup> nat" where
  "count_verbs [] m = m"
| "count_verbs (v # vs) m = count_verbs vs (bump m v 1)"

fun count_resources :: "APIResource list \<Rightarrow> stats \<Rightarrow> stats" where
  "count_resources [] st = st"
| "count_resources (res # rs) st =
     count_resources rs (st\<lparr>st_totalResources := st_totalResources st + 1, st_verbs := count_verbs (ar_Verbs res) (st_verbs st)\<rparr>)"

fun count_lists :: "APIResourceList list \<Rightarrow> stats \<Rightarrow> stats" where
  "count_lists [] st = st"
| "count_lists (l # ls) st =
     (if rl_APIResources l = [] then count_lists ls st
      else count_lists ls (count_resources (rl_APIResources l)
        (st\<lparr>st_groups := bump (st_groups st) (rl_GroupVersion l) (length (rl_APIResources l))\<rparr>)))"

definition commonResources :: "string list" where
  "commonResources =
     [''pods'', ''deployments'', ''services'', ''configmaps'', ''secrets'',
      ''namespaces'', ''nodes'', ''persistentvolumes'', ''persistentvolumeclaims'',
      ''statefulsets'', ''daemonsets'', ''jobs'', ''cronjobs'', ''ingresses'',
      ''replicasets'', ''events'', ''endpoints'', ''serviceaccounts'']"

fun is_one_of :: "string \<Rightarrow> string list \<Rightarrow> bool" where
  "is_one_of name [] = False"
| "is_one_of name (r # rs) = (if name = r then True else is_one_of name rs)"

definition isCommonResource :: "string \<Rightarrow> bool" where
  "isCommonResource name = is_one_of name commonResources"

type_synonym common_line = "string \<times> string \<times> string list"

fun common_resources :: "string \<Rightarrow> APIResource list \<Rightarrow> common_line list \<Rightarrow> common_line list" where
  "common_resources gv [] out = out"
| "common_resources gv (res # rs) out =
     common_resources gv rs (if isCommonResource (ar_Name res) then out @ [(ar_Kind res, gv, ar_Verbs res)] else out)"

fun common_lists :: "APIResourceList list \<Rightarrow> common_line list \<Rightarrow> common_line list" where
  "common_lists [] out = out"
| "common_lists (l # ls) out =
     (if rl_APIResources l = [] then common_lists ls out
      else common_lists ls (common_resources (rl_GroupVersion l) (rl_APIResources l) out))"

datatype check_line = CheckFailed go_error | Supported "string list" | NotFound

fun find_kind :: "string \<Rightarrow> APIResource list \<Rightarrow> check_line" where
  "find_kind kind [] = NotFound"
| "find_kind kind (res # rs) = (if ar_Kind res = kind then Supported (ar_Verbs res) else find_kind kind rs)"

definition checkResource :: "discovery_client \<Rightarrow> string \<Rightarrow> string \<Rightarrow> string \<times> string \<times> check_line" where
  "checkResource dc kind groupVersion =
     (kind, groupVersion,
      (case ServerResourcesForGroupVersion dc groupVersion of
         Inl err \<Rightarrow> CheckFailed err
       | Inr resources \<Rightarrow> find_kind kind (rl_APIResources resources)))"

record report =
  rp_Warning :: "go_error option"
  rp_Stats :: stats
  rp_Common :: "common_line list"
  rp_Checks :: "(string \<times> string \<times> check_line) list"

text \<open>How a program ends: it returns, exits with a code, or panics.\<close>

datatype ending = Returns | Exits nat | Panics panic

definition report_main :: "'cfg discovery_env \<Rightarrow> report option \<times> ending" where
  "report_main e =
     (case ClientConfig e of
        Inl err \<Rightarrow> (None, Panics (PanicErr (Error err)))
      | Inr rc \<Rightarrow>
          (case NewDiscoveryClientForConfig e rc of
             Inl err \<Rightarrow> (None, Panics (PanicErr (Error err)))
           | Inr dc \<Rightarrow>
               (let (rls, err) = ServerPreferredResources dc;
                    stats = count_lists rls \<lparr>st_totalResources = 0, st_groups = Map.empty, st_verbs = Map.empty\<rparr>
                in (Some \<lparr>rp_Warning = err, rp_Stats = stats, rp_Common = common_lists rls [],
                      rp_Checks = [checkResource dc ''Pod'' ''v1'', checkResource dc ''Deployment'' ''apps/v1'',
                        checkResource dc ''CronJob'' ''batch/v1'', checkResource dc ''Ingress'' ''networking.k8s.io/v1'']\<rparr>,
                    (case NewAggregate e [] of
                       None \<Rightarrow> Panics NilDereference
                     | Some aggregate \<Rightarrow> if 0 < length (ag_Errors aggregate) then Exits 1 else Returns)))))"

text \<open>\<open>NewAggregate\<close> of no errors is nil, of some errors it holds them.\<close>

definition new_aggregate_law :: "'cfg discovery_env \<Rightarrow> bool" where
  "new_aggregate_law e \<longleftrightarrow>
     (\<forall>errs. if errs = [] then NewAggregate e errs = None else \<exists>a. NewAggregate e errs = Some a \<and> ag_Errors a = errs)"

subsection \<open>Specification\<close>

text \<open>The resources with a verb, in the order of the lists.\<close>

definition infos :: "APIResourceList list \<Rightarrow> info list" where
  "infos rls = concat (map (\<lambda>l. map (\<lambda>el. \<lparr>in_Kind = ar_Kind el, in_APIVersion = rl_GroupVersion l, in_Name = ar_Name el,
      in_Verbs = ar_Verbs el\<rparr>) (filter (\<lambda>el. ar_Verbs el \<noteq> []) (rl_APIResources l))) rls)"

definition all_resources :: "APIResourceList list \<Rightarrow> (string \<times> APIResource) list" where
  "all_resources rls = concat (map (\<lambda>l. map (Pair (rl_GroupVersion l)) (rl_APIResources l)) rls)"

text \<open>A counter as a map: a key that was never counted is absent.\<close>

definition counter :: "nat \<Rightarrow> nat option" where
  "counter n = (if n = 0 then None else Some n)"

definition projl_all :: "('a + 'b) list \<Rightarrow> 'a list" where
  "projl_all xs = map projl (filter isl xs)"

definition projr_all :: "('a + 'b) list \<Rightarrow> 'b list" where
  "projr_all xs = map projr (filter (\<lambda>x. \<not> isl x) xs)"

text \<open>The statistics after some lists, as counters of what they hold.\<close>

definition stats_of :: "(string \<times> APIResource) list \<Rightarrow> stats" where
  "stats_of rs = \<lparr>st_totalResources = length rs, st_groups = (\<lambda>gv. counter (count_list (map fst rs) gv)),
     st_verbs = (\<lambda>v. counter (count_list (concat (map (ar_Verbs \<circ> snd) rs)) v))\<rparr>"

text \<open>A server with two groups, one of them with a resource without verbs.\<close>

definition demo_lists :: "APIResourceList list" where
  "demo_lists =
     [\<lparr>rl_GroupVersion = ''v1'', rl_APIResources =
         [\<lparr>ar_Name = ''pods'', ar_Kind = ''Pod'', ar_Verbs = [''get'', ''list'']\<rparr>,
          \<lparr>ar_Name = ''bindings'', ar_Kind = ''Binding'', ar_Verbs = []\<rparr>]\<rparr>,
      \<lparr>rl_GroupVersion = ''apps/v1'', rl_APIResources = [\<lparr>ar_Name = ''deployments'', ar_Kind = ''Deployment'', ar_Verbs = [''get'']\<rparr>]\<rparr>]"

definition demo_client :: discovery_client where
  "demo_client = \<lparr>ServerPreferredResources = (demo_lists, None),
     ServerResourcesForGroupVersion = (\<lambda>gv. case find (\<lambda>l. rl_GroupVersion l = gv) demo_lists of
        None \<Rightarrow> Inl (StatusError ReasonNotFound gv) | Some l \<Rightarrow> Inr l)\<rparr>"

definition demo_discovery :: "unit discovery_env" where
  "demo_discovery = \<lparr>ClientConfig = Inr (), NewDiscoveryClientForConfig = (\<lambda>_. Inr demo_client),
     NewCachedDiscoveryClientForConfig = (\<lambda>_ _ _ _. Inr demo_client), HomeDir = ''/root'', Join = concat,
     Marshal_info = (\<lambda>i. Inr (in_Name i)),
     NewAggregate = (\<lambda>errs. if errs = [] then None else Some \<lparr>ag_Error = concat (map Error errs), ag_Errors = errs\<rparr>)\<rparr>"

section \<open>Lemmas\<close>

lemma proj_all_simps [simp]:
  "projl_all [] = []" "projr_all [] = []"
  "projl_all (Inl x # xs) = x # projl_all xs" "projr_all (Inl x # xs) = projr_all xs"
  "projl_all (Inr y # xs) = projl_all xs" "projr_all (Inr y # xs) = y # projr_all xs"
  "projl_all (xs @ zs) = projl_all xs @ projl_all zs" "projr_all (xs @ zs) = projr_all xs @ projr_all zs"
  by (simp_all add: projl_all_def projr_all_def)

lemma proj_all_length: "length (projl_all xs) + length (projr_all xs) = length xs"
  unfolding projl_all_def projr_all_def length_map by (rule sum_length_filter_compl)

lemma infos_simps [simp]:
  "infos [] = []"
  "infos (l # rls) = map (\<lambda>el. \<lparr>in_Kind = ar_Kind el, in_APIVersion = rl_GroupVersion l, in_Name = ar_Name el,
      in_Verbs = ar_Verbs el\<rparr>) (filter (\<lambda>el. ar_Verbs el \<noteq> []) (rl_APIResources l)) @ infos rls"
  by (simp_all add: infos_def)

lemma all_resources_simps [simp]:
  "all_resources [] = []"
  "all_resources (l # rls) = map (Pair (rl_GroupVersion l)) (rl_APIResources l) @ all_resources rls"
  by (simp_all add: all_resources_def)

lemma print_resources_spec:
  "print_resources M gv els (out, errs) =
     (let rs = map M (map (\<lambda>el. \<lparr>in_Kind = ar_Kind el, in_APIVersion = gv, in_Name = ar_Name el, in_Verbs = ar_Verbs el\<rparr>)
          (filter (\<lambda>el. ar_Verbs el \<noteq> []) els))
      in (out @ projr_all rs, errs @ projl_all rs))"
  by (induction els arbitrary: out errs) (auto simp: Let_def split: sum.splits)

lemma print_lists_spec:
  "print_lists M rls (out, errs) = (out @ projr_all (map M (infos rls)), errs @ projl_all (map M (infos rls)))"
  by (induction rls arbitrary: out errs) (simp_all add: print_resources_spec Let_def)

lemma count_verbs_spec:
  "count_verbs vs m v = (if v \<in> set vs then Some ((case m v of None \<Rightarrow> 0 | Some c \<Rightarrow> c) + count_list vs v) else m v)"
  by (induction vs arbitrary: m) (auto simp: bump_def split: option.splits)

lemma counter_add:
  "(case counter a of None \<Rightarrow> 0 | Some c \<Rightarrow> c) = a" "counter a = None \<longleftrightarrow> a = 0"
  by (simp_all add: counter_def)

lemma count_verbs_counter:
  assumes "\<And>v. m v = counter (f v)"
  shows "count_verbs vs m v = counter (f v + count_list vs v)"
  by (auto simp: count_verbs_spec assms counter_add(1)) (auto simp: counter_def count_list_0_iff)

lemma bump_counter:
  assumes "\<And>v. m v = counter (f v)" and "0 < n"
  shows "bump m k n v = counter (f v + (if v = k then n else 0))"
  using assms(2) by (simp add: bump_def assms(1) counter_add(1)) (simp add: counter_def)

lemma count_resources_spec:
  assumes "\<And>v. st_verbs st v = counter (f v)"
  shows "count_resources rs st = st\<lparr>st_totalResources := st_totalResources st + length rs,
    st_verbs := (\<lambda>v. counter (f v + count_list (concat (map ar_Verbs rs)) v))\<rparr>"
  using assms
proof (induction rs arbitrary: st f)
  case Nil
  then have "st_verbs st = (\<lambda>v. counter (f v))" by (simp add: fun_eq_iff)
  then show ?case by simp
next
  case (Cons r rs)
  let ?st = "st\<lparr>st_totalResources := st_totalResources st + 1, st_verbs := count_verbs (ar_Verbs r) (st_verbs st)\<rparr>"
  have v: "st_verbs ?st v = counter (f v + count_list (ar_Verbs r) v)" for v
    using count_verbs_counter [OF Cons.prems] by simp
  show ?case using Cons.IH [OF v] by (simp add: add.assoc)
qed

lemma count_list_const: "count_list (map (\<lambda>x. k) xs) v = (if v = k then length xs else 0)"
  by (induction xs) auto

lemma count_lists_step:
  assumes "rl_APIResources l \<noteq> []"
  shows "count_resources (rl_APIResources l)
      (stats_of rs\<lparr>st_groups := bump (st_groups (stats_of rs)) (rl_GroupVersion l) (length (rl_APIResources l))\<rparr>)
    = stats_of (rs @ map (Pair (rl_GroupVersion l)) (rl_APIResources l))"
proof -
  have g: "bump (st_groups (stats_of rs)) (rl_GroupVersion l) (length (rl_APIResources l)) gv =
      counter (count_list (map fst rs) gv + (if gv = rl_GroupVersion l then length (rl_APIResources l) else 0))" for gv
    using assms by (intro bump_counter) (simp_all add: stats_of_def)
  show ?thesis
    by (subst count_resources_spec [where f = "\<lambda>v. count_list (concat (map (ar_Verbs \<circ> snd) rs)) v"])
      (simp_all add: stats_of_def g [unfolded stats_of_def, simplified] fun_eq_iff comp_def count_list_const)
qed

lemma count_lists_stats_of: "count_lists rls (stats_of rs) = stats_of (rs @ all_resources rls)"
proof (induction rls arbitrary: rs)
  case (Cons l rls)
  show ?case
  proof (cases "rl_APIResources l = []")
    case False
    then show ?thesis by (simp add: count_lists_step Cons.IH)
  qed (simp add: Cons.IH)
qed simp

lemma count_lists_spec:
  "count_lists rls \<lparr>st_totalResources = 0, st_groups = Map.empty, st_verbs = Map.empty\<rparr> = stats_of (all_resources rls)"
proof -
  have "stats_of [] = \<lparr>st_totalResources = 0, st_groups = Map.empty, st_verbs = Map.empty\<rparr>"
    by (simp add: stats_of_def counter_def)
  then show ?thesis using count_lists_stats_of [of rls "[]"] by simp
qed

lemma is_one_of_iff: "is_one_of name rs \<longleftrightarrow> name \<in> set rs"
  by (induction rs) auto

lemma common_resources_spec:
  "common_resources gv rs out =
     out @ map (\<lambda>r. (ar_Kind r, gv, ar_Verbs r)) (filter (\<lambda>r. ar_Name r \<in> set commonResources) rs)"
  by (induction rs arbitrary: out) (auto simp: isCommonResource_def is_one_of_iff)

lemma common_lists_spec:
  "common_lists rls out = out @ map (\<lambda>(gv, r). (ar_Kind r, gv, ar_Verbs r))
     (filter (\<lambda>(gv, r). ar_Name r \<in> set commonResources) (all_resources rls))"
  by (induction rls arbitrary: out) (auto simp: common_resources_spec filter_map comp_def)

lemma find_kind_spec:
  "find_kind kind rs = (case find (\<lambda>r. ar_Kind r = kind) rs of None \<Rightarrow> NotFound | Some r \<Rightarrow> Supported (ar_Verbs r))"
  by (induction rs) auto

lemma checkResource_spec:
  "checkResource dc kind gv = (kind, gv, case ServerResourcesForGroupVersion dc gv of Inl er \<Rightarrow> CheckFailed er
     | Inr l \<Rightarrow> (case find (\<lambda>x. ar_Kind x = kind) (rl_APIResources l) of None \<Rightarrow> NotFound | Some x \<Rightarrow> Supported (ar_Verbs x)))"
  by (simp add: checkResource_def find_kind_spec split: sum.splits)

lemma panic_aggregate_law:
  assumes "new_aggregate_law e" and "errs \<noteq> []"
  shows "\<exists>a. NewAggregate e errs = Some a \<and> ag_Errors a = errs \<and> panic_aggregate e errs = Panic (PanicErr (ag_Error a))"
  using assms unfolding new_aggregate_law_def panic_aggregate_def by (metis option.simps(5))

lemma demo_discovery_law: "new_aggregate_law demo_discovery"
  by (simp add: new_aggregate_law_def demo_discovery_def)

section \<open>Properties\<close>

text \<open>Once a client is made, the listing program prints the JSON of exactly the resources that have a verb and can be
  marshalled, in the order of the server; a failure to fetch some groups or to marshal a resource does not stop it. Every
  resource with a verb is printed or its error is kept. The program returns when there was no error and otherwise panics
  with the aggregate of all of them. The cached client, when it answers like the plain one, gives the same run.\<close>

theorem discovery_lists_all:
  assumes "new_aggregate_law e" and "ClientConfig e = Inr rc" and "NewDiscoveryClientForConfig e rc = Inr dc"
    and "ServerPreferredResources dc = (rls, err)"
    and "errs = (case err of None \<Rightarrow> [] | Some er \<Rightarrow> [er]) @ projl_all (map (Marshal_info e) (infos rls))"
  shows "fst (discovery_main e) = projr_all (map (Marshal_info e) (infos rls)) \<and>
    (if errs = [] then snd (discovery_main e) = Ret ()
     else \<exists>a. NewAggregate e errs = Some a \<and> ag_Errors a = errs \<and> snd (discovery_main e) = Panic (PanicErr (ag_Error a))) \<and>
    length (fst (discovery_main e)) + length errs = length (infos rls) + (if err = None then 0 else 1) \<and>
    (NewCachedDiscoveryClientForConfig e rc (Join e [HomeDir e, ''.cache/discovery'']) (Join e [HomeDir e, ''.cache/http''])
        (60 * Minute) = Inr dc \<longrightarrow> cached_discovery_main e = discovery_main e)"
proof (intro conjI)
  have run: "discovery_main e = (projr_all (map (Marshal_info e) (infos rls)),
      if errs = [] then Ret () else panic_aggregate e errs)"
    using assms(2-4) unfolding assms(5) by (simp add: discovery_main_def list_resources_def print_lists_spec Let_def)
  show "fst (discovery_main e) = projr_all (map (Marshal_info e) (infos rls))" by (simp add: run)
  show "if errs = [] then snd (discovery_main e) = Ret ()
     else \<exists>a. NewAggregate e errs = Some a \<and> ag_Errors a = errs \<and> snd (discovery_main e) = Panic (PanicErr (ag_Error a))"
    using panic_aggregate_law [OF assms(1)] by (simp add: run)
  show "length (fst (discovery_main e)) + length errs = length (infos rls) + (if err = None then 0 else 1)"
    using proj_all_length [of "map (Marshal_info e) (infos rls)"] by (cases err) (simp_all add: run assms(5))
  show "NewCachedDiscoveryClientForConfig e rc (Join e [HomeDir e, ''.cache/discovery'']) (Join e [HomeDir e, ''.cache/http''])
        (60 * Minute) = Inr dc \<longrightarrow> cached_discovery_main e = discovery_main e"
    using assms(2,3) by (simp add: cached_discovery_main_def discovery_main_def mult.commute)
qed

theorem discovery_lists_all_witness:
  "discovery_main demo_discovery = ([''pods'', ''deployments''], Ret ()) \<and>
   cached_discovery_main demo_discovery = discovery_main demo_discovery"
  using discovery_lists_all [OF demo_discovery_law, of "()" demo_client demo_lists None "[]"]
  by (auto simp: demo_discovery_def demo_client_def demo_lists_def prod_eq_iff)

text \<open>The report counts right: the total is the number of resources of all lists, each group version is shown with the
  number of its resources and each verb with the number of its occurrences, and nothing else is shown; the examples are the
  resources with a common name, in order; each check shows the first resource of the kind, that there is none, or the error.
  The program never ends well: it asks the aggregate of no errors, which is nil, for its errors, and panics.\<close>

theorem discovery_report_counts:
  assumes "new_aggregate_law e" and "ClientConfig e = Inr rc" and "NewDiscoveryClientForConfig e rc = Inr dc"
    and "ServerPreferredResources dc = (rls, err)"
  shows "\<exists>r. report_main e = (Some r, Panics NilDereference) \<and> rp_Warning r = err \<and>
    st_totalResources (rp_Stats r) = (\<Sum>l\<leftarrow>rls. length (rl_APIResources l)) \<and>
    st_groups (rp_Stats r) = (\<lambda>gv. counter (count_list (map fst (all_resources rls)) gv)) \<and>
    st_verbs (rp_Stats r) = (\<lambda>v. counter (count_list (concat (map (ar_Verbs \<circ> snd) (all_resources rls))) v)) \<and>
    rp_Common r = map (\<lambda>(gv, x). (ar_Kind x, gv, ar_Verbs x))
      (filter (\<lambda>(gv, x). ar_Name x \<in> set commonResources) (all_resources rls)) \<and>
    rp_Checks r = map (\<lambda>(kind, gv). (kind, gv, case ServerResourcesForGroupVersion dc gv of Inl er \<Rightarrow> CheckFailed er
        | Inr l \<Rightarrow> (case find (\<lambda>x. ar_Kind x = kind) (rl_APIResources l) of None \<Rightarrow> NotFound | Some x \<Rightarrow> Supported (ar_Verbs x))))
      [(''Pod'', ''v1''), (''Deployment'', ''apps/v1''), (''CronJob'', ''batch/v1''), (''Ingress'', ''networking.k8s.io/v1'')]"
proof -
  have nil: "NewAggregate e [] = None" using assms(1) unfolding new_aggregate_law_def by (metis (full_types))
  have len: "length (all_resources rls) = (\<Sum>l\<leftarrow>rls. length (rl_APIResources l))" by (induction rls) simp_all
  show ?thesis
    using assms(2-4)
    by (simp add: report_main_def nil count_lists_spec common_lists_spec checkResource_spec Let_def)
      (simp add: stats_of_def len)
qed

theorem discovery_report_counts_witness:
  "\<exists>r. report_main demo_discovery = (Some r, Panics NilDereference) \<and> st_totalResources (rp_Stats r) = 3 \<and>
     st_verbs (rp_Stats r) ''get'' = Some 2 \<and> st_groups (rp_Stats r) ''v1'' = Some 2"
proof -
  obtain r where "report_main demo_discovery = (Some r, Panics NilDereference)"
    and "st_totalResources (rp_Stats r) = (\<Sum>l\<leftarrow>demo_lists. length (rl_APIResources l))"
    and "st_groups (rp_Stats r) = (\<lambda>gv. counter (count_list (map fst (all_resources demo_lists)) gv))"
    and "st_verbs (rp_Stats r) = (\<lambda>v. counter (count_list (concat (map (ar_Verbs \<circ> snd) (all_resources demo_lists))) v))"
    using discovery_report_counts [OF demo_discovery_law, of "()" demo_client demo_lists None]
    by (auto simp: demo_discovery_def demo_client_def)
  then show ?thesis by (auto simp: demo_lists_def counter_def)
qed

end
