(* ===== verification/Local_Tools.thy ===== *)
theory Local_Tools
  imports Client_Config
begin

text \<open>
  Small programs that run on their own: the directory helper
  \<open>src/template/examples-form-rancher-local-path-provisioner/distroless/main.go\<close>, the credential plugin
  of \<open>src/kubernetes-plugins/\<close>, and the helpers of the end-to-end tests in
  \<open>src/webhook/using-kubebuilder/test/utils/utils.go\<close>.

  The file system, the operating system's commands and the JSON encoder are parameters; calls are logged.
\<close>

section \<open>Definitions\<close>

subsection \<open>The directory helper\<close>

datatype fcall =
    FStderr string
  | FRemoveAll string "go_error option"
  | FUmask nat
  | FMkdirAll string nat "go_error option"

record fs_env =
  fs_RemoveAll :: "fcall list \<Rightarrow> string \<Rightarrow> go_error option"
  fs_MkdirAll :: "fcall list \<Rightarrow> string \<Rightarrow> nat \<Rightarrow> go_error option"

definition exit_with :: "string \<Rightarrow> (fcall list, nat) state" where
  "exit_with msg = do { note_call (FStderr msg); return 1 }"

text \<open>The result is the exit status; 511 is the mode 0777.\<close>

definition helper_main :: "fs_env \<Rightarrow> string \<Rightarrow> string \<Rightarrow> (fcall list, nat) state" where
  "helper_main e action path =
     (if action \<noteq> ''create'' \<and> action \<noteq> ''delete'' then exit_with (''Incorrect action: '' @ action)
      else if path = '''' then exit_with ''Path is empty''
      else if path = ''/'' then exit_with (''Path cannot be '' @ [CHR 0x27, CHR ''/'', CHR 0x27])
      else if action = ''delete'' then do {
        err \<leftarrow> perform (\<lambda>h. fs_RemoveAll e h path) (FRemoveAll path);
        (case err of
           Some er \<Rightarrow> exit_with (''Cannot remove directory '' @ path @ '': '' @ Error er)
         | None \<Rightarrow> return 0)
      }
      else do {
        note_call (FUmask 0);
        err \<leftarrow> perform (\<lambda>h. fs_MkdirAll e h path 511) (FMkdirAll path 511);
        (case err of
           Some er \<Rightarrow> exit_with (''Cannot create directory '' @ path @ '': '' @ Error er)
         | None \<Rightarrow> return 0)
      })"

subsection \<open>Plugins\<close>

text \<open>The token the credential plugin prints, or the message and status with which it fails.\<close>

definition credential_main :: "(string \<Rightarrow> go_error + string) \<Rightarrow> string \<times> nat" where
  "credential_main Marshal =
     (let token = ''your-static-token'' in
      (case Marshal token of
         Inl err \<Rightarrow> (''Error marshaling response: '' @ Error err, 1)
       | Inr response \<Rightarrow> (response, 0)))"

subsection \<open>Helpers of the end-to-end tests\<close>

abbreviation newline :: char where
  "newline \<equiv> CHR 0x0A"

fun keep_nonempty :: "string list \<Rightarrow> string list \<Rightarrow> string list" where
  "keep_nonempty res [] = res"
| "keep_nonempty res (element # elements) = keep_nonempty (if element \<noteq> '''' then res @ [element] else res) elements"

definition GetNonEmptyLines :: "string \<Rightarrow> string list" where
  "GetNonEmptyLines output = keep_nonempty [] (split_on newline output)"

text \<open>\<open>strings.Replace\<close> of all occurrences of a pattern by nothing, from left to right.\<close>

function remove_all :: "string \<Rightarrow> string \<Rightarrow> string" where
  "remove_all p s =
     (if p \<noteq> '''' \<and> HasPrefix s p then remove_all p (drop (length p) s)
      else (case s of [] \<Rightarrow> [] | c # cs \<Rightarrow> c # remove_all p cs))"
  by auto
termination
proof (relation "measure (length \<circ> snd)", goal_cases)
  case (2 p s)
  then have "0 < length p" "length p \<le> length s" by (auto simp: HasPrefix_def) (metis length_take min.absorb_iff2 min.commute)
  then have "length s - length p < length s" by linarith
  then show ?case by simp
qed auto

declare remove_all.simps [simp del]

datatype ucall = UChdir string "go_error option" | UCommand "string list" string "string list" "string \<times> go_error option" | UWarn string

record os_env =
  os_Getwd :: "string \<times> go_error option"
  os_Chdir :: "ucall list \<Rightarrow> string \<Rightarrow> go_error option"
  os_Environ :: "string list"
  os_LookupEnv :: "string \<Rightarrow> string option"
  os_CombinedOutput :: "ucall list \<Rightarrow> string list \<Rightarrow> string \<Rightarrow> string list \<Rightarrow> string \<times> go_error option"

definition GetProjectDir :: "os_env \<Rightarrow> string \<times> go_error option" where
  "GetProjectDir e =
     (case os_Getwd e of
        (wd, Some err) \<Rightarrow> (wd, Some err)
      | (wd, None) \<Rightarrow> (remove_all ''/test/e2e'' wd, None))"

text \<open>A command runs in the project directory, also when the change to that directory failed.\<close>

definition Run :: "os_env \<Rightarrow> string list \<Rightarrow> (ucall list, string \<times> go_error option) state" where
  "Run e args = do {
     let dir = fst (GetProjectDir e);
     _ \<leftarrow> perform (\<lambda>h. os_Chdir e h dir) (UChdir dir);
     let env = os_Environ e @ [''GO111MODULE=on''];
     let command = join_on (CHR '' '') args;
     r \<leftarrow> perform (\<lambda>h. os_CombinedOutput e h args dir env) (UCommand args dir env);
     (case r of
        (output, Some err) \<Rightarrow> return (output, Some (PlainError (command @ '' failed with error: ('' @ Error err @ '') '' @ output)))
      | (output, None) \<Rightarrow> return (output, None))
   }"

definition run_error :: "os_env \<Rightarrow> string list \<Rightarrow> (ucall list, go_error option) state" where
  "run_error e args = do { r \<leftarrow> Run e args; return (snd r) }"

definition warnError :: "go_error \<Rightarrow> (ucall list, unit) state" where
  "warnError err = note_call (UWarn (''warning: '' @ Error err))"

definition run_warn :: "os_env \<Rightarrow> string list \<Rightarrow> (ucall list, unit) state" where
  "run_warn e args = do {
     err \<leftarrow> run_error e args;
     (case err of Some er \<Rightarrow> warnError er | None \<Rightarrow> return ())
   }"

definition prometheus_url :: string where
  "prometheus_url = ''https://github.com/prometheus-operator/prometheus-operator/'' @ ''releases/download/'' @ ''v0.72.0'' @ ''/bundle.yaml''"

definition certmanager_url :: string where
  "certmanager_url = ''https://github.com/jetstack/cert-manager/releases/download/'' @ ''v1.14.4'' @ ''/cert-manager.yaml''"

definition InstallPrometheusOperator :: "os_env \<Rightarrow> (ucall list, go_error option) state" where
  "InstallPrometheusOperator e = run_error e [''kubectl'', ''create'', ''-f'', prometheus_url]"

definition UninstallPrometheusOperator :: "os_env \<Rightarrow> (ucall list, unit) state" where
  "UninstallPrometheusOperator e = run_warn e [''kubectl'', ''delete'', ''-f'', prometheus_url]"

definition UninstallCertManager :: "os_env \<Rightarrow> (ucall list, unit) state" where
  "UninstallCertManager e = run_warn e [''kubectl'', ''delete'', ''-f'', certmanager_url]"

definition InstallCertManager :: "os_env \<Rightarrow> (ucall list, go_error option) state" where
  "InstallCertManager e = do {
     err \<leftarrow> run_error e [''kubectl'', ''apply'', ''-f'', certmanager_url];
     (case err of
        Some er \<Rightarrow> return (Some er)
      | None \<Rightarrow> run_error e [''kubectl'', ''wait'', ''deployment.apps/cert-manager-webhook'', ''--for'', ''condition=Available'',
          ''--namespace'', ''cert-manager'', ''--timeout'', ''5m''])
   }"

definition LoadImageToKindClusterWithName :: "os_env \<Rightarrow> string \<Rightarrow> (ucall list, go_error option) state" where
  "LoadImageToKindClusterWithName e name =
     (let cluster = (case os_LookupEnv e ''KIND_CLUSTER'' of Some v \<Rightarrow> v | None \<Rightarrow> ''kind'') in
      run_error e [''kind'', ''load'', ''docker-image'', name, ''--name'', cluster])"

section \<open>Lemmas\<close>

lemma keep_nonempty_filter: "keep_nonempty res xs = res @ filter (\<lambda>s. s \<noteq> '''') xs"
  by (induction xs arbitrary: res) auto

lemma GetNonEmptyLines_filter: "GetNonEmptyLines output = filter (\<lambda>s. s \<noteq> '''') (split_on newline output)"
  by (simp add: GetNonEmptyLines_def keep_nonempty_filter)

lemma remove_all_Nil [simp]: "remove_all p [] = []"
  by (subst remove_all.simps) (auto simp: HasPrefix_def)

lemma remove_all_append:
  assumes "p \<noteq> ''''" shows "remove_all p (p @ s) = remove_all p s"
  using assms by (subst remove_all.simps) (simp add: HasPrefix_def)

text \<open>A string without the first character of the pattern is kept.\<close>

lemma remove_all_free: "c \<notin> set s \<Longrightarrow> remove_all (c # p) s = s"
proof (induction s)
  case (Cons x xs)
  then show ?case by (subst remove_all.simps) (auto simp: HasPrefix_def)
qed simp

lemma run_error_run:
  "\<exists>x out err. run_state (run_error e args) h = (map_option (\<lambda>er. PlainError (join_on (CHR '' '') args @ '' failed with error: ('' @ Error er @ '') '' @ out)) err,
     h @ [UChdir (fst (GetProjectDir e)) x, UCommand args (fst (GetProjectDir e)) (os_Environ e @ [''GO111MODULE=on'']) (out, err)])"
  by (auto simp: run_error_def Run_def Let_def split: prod.split option.split)

section \<open>Properties\<close>

text \<open>The directory helper touches the file system only through the path it was given, and only for one of its two actions and
  a path that is neither empty nor the string \<open>/\<close>; its status is zero exactly when that one operation succeeded. The check is on
  the text: other spellings of the root, such as \<open>//\<close>, clean to \<open>/\<close> and are deleted recursively.\<close>

theorem helper_guard:
  assumes "run_state (helper_main e action path) [] = (status, h)"
  shows "(\<forall>p x. FRemoveAll p x \<in> set h \<longrightarrow> p = path \<and> action = ''delete'' \<and> path \<notin> {'''', ''/''}) \<and>
    (\<forall>p m x. FMkdirAll p m x \<in> set h \<longrightarrow> p = path \<and> m = 511 \<and> action = ''create'' \<and> path \<notin> {'''', ''/''}) \<and>
    (status = 0 \<longleftrightarrow> FRemoveAll path None \<in> set h \<or> FMkdirAll path 511 None \<in> set h) \<and> status \<le> 1 \<and>
    (action \<in> {''create'', ''delete''} \<and> path \<notin> {'''', ''/''} \<longrightarrow>
       (\<exists>x. FRemoveAll path x \<in> set h) \<or> (\<exists>x. FMkdirAll path 511 x \<in> set h)) \<and>
    path_Clean ''//'' = ''/'' \<and> (\<exists>x. FRemoveAll ''//'' x \<in> set (snd (run_state (helper_main e ''delete'' ''//'') [])))"
proof -
  have "path_Clean ''//'' = ''/''" by code_simp
  moreover have "\<exists>x. FRemoveAll ''//'' x \<in> set (snd (run_state (helper_main e ''delete'' ''//'') []))"
    by (cases "fs_RemoveAll e [] ''//''") (auto simp: helper_main_def exit_with_def)
  ultimately show ?thesis using assms
    by (auto simp: helper_main_def exit_with_def split: if_splits option.splits)
qed

theorem helper_guard_witness:
  "fst (run_state (helper_main \<lparr>fs_RemoveAll = (\<lambda>_ _. None), fs_MkdirAll = (\<lambda>_ _ _. None)\<rparr> ''create'' ''/data/pvc-1'') []) = 0 \<and>
   (\<exists>x. FMkdirAll ''/data/pvc-1'' 511 x \<in>
      set (snd (run_state (helper_main \<lparr>fs_RemoveAll = (\<lambda>_ _. None), fs_MkdirAll = (\<lambda>_ _ _. None)\<rparr> ''create'' ''/data/pvc-1'') [])))"
proof -
  let ?e = "\<lparr>fs_RemoveAll = (\<lambda>_ _. None), fs_MkdirAll = (\<lambda>_ _ _. None)\<rparr>"
  have "fst (run_state (helper_main ?e ''create'' ''/data/pvc-1'') []) = 0" by (simp add: helper_main_def)
  then show ?thesis using helper_guard [OF prod.collapse [symmetric], of ?e "''create''" "''/data/pvc-1''"] by auto
qed

text \<open>The lines of a command's output: \<open>GetNonEmptyLines\<close> gives back exactly the non-empty lines that were joined, in their
  order, however many blank lines are between them, and every line it returns is non-empty and without a line break.\<close>

theorem GetNonEmptyLines_roundtrip:
  "(\<forall>ls. ls \<noteq> [] \<and> list_all (\<lambda>l. newline \<notin> set l) ls \<longrightarrow>
      GetNonEmptyLines (join_on newline ls) = filter (\<lambda>l. l \<noteq> '''') ls) \<and>
   (\<forall>l\<in>set (GetNonEmptyLines output). l \<noteq> '''' \<and> newline \<notin> set l) \<and>
   GetNonEmptyLines (join_on newline (GetNonEmptyLines output)) = GetNonEmptyLines output"
proof (intro conjI allI impI ballI)
  have lines: "l \<noteq> '''' \<and> newline \<notin> set l" if "l \<in> set (GetNonEmptyLines output)" for l
    using that split_on_no_sep [of l newline "output"] by (auto simp: GetNonEmptyLines_filter)
  show joined: "GetNonEmptyLines (join_on newline ls) = filter (\<lambda>l. l \<noteq> '''') ls"
    if "ls \<noteq> [] \<and> list_all (\<lambda>l. newline \<notin> set l) ls" for ls
    using that split_join [of ls newline] by (simp add: GetNonEmptyLines_filter)
  show "l \<noteq> ''''" "newline \<notin> set l" if "l \<in> set (GetNonEmptyLines output)" for l using lines [OF that] by auto
  show "GetNonEmptyLines (join_on newline (GetNonEmptyLines output)) = GetNonEmptyLines output"
  proof (cases "GetNonEmptyLines output = []")
    case True
    then show ?thesis by (simp add: GetNonEmptyLines_filter)
  next
    case False
    then show ?thesis using joined [of "GetNonEmptyLines output"] lines by (simp add: list_all_iff filter_id_conv)
  qed
qed

theorem GetNonEmptyLines_roundtrip_witness:
  "GetNonEmptyLines (join_on newline [''pod-a'', '''', ''pod-b'']) = [''pod-a'', ''pod-b'']"
proof -
  have "GetNonEmptyLines (join_on newline [''pod-a'', '''', ''pod-b'']) = filter (\<lambda>l. l \<noteq> '''') [''pod-a'', '''', ''pod-b'']"
    by (rule GetNonEmptyLines_roundtrip [of "[]", THEN conjunct1, rule_format]) simp
  then show ?thesis by simp
qed

end
