(* ===== verification/Test_Programs.thy ===== *)
theory Test_Programs
  imports Calculator Local_Tools Manager_Setup
begin

text \<open>
  The tests of the repository, as programs: the suites and the controller test of \<open>src/webhook/using-kubebuilder\<close>, its end-to-end
  test, the fake-client test among the official examples and the reflector test.

  An expectation of Gomega that is not met ends the test; \<open>Eventually\<close> repeats a function until it returns no error. How often it
  does so before its time is over is a parameter. A test is a state transformer over the log of what it did; the fake-client test,
  which waits for goroutines of the informer, is a step relation.
\<close>

section \<open>Definitions\<close>

subsection \<open>Expectations\<close>

text \<open>The verdict of a part of a test is the error of the expectation that was not met. \<open>and_then\<close> goes on only after success.\<close>

definition and_then :: "('h, go_error option) state \<Rightarrow> ('h, go_error option) state \<Rightarrow> ('h, go_error option) state" where
  "and_then m m' = do {
     err \<leftarrow> m;
     (case err of Some er \<Rightarrow> return (Some er) | None \<Rightarrow> m')
   }"

text \<open>One attempt of a function given to \<open>Eventually\<close>: an unmet expectation inside of it ends the test, an error is tried again.\<close>

datatype attempt = Up | Again go_error | Unmet go_error

fun eventually_up :: "nat \<Rightarrow> ('h, attempt) state \<Rightarrow> ('h, go_error option) state" where
  "eventually_up 0 m = return (Some (PlainError ''Timed out''))"
| "eventually_up (Suc n) m = do {
     a \<leftarrow> m;
     (case a of Up \<Rightarrow> return None | Unmet er \<Rightarrow> return (Some er) | Again er \<Rightarrow> eventually_up n m)
   }"

subsection \<open>The end-to-end test\<close>

definition e2e_namespace :: string where
  "e2e_namespace = ''webhook-with-kubebuilder-system''"

definition projectimage :: string where
  "projectimage = ''example.com/webhook-with-kubebuilder:v0.0.1''"

text \<open>The error of the last command is dropped, in both functions.\<close>

definition e2e_BeforeAll :: "os_env \<Rightarrow> (ucall list, go_error option) state" where
  "e2e_BeforeAll e = and_then (InstallPrometheusOperator e) (and_then (InstallCertManager e) (do {
     _ \<leftarrow> Run e [''kubectl'', ''create'', ''ns'', e2e_namespace];
     return None }))"

definition e2e_AfterAll :: "os_env \<Rightarrow> (ucall list, unit) state" where
  "e2e_AfterAll e = do {
     UninstallPrometheusOperator e;
     UninstallCertManager e;
     _ \<leftarrow> Run e [''kubectl'', ''delete'', ''ns'', e2e_namespace];
     return () }"

fun contains :: "string \<Rightarrow> string \<Rightarrow> bool" where
  "contains sub [] = (sub = [])"
| "contains sub (c # cs) = (HasPrefix (c # cs) sub \<or> contains sub cs)"

definition pod_names_command :: "string list" where
  "pod_names_command = [''kubectl'', ''get'', ''pods'', ''-l'', ''control-plane=controller-manager'', ''-o'',
     ''go-template={{ range .items }}{{ if not .metadata.deletionTimestamp }}{{ .metadata.name }}{{ '' @
       [CHR 0x22, CHR 0x5C, CHR ''n'', CHR 0x22] @ '' }}{{ end }}{{ end }}'', ''-n'', e2e_namespace]"

definition pod_phase_command :: "string \<Rightarrow> string list" where
  "pod_phase_command name = [''kubectl'', ''get'', ''pods'', name, ''-o'', ''jsonpath={.status.phase}'', ''-n'', e2e_namespace]"

definition verifyControllerUp :: "os_env \<Rightarrow> (ucall list, attempt) state" where
  "verifyControllerUp e = do {
     r \<leftarrow> Run e pod_names_command;
     (case r of
        (podOutput, Some err) \<Rightarrow> return (Unmet err)
      | (podOutput, None) \<Rightarrow>
          (case GetNonEmptyLines podOutput of
             [controllerPodName] \<Rightarrow>
               if \<not> contains ''controller-manager'' controllerPodName then return (Unmet (PlainError ''to contain substring''))
               else do {
                 r2 \<leftarrow> Run e (pod_phase_command controllerPodName);
                 (case r2 of
                    (status, Some err) \<Rightarrow> return (Unmet err)
                  | (status, None) \<Rightarrow>
                      if status \<noteq> ''Running'' then return (Again (PlainError (''controller pod in '' @ status @ '' status''))) else return Up)
               }
           | podNames \<Rightarrow> return (Again (PlainError
               (''expect 1 controller pods running, but got '' @ show_int (int (length podNames)))))))
   }"

definition deploy_command :: "string list" where
  "deploy_command = [''make'', ''deploy'', ''IMG='' @ projectimage]"

definition e2e_It :: "os_env \<Rightarrow> nat \<Rightarrow> (ucall list, go_error option) state" where
  "e2e_It e n =
     and_then (run_error e [''make'', ''docker-build'', ''IMG='' @ projectimage])
    (and_then (LoadImageToKindClusterWithName e projectimage)
    (and_then (run_error e [''make'', ''install''])
    (and_then (run_error e deploy_command)
      (eventually_up n (verifyControllerUp e)))))"

text \<open>The container of the test: the last part runs in any case.\<close>

definition e2e_test :: "os_env \<Rightarrow> nat \<Rightarrow> (ucall list, go_error option) state" where
  "e2e_test e n = do {
     verdict \<leftarrow> and_then (e2e_BeforeAll e) (e2e_It e n);
     e2e_AfterAll e;
     return verdict }"

subsection \<open>The controller test\<close>

text \<open>What the test does beside the run of the controller: it gets, creates and deletes the object.\<close>

datatype tcall = TGet "go_error + Calculate" | TCreate Calculate "go_error option" | TDelete Calculate "go_error option" | TRun "Calculate call"

record test_env =
  te_Get :: "tcall list \<Rightarrow> NamespacedName \<Rightarrow> go_error + Calculate"
  te_Create :: "tcall list \<Rightarrow> Calculate \<Rightarrow> go_error option"
  te_Delete :: "tcall list \<Rightarrow> Calculate \<Rightarrow> go_error option"
  te_kube :: "tcall list \<Rightarrow> Calculate kube_env"

definition typeNamespacedName :: NamespacedName where
  "typeNamespacedName = \<lparr>nn_Namespace = ''default'', nn_Name = ''test-resource''\<rparr>"

text \<open>The object the test creates: only its name is given, so its specification is the zero value.\<close>

definition test_resource :: Calculate where
  "test_resource = \<lparr>cal_meta = meta0\<lparr>om_Name := ''test-resource'', om_Namespace := ''default''\<rparr>,
     cal_Spec = \<lparr>cs_Action = '''', cs_First = 0, cs_Second = 0\<rparr>, cal_Status = \<lparr>cst_Result = 0\<rparr>\<rparr>"

definition cal_BeforeEach :: "test_env \<Rightarrow> (tcall list, go_error option) state" where
  "cal_BeforeEach e = do {
     g \<leftarrow> perform (\<lambda>h. te_Get e h typeNamespacedName) TGet;
     (case g of
        Inl err \<Rightarrow>
          if IsNotFound err then perform (\<lambda>h. te_Create e h test_resource) (TCreate test_resource) else return None
      | Inr _ \<Rightarrow> return None)
   }"

text \<open>The run of the controller, within the log of the test. A panic fails the test.\<close>

definition run_in_test :: "(Calculate kube_env \<Rightarrow> (Calculate, (ctrl_result \<times> go_error option) outcome) kube) \<Rightarrow> test_env \<Rightarrow>
    (tcall list, go_error option) state" where
  "run_in_test run e = State (\<lambda>h. case run_state (run (te_kube e h)) [] of
     (r, seg) \<Rightarrow> (case r of Ret (_, err) \<Rightarrow> err | Panic p \<Rightarrow> Some (PlainError ''panic''), h @ map TRun seg))"

definition cal_It :: "test_env \<Rightarrow> (tcall list, go_error option) state" where
  "cal_It e = run_in_test (\<lambda>k. cal_Reconcile k typeNamespacedName) e"

definition cal_AfterEach :: "test_env \<Rightarrow> (tcall list, go_error option) state" where
  "cal_AfterEach e = do {
     g \<leftarrow> perform (\<lambda>h. te_Get e h typeNamespacedName) TGet;
     (case g of
        Inl err \<Rightarrow> return (Some err)
      | Inr resource \<Rightarrow> perform (\<lambda>h. te_Delete e h resource) (TDelete resource))
   }"

text \<open>The last part runs in any case; the first unmet expectation is the verdict.\<close>

definition cal_test :: "test_env \<Rightarrow> (tcall list, go_error option) state" where
  "cal_test e = do {
     verdict \<leftarrow> and_then (cal_BeforeEach e) (cal_It e);
     err \<leftarrow> cal_AfterEach e;
     return (case verdict of Some er \<Rightarrow> Some er | None \<Rightarrow> err) }"

subsection \<open>Suites\<close>

datatype suite_step =
    StartEnvironment bool "string list"
  | SuiteAddToScheme string
  | NewClient
  | NewSuiteManager
  | SuiteSetup mgr_step
  | DialUntilReady
  | CancelContext
  | StopEnvironment

datatype suite_call = SuiteStep suite_step "go_error option"

text \<open>The steps up to the first that fails. The first argument of \<open>StartEnvironment\<close> says whether missing CRDs are an error.\<close>

fun expect_steps :: "(suite_call list \<Rightarrow> suite_step \<Rightarrow> go_error option) \<Rightarrow> suite_step list \<Rightarrow> (suite_call list, go_error option) state" where
  "expect_steps e [] = return None"
| "expect_steps e (s # steps) = and_then (perform (\<lambda>h. e h s) (SuiteStep s)) (expect_steps e steps)"

definition webhook_BeforeSuite :: "suite_step list" where
  "webhook_BeforeSuite = [StartEnvironment False [''../../config/crd/bases'', ''../../config/webhook''], SuiteAddToScheme ''math/v1'',
     SuiteAddToScheme ''admission/v1'', NewClient, NewSuiteManager, SuiteSetup SetupWebhookWithManager, DialUntilReady]"

definition controller_BeforeSuite :: "suite_step list" where
  "controller_BeforeSuite = [StartEnvironment True [''../../config/crd/bases''], SuiteAddToScheme ''math/v1'', NewClient]"

definition webhook_AfterSuite :: "suite_step list" where
  "webhook_AfterSuite = [CancelContext, StopEnvironment]"

definition controller_AfterSuite :: "suite_step list" where
  "controller_AfterSuite = [StopEnvironment]"

text \<open>The specs run only when the suite was set up; it is torn down in any case.\<close>

definition run_suite :: "(suite_call list \<Rightarrow> suite_step \<Rightarrow> go_error option) \<Rightarrow> suite_step list \<Rightarrow> suite_step list \<Rightarrow>
    (suite_call list, go_error option) state \<Rightarrow> (suite_call list, go_error option) state" where
  "run_suite e before after specs = do {
     verdict \<leftarrow> and_then (expect_steps e before) specs;
     err \<leftarrow> expect_steps e after;
     return (case verdict of Some er \<Rightarrow> Some er | None \<Rightarrow> err) }"

text \<open>The specs of the webhook: their names, and bodies that expect nothing.\<close>

definition webhook_specs :: "(string \<times> ('h, go_error option) state) list" where
  "webhook_specs =
     [(''Should fill in the default value if a required field is empty'', return None),
      (''Should deny if a required field is empty'', return None),
      (''Should admit if all required fields are provided'', return None)]"

text \<open>Every spec runs, also after one that failed.\<close>

fun run_specs :: "(string \<times> ('h, go_error option) state) list \<Rightarrow> ('h, go_error option) state" where
  "run_specs [] = return None"
| "run_specs ((name, body) # specs) = do {
     verdict \<leftarrow> body;
     rest \<leftarrow> run_specs specs;
     return (case verdict of Some er \<Rightarrow> Some er | None \<Rightarrow> rest) }"

subsection \<open>The reflector test\<close>

datatype test_line = Skipped go_error | Fataled go_error | Logged nat | EmptyCache | EmptyKey

fun check_keys :: "string list \<Rightarrow> test_line list" where
  "check_keys [] = []"
| "check_keys (key # keys) = (if key = '''' then EmptyKey # check_keys keys else check_keys keys)"

definition TestReflectorSimple :: "(string \<Rightarrow> string \<Rightarrow> go_error + 'cfg) \<Rightarrow> ('cfg \<Rightarrow> go_error option) \<Rightarrow> string list \<Rightarrow> test_line list" where
  "TestReflectorSimple BuildConfigFromFlags NewForConfig keys =
     (case BuildConfigFromFlags '''' '''' of
        Inl err \<Rightarrow> [Skipped err]
      | Inr config \<Rightarrow>
          (case NewForConfig config of
             Some err \<Rightarrow> [Fataled err]
           | None \<Rightarrow> Logged (length keys) # (if length keys = 0 then [EmptyCache] else []) @ check_keys keys))"

subsection \<open>The fake-client test\<close>

text \<open>The reactor that the test puts before the others: it opens the watch itself and closes the channel; a second call would close a
  closed channel.\<close>

definition watch_reactor :: "go_error option \<Rightarrow> bool \<Rightarrow> (bool \<times> go_error option \<times> bool) outcome" where
  "watch_reactor watch_err watcherStarted =
     (case watch_err of
        Some err \<Rightarrow> Ret (False, Some err, watcherStarted)
      | None \<Rightarrow> if watcherStarted then Panic (PanicErr ''close of closed channel'') else Ret (True, None, True))"

datatype fc_phase = Syncing | Waiting | Creating | Selecting | Passed | TimedOut | CreateFailed | Crashed

datatype fc_informer = Starting | Listed | Watching

record fc_state =
  fc_test :: fc_phase
  fc_informer :: fc_informer
  fc_synced :: bool
  fc_started :: bool
  fc_created :: bool
  fc_known :: bool
  fc_events :: nat
  fc_pods :: nat

definition fc_init :: fc_state where
  "fc_init = \<lparr>fc_test = Syncing, fc_informer = Starting, fc_synced = False, fc_started = False, fc_created = False,
     fc_known = False, fc_events = 0, fc_pods = 0\<rparr>"

text \<open>
  The informer lists the pods, which syncs its cache, and then opens a watch through the reactors; list and watch show it the pod once
  (\<open>fc_known\<close>), the list when the pod was created before, the watch when it is created while the watch is open. The handler puts
  the pod into the channel, which holds one. The test waits for the cache, then (if \<open>waits\<close>, as it is written) for the channel that
  the reactor closes, creates the pod and waits for it, at most as long as its timeout.

  With \<open>faults\<close>, the tracker may refuse to be watched when the reactor of the test asks: the reactor then declines, and the reactor
  of the fake clientset opens the watch or fails as well, upon which the informer starts again. A watch may also end; then the
  informer watches or lists again. A panic of a reactor is one of the informer's goroutine and ends the test binary.
\<close>

inductive fc_step :: "bool \<Rightarrow> bool \<Rightarrow> fc_state \<Rightarrow> fc_state \<Rightarrow> bool" for waits faults where
  list: "\<lbrakk>fc_test s \<noteq> Crashed; fc_informer s = Starting; found = (fc_created s \<and> \<not> fc_known s)\<rbrakk> \<Longrightarrow> fc_step waits faults s
    (s\<lparr>fc_informer := Listed, fc_synced := True, fc_known := fc_known s \<or> found, fc_events := fc_events s + (if found then 1 else 0)\<rparr>)"
| watch: "\<lbrakk>fc_test s \<noteq> Crashed; fc_informer s = Listed; watch_reactor None (fc_started s) = Ret (True, None, started)\<rbrakk> \<Longrightarrow>
    fc_step waits faults s (s\<lparr>fc_informer := Watching, fc_started := started\<rparr>)"
| watch_panics: "\<lbrakk>fc_test s \<noteq> Crashed; fc_informer s = Listed; watch_reactor None (fc_started s) = Panic p\<rbrakk> \<Longrightarrow>
    fc_step waits faults s (s\<lparr>fc_test := Crashed\<rparr>)"
| watch_declined: "\<lbrakk>faults; fc_test s \<noteq> Crashed; fc_informer s = Listed; watch_reactor (Some err) (fc_started s) = Ret (False, e, started)\<rbrakk> \<Longrightarrow>
    fc_step waits faults s (s\<lparr>fc_informer := Watching, fc_started := started\<rparr>)"
| watch_fails: "\<lbrakk>faults; fc_test s \<noteq> Crashed; fc_informer s = Listed; watch_reactor (Some err) (fc_started s) = Ret (False, e, started)\<rbrakk> \<Longrightarrow>
    fc_step waits faults s (s\<lparr>fc_informer := Starting, fc_started := started\<rparr>)"
| watch_ends: "\<lbrakk>faults; fc_test s \<noteq> Crashed; fc_informer s = Watching; i \<in> {Listed, Starting}\<rbrakk> \<Longrightarrow>
    fc_step waits faults s (s\<lparr>fc_informer := i\<rparr>)"
| synced: "\<lbrakk>fc_test s = Syncing; fc_synced s\<rbrakk> \<Longrightarrow> fc_step waits faults s (s\<lparr>fc_test := if waits then Waiting else Creating\<rparr>)"
| started: "\<lbrakk>fc_test s = Waiting; fc_started s\<rbrakk> \<Longrightarrow> fc_step waits faults s (s\<lparr>fc_test := Creating\<rparr>)"
| create: "\<lbrakk>fc_test s = Creating; shown = (fc_informer s = Watching)\<rbrakk> \<Longrightarrow> fc_step waits faults s
    (s\<lparr>fc_test := Selecting, fc_created := True, fc_known := shown, fc_events := fc_events s + (if shown then 1 else 0)\<rparr>)"
| create_fails: "fc_test s = Creating \<Longrightarrow> fc_step waits faults s (s\<lparr>fc_test := CreateFailed\<rparr>)"
| deliver: "\<lbrakk>fc_test s \<noteq> Crashed; 0 < fc_events s; fc_pods s < 1\<rbrakk> \<Longrightarrow>
    fc_step waits faults s (s\<lparr>fc_events := fc_events s - 1, fc_pods := fc_pods s + 1\<rparr>)"
| receive: "\<lbrakk>fc_test s = Selecting; 0 < fc_pods s\<rbrakk> \<Longrightarrow> fc_step waits faults s (s\<lparr>fc_test := Passed, fc_pods := fc_pods s - 1\<rparr>)"
| time_out: "fc_test s = Selecting \<Longrightarrow> fc_step waits faults s (s\<lparr>fc_test := TimedOut\<rparr>)"

inductive_cases fc_stepE: "fc_step waits faults s s'"

section \<open>Lemmas\<close>

lemma run_and_then: "run_state (and_then m m') h = (case run_state m h of (Some er, h1) \<Rightarrow> (Some er, h1) | (None, h1) \<Rightarrow> run_state m' h1)"
  by (auto simp: and_then_def split: prod.split option.split)

lemma emits_and_then [emits_intros]:
  assumes "emits m (\<lambda>r s. case r of Some er \<Rightarrow> Q (Some er) s | None \<Rightarrow> emits m' (\<lambda>r t. Q r (s @ t)))"
  shows "emits (and_then m m') Q"
  unfolding and_then_def
  by (rule emits_bind, rule emits_mono [OF assms]) (auto split: option.splits)

lemma emits_eventually:
  assumes "emits m (\<lambda>a s. P s \<and> (a = Up \<longrightarrow> U s))" "P []" "\<And>s t. P s \<Longrightarrow> P t \<Longrightarrow> P (s @ t)" "\<And>s t. U t \<Longrightarrow> U (s @ t)"
  shows "emits (eventually_up n m) (\<lambda>r s. P s \<and> (r = None \<longrightarrow> U s))"
proof (induction n)
  case 0
  then show ?case using assms(2) by simp
next
  case (Suc n)
  have "emits (eventually_up n m) (\<lambda>r t. P (s @ t) \<and> (r = None \<longrightarrow> U (s @ t)))" if "P s" for s
    by (rule emits_mono [OF Suc]) (use that assms(3,4) in blast)
  then show ?case
    by (auto intro!: emits_bind emits_mono [OF assms(1)] split: attempt.split)
qed

text \<open>The commands of a log, and the output of a command that succeeded.\<close>

fun commands :: "ucall list \<Rightarrow> string list list" where
  "commands [] = []"
| "commands (UCommand args d env r # h) = args # commands h"
| "commands (c # h) = commands h"

definition printed :: "string list \<Rightarrow> string \<Rightarrow> ucall list \<Rightarrow> bool" where
  "printed args out h \<longleftrightarrow> (\<exists>d env. UCommand args d env (out, None) \<in> set h)"

definition succeeded :: "string list \<Rightarrow> ucall list \<Rightarrow> bool" where
  "succeeded args h \<longleftrightarrow> (\<exists>out. printed args out h)"

lemma commands_append [simp]: "commands (h @ h') = commands h @ commands h'"
  by (induction h rule: commands.induct) auto

lemma printed_append [simp]: "printed args out (h @ h') \<longleftrightarrow> printed args out h \<or> printed args out h'"
  by (auto simp: printed_def)

lemma succeeded_append [simp]: "succeeded args (h @ h') \<longleftrightarrow> succeeded args h \<or> succeeded args h'"
  by (auto simp: succeeded_def)

lemma emits_Run: "emits (Run e args) (\<lambda>(out, err) seg. commands seg = [args] \<and> (err = None \<longrightarrow> printed args out seg))"
  unfolding Run_def Let_def
  by (intro emits_intros) (auto simp: printed_def split: option.splits intro!: emits_return)

lemma emits_run_error:
  "emits (run_error e args) (\<lambda>err seg. commands seg = [args] \<and> (err = None \<longrightarrow> succeeded args seg))"
  unfolding run_error_def by (rule emits_bind, rule emits_mono [OF emits_Run]) (auto simp: succeeded_def)

lemma emits_run_warn: "emits (run_warn e args) (\<lambda>_ seg. commands seg = [args])"
  unfolding run_warn_def warnError_def
  by (rule emits_bind, rule emits_mono [OF emits_run_error]) (auto split: option.splits intro!: emits_note_call)

subsubsection \<open>The end-to-end test\<close>

abbreviation prometheus_install :: "string list" where
  "prometheus_install \<equiv> [''kubectl'', ''create'', ''-f'', prometheus_url]"

abbreviation certmanager_wait :: "string list" where
  "certmanager_wait \<equiv> [''kubectl'', ''wait'', ''deployment.apps/cert-manager-webhook'', ''--for'', ''condition=Available'',
     ''--namespace'', ''cert-manager'', ''--timeout'', ''5m'']"

definition controller_up :: "ucall list \<Rightarrow> bool" where
  "controller_up h \<longleftrightarrow> (\<exists>out name. printed pod_names_command out h \<and> GetNonEmptyLines out = [name] \<and>
     contains ''controller-manager'' name \<and> printed (pod_phase_command name) ''Running'' h)"

lemma controller_upI:
  "printed pod_names_command out h \<Longrightarrow> GetNonEmptyLines out = [name] \<Longrightarrow> contains ''controller-manager'' name \<Longrightarrow>
   printed (pod_phase_command name) ''Running'' h \<Longrightarrow> controller_up h"
  unfolding controller_up_def by blast

lemma controller_up_append: "controller_up h \<or> controller_up h' \<Longrightarrow> controller_up (h @ h')"
  unfolding controller_up_def printed_append by blast

lemma deploy_no_probe [simp]: "deploy_command \<noteq> pod_names_command" "deploy_command \<noteq> pod_phase_command name"
  "deploy_command \<noteq> ''kubectl'' # args"
  by (simp_all add: pod_names_command_def pod_phase_command_def deploy_command_def)

lemma printed_Nil [simp]: "\<not> printed args out []"
  by (simp add: printed_def)

lemma emits_phase:
  assumes "commands s = [pod_names_command]" "printed pod_names_command out s" "GetNonEmptyLines out = [name]"
    "contains ''controller-manager'' name"
  shows "emits (Run e (pod_phase_command name)) (\<lambda>r2 t. emits (case r2 of
        (status, Some err) \<Rightarrow> return (Unmet err)
      | (status, None) \<Rightarrow> if status \<noteq> ''Running'' then return (Again (PlainError (''controller pod in '' @ status @ '' status''))) else return Up)
      (\<lambda>a u. deploy_command \<notin> set (commands (s @ t @ u)) \<and> (a = Up \<longrightarrow> controller_up (s @ t @ u))))"
  by (rule emits_mono [OF emits_Run]) (use assms in \<open>auto split: option.split intro!: controller_upI [of out _ name]\<close>)

lemma emits_verify:
  "emits (verifyControllerUp e) (\<lambda>a seg. deploy_command \<notin> set (commands seg) \<and> (a = Up \<longrightarrow> controller_up seg))"
  unfolding verifyControllerUp_def
  by (rule emits_bind, rule emits_mono [OF emits_Run])
    (use emits_phase in \<open>auto split: option.split list.split intro!: emits_bind\<close>)

lemma emits_before:
  "emits (e2e_BeforeAll e) (\<lambda>r seg. deploy_command \<notin> set (commands seg) \<and>
     (r = None \<longrightarrow> succeeded prometheus_install seg \<and> succeeded certmanager_wait seg))"
  unfolding e2e_BeforeAll_def InstallPrometheusOperator_def InstallCertManager_def
  by (rule emits_and_then, rule emits_mono [OF emits_run_error])
    (auto split: option.splits prod.splits intro!: emits_and_then emits_bind emits_mono [OF emits_run_error] emits_mono [OF emits_Run])

lemma emits_It:
  "emits (e2e_It e n) (\<lambda>r seg. r = None \<longrightarrow> controller_up seg \<and> succeeded deploy_command seg)"
proof -
  have ev: "emits (eventually_up n (verifyControllerUp e)) (\<lambda>r s. deploy_command \<notin> set (commands s) \<and> (r = None \<longrightarrow> controller_up s))"
    by (rule emits_eventually [OF emits_verify]) (auto intro: controller_up_append)
  show ?thesis
    unfolding e2e_It_def LoadImageToKindClusterWithName_def Let_def
    by (intro emits_and_then emits_mono [OF emits_run_error])
      (auto split: option.splits intro!: emits_and_then emits_mono [OF emits_run_error] emits_mono [OF ev] controller_up_append)
qed

lemma emits_after:
  "emits (e2e_AfterAll e) (\<lambda>_ seg. commands seg = [[''kubectl'', ''delete'', ''-f'', prometheus_url], [''kubectl'', ''delete'', ''-f'', certmanager_url],
     [''kubectl'', ''delete'', ''ns'', e2e_namespace]])"
  unfolding e2e_AfterAll_def UninstallPrometheusOperator_def UninstallCertManager_def
  by (rule emits_bind, rule emits_mono [OF emits_run_warn])
    (auto intro!: emits_bind emits_mono [OF emits_run_warn] emits_mono [OF emits_Run] split: prod.splits)

text \<open>Without faults the watch is open before the pod is created, so the pod is on its way, and the test can go on.\<close>

definition fc_inv :: "fc_state \<Rightarrow> bool" where
  "fc_inv s \<longleftrightarrow> fc_test s \<noteq> Crashed \<and> (fc_started s \<longleftrightarrow> fc_informer s = Watching) \<and> (fc_synced s \<longleftrightarrow> fc_informer s \<noteq> Starting) \<and>
     (fc_test s \<noteq> Syncing \<longrightarrow> fc_synced s) \<and>
     (fc_test s \<in> {Creating, Selecting, Passed, TimedOut, CreateFailed} \<longrightarrow> fc_started s) \<and>
     (fc_test s \<in> {Syncing, Waiting, Creating} \<longrightarrow> \<not> fc_created s \<and> fc_events s = 0 \<and> fc_pods s = 0) \<and>
     (fc_test s = Selecting \<longrightarrow> fc_events s + fc_pods s = 1)"

lemma fc_inv_step: "fc_step True False s s' \<Longrightarrow> fc_inv s \<Longrightarrow> fc_inv s'"
  by (induction rule: fc_step.induct) (auto simp: fc_inv_def watch_reactor_def split: if_splits)

lemma fc_inv_reach: "(fc_step True False)\<^sup>*\<^sup>* fc_init s \<Longrightarrow> fc_inv s"
  by (induction rule: rtranclp_induct) (auto simp: fc_inv_step, simp add: fc_inv_def fc_init_def)

lemma fc_first_steps:
  "(fc_step waits faults)\<^sup>*\<^sup>* fc_init
     (fc_init\<lparr>fc_informer := Listed, fc_synced := True\<rparr>\<lparr>fc_test := if waits then Waiting else Creating\<rparr>)"
proof -
  let ?a = "fc_init\<lparr>fc_informer := Listed, fc_synced := True\<rparr>"
  have "fc_step waits faults fc_init ?a" using list [of fc_init False] by (simp add: fc_init_def)
  moreover have "fc_step waits faults ?a (?a\<lparr>fc_test := if waits then Waiting else Creating\<rparr>)"
    by (rule synced) (simp_all add: fc_init_def)
  ultimately show ?thesis by (meson r_into_rtranclp rtranclp_trans)
qed

abbreviation unfinished :: "fc_state \<Rightarrow> bool" where
  "unfinished s \<equiv> fc_test s \<in> {Syncing, Waiting, Creating, Selecting}"

definition fc_rank :: "fc_state \<Rightarrow> nat" where
  "fc_rank s = (case fc_test s of Syncing \<Rightarrow> 20 | Waiting \<Rightarrow> 10 | Creating \<Rightarrow> 5 | Selecting \<Rightarrow> 1 + fc_events s | _ \<Rightarrow> 0) +
     (case fc_informer s of Starting \<Rightarrow> 2 | Listed \<Rightarrow> 1 | Watching \<Rightarrow> 0)"

lemma fc_progress:
  assumes "fc_inv s" and "unfinished s"
  shows "\<exists>s'. fc_step True False s s' \<and> fc_rank s' < fc_rank s \<and> (unfinished s' \<or> fc_test s' = Passed)"
proof -
  consider (lists) "fc_informer s = Starting" | (watches) "fc_informer s = Listed" | (watching) "fc_informer s = Watching"
    by (cases "fc_informer s") auto
  then show ?thesis
  proof cases
    case lists
    with assms have "fc_test s \<noteq> Crashed" "\<not> fc_created s" "fc_test s = Syncing" by (auto simp: fc_inv_def)
    with list [of s False True False] lists show ?thesis by (force simp: fc_rank_def)
  next
    case watches
    with assms have s: "fc_test s \<noteq> Crashed" "watch_reactor None (fc_started s) = Ret (True, None, True)"
      by (auto simp: fc_inv_def watch_reactor_def)
    show ?thesis using watch [OF s(1) watches s(2), of True False] watches assms(2)
      by (intro exI [of _ "s\<lparr>fc_informer := Watching, fc_started := True\<rparr>"]) (auto simp: fc_rank_def)
  next
    case watching
    with assms(1) have s: "fc_started s" "fc_synced s" by (auto simp: fc_inv_def)
    show ?thesis
    proof (cases "fc_test s")
      case Syncing
      with synced [of s True False] s show ?thesis by (intro exI [of _ "s\<lparr>fc_test := Waiting\<rparr>"]) (simp add: fc_rank_def)
    next
      case Waiting
      with started [of s True False] s show ?thesis by (intro exI [of _ "s\<lparr>fc_test := Creating\<rparr>"]) (simp add: fc_rank_def)
    next
      case Creating
      with assms(1) have "fc_events s = 0" by (simp add: fc_inv_def)
      with create [OF Creating, of True True False] watching Creating show ?thesis
        by (intro exI [of _ "s\<lparr>fc_test := Selecting, fc_created := True, fc_known := True, fc_events := fc_events s + 1\<rparr>"])
          (simp add: fc_rank_def)
    next
      case Selecting
      with assms(1) have one: "fc_events s + fc_pods s = 1" by (simp add: fc_inv_def)
      show ?thesis
      proof (cases "0 < fc_pods s")
        case True
        with receive [OF Selecting True, of True False] Selecting show ?thesis
          by (intro exI [of _ "s\<lparr>fc_test := Passed, fc_pods := fc_pods s - 1\<rparr>"]) (simp add: fc_rank_def)
      next
        case False
        with one Selecting deliver [of s True False] show ?thesis
          by (intro exI [of _ "s\<lparr>fc_events := fc_events s - 1, fc_pods := fc_pods s + 1\<rparr>"]) (simp add: fc_rank_def)
      qed
    qed (use assms(2) in simp_all)
  qed
qed

lemma can_pass: "fc_inv s \<Longrightarrow> unfinished s \<Longrightarrow> \<exists>s'. (fc_step True False)\<^sup>*\<^sup>* s s' \<and> fc_test s' = Passed"
proof (induction "fc_rank s" arbitrary: s rule: less_induct)
  case less
  from fc_progress [OF less.prems] obtain t where t: "fc_step True False s t" "fc_rank t < fc_rank s" "unfinished t \<or> fc_test t = Passed"
    by blast
  show ?case
  proof (cases "fc_test t = Passed")
    case True
    then show ?thesis using t(1) by blast
  next
    case False
    then show ?thesis using less.hyps [OF t(2) fc_inv_step [OF t(1) less.prems(1)]] t(1,3)
      by (meson converse_rtranclp_into_rtranclp)
  qed
qed

text \<open>Without the wait: a pod created between list and watch is not seen as long as the watch lasts.\<close>

definition missed :: "fc_state \<Rightarrow> bool" where
  "missed s \<longleftrightarrow> fc_test s \<in> {Selecting, TimedOut, Crashed} \<and> fc_events s = 0 \<and> fc_pods s = 0 \<and> fc_informer s \<noteq> Starting"

lemma missed_stays: "(fc_step waits False)\<^sup>*\<^sup>* s s' \<Longrightarrow> missed s \<Longrightarrow> missed s'"
proof (induction rule: rtranclp_induct)
  case (step s1 s2)
  from step.hyps(2) step.IH [OF step.prems] show ?case by cases (auto simp: missed_def)
qed

text \<open>A watch that the reactor of the test declined: the channel stays open.\<close>

definition hung :: "fc_state \<Rightarrow> bool" where
  "hung s \<longleftrightarrow> fc_test s = Waiting \<and> fc_informer s = Watching \<and> \<not> fc_started s"

lemma hung_stays: "(fc_step waits False)\<^sup>*\<^sup>* s s' \<Longrightarrow> hung s \<Longrightarrow> hung s'"
proof (induction rule: rtranclp_induct)
  case (step s1 s2)
  from step.hyps(2) step.IH [OF step.prems] show ?case by cases (auto simp: hung_def)
qed

section \<open>Properties\<close>

text \<open>The end-to-end test leaves the cluster as it found it: however it ends, it uninstalls what it installed and deletes its namespace,
  and does nothing after that. The controller is deployed only after both installations succeeded, and the test passes only if the
  one pod of the controller was seen running.\<close>

theorem e2e_cleans_up:
  assumes "run_state (e2e_test e n) [] = (v, h)"
  shows "(\<exists>cs. commands h = cs @ [[''kubectl'', ''delete'', ''-f'', prometheus_url], [''kubectl'', ''delete'', ''-f'', certmanager_url],
      [''kubectl'', ''delete'', ''ns'', e2e_namespace]]) \<and>
    (deploy_command \<in> set (commands h) \<longrightarrow> succeeded prometheus_install h \<and> succeeded certmanager_wait h) \<and>
    (v = None \<longrightarrow> controller_up h \<and> succeeded deploy_command h)"
proof -
  have "emits (and_then (e2e_BeforeAll e) (e2e_It e n)) (\<lambda>r seg.
      (deploy_command \<in> set (commands seg) \<longrightarrow> succeeded prometheus_install seg \<and> succeeded certmanager_wait seg) \<and>
      (r = None \<longrightarrow> controller_up seg \<and> succeeded deploy_command seg))"
    by (rule emits_and_then, rule emits_mono [OF emits_before])
      (auto split: option.splits intro!: emits_mono [OF emits_It] controller_up_append)
  then have "emits (e2e_test e n) (\<lambda>r seg. \<exists>s t. seg = s @ t \<and>
      commands t = [[''kubectl'', ''delete'', ''-f'', prometheus_url], [''kubectl'', ''delete'', ''-f'', certmanager_url],
        [''kubectl'', ''delete'', ''ns'', e2e_namespace]] \<and>
      (deploy_command \<in> set (commands s) \<longrightarrow> succeeded prometheus_install s \<and> succeeded certmanager_wait s) \<and>
      (r = None \<longrightarrow> controller_up s \<and> succeeded deploy_command s))"
    unfolding e2e_test_def
    by (intro emits_bind) (erule emits_mono, blast intro: emits_mono [OF emits_after] emits_return emits_bind)
  from emitsD [OF this assms] obtain s t where h: "h = s @ t" and t: "commands t = [[''kubectl'', ''delete'', ''-f'', prometheus_url],
        [''kubectl'', ''delete'', ''-f'', certmanager_url], [''kubectl'', ''delete'', ''ns'', e2e_namespace]]"
    and s: "deploy_command \<in> set (commands s) \<longrightarrow> succeeded prometheus_install s \<and> succeeded certmanager_wait s"
      "v = None \<longrightarrow> controller_up s \<and> succeeded deploy_command s" by auto
  have "deploy_command \<notin> set (commands t)" by (simp add: t)
  moreover have "controller_up (s @ t)" if "controller_up s" using that by (simp add: controller_up_append)
  ultimately show ?thesis using s t unfolding h by auto
qed

text \<open>C39. Why the fake-client test waits for the watch, and what it relies on. As it is written, and as long as every watch succeeds and
  lasts, whenever the test waits for the pod the pod is on its way (the event is pending or the pod is in the channel); from every
  state that is not an end the test can still pass, so it never hangs, and its ends are to pass, to time out, and to
  fail because the pod cannot be created. If the tracker refuses the watch of the test's reactor but not that of the fake clientset's, the
  channel is never closed and the test waits for ever while that watch lasts; if a watch ends, the next call of the reactor
  closes the closed channel and ends the test binary by a panic, the only way to it. Without the wait for the channel there is a
  run without faults in which the pod is created between the list and the watch, and then the test cannot pass.\<close>

theorem fake_client_test:
  "(\<forall>s. (fc_step True False)\<^sup>*\<^sup>* fc_init s \<and> fc_test s = Selecting \<longrightarrow> fc_events s + fc_pods s = 1) \<and>
   (\<forall>s. (fc_step True False)\<^sup>*\<^sup>* fc_init s \<longrightarrow> fc_test s \<in> {Passed, TimedOut, CreateFailed} \<or>
      (\<exists>s'. (fc_step True False)\<^sup>*\<^sup>* s s' \<and> fc_test s' = Passed)) \<and>
   (\<exists>s. (fc_step True True)\<^sup>*\<^sup>* fc_init s \<and> fc_test s = Waiting \<and> (\<forall>s'. (fc_step True False)\<^sup>*\<^sup>* s s' \<longrightarrow> fc_test s' = Waiting)) \<and>
   (\<exists>s. (fc_step True True)\<^sup>*\<^sup>* fc_init s \<and> fc_test s = Crashed) \<and>
   (\<forall>s s'. (fc_step True True)\<^sup>*\<^sup>* fc_init s \<and> fc_step True True s s' \<and> fc_test s' = Crashed \<longrightarrow> fc_informer s = Listed \<and> fc_started s) \<and>
   (\<exists>s. (fc_step False False)\<^sup>*\<^sup>* fc_init s \<and> fc_test s = Selecting \<and> (\<forall>s'. (fc_step False False)\<^sup>*\<^sup>* s s' \<longrightarrow> fc_test s' \<noteq> Passed))"
proof (intro conjI allI impI)
  fix s
  assume "(fc_step True False)\<^sup>*\<^sup>* fc_init s \<and> fc_test s = Selecting"
  then show "fc_events s + fc_pods s = 1" using fc_inv_reach [of s] by (simp add: fc_inv_def)
next
  fix s
  assume "(fc_step True False)\<^sup>*\<^sup>* fc_init s"
  then have "fc_inv s" by (rule fc_inv_reach)
  then show "fc_test s \<in> {Passed, TimedOut, CreateFailed} \<or> (\<exists>s'. (fc_step True False)\<^sup>*\<^sup>* s s' \<and> fc_test s' = Passed)"
    using can_pass [of s] by (cases "fc_test s") (auto simp: fc_inv_def)
next
  let ?b = "fc_init\<lparr>fc_informer := Listed, fc_synced := True\<rparr>\<lparr>fc_test := Waiting\<rparr>"
  let ?c = "?b\<lparr>fc_informer := Watching, fc_started := False\<rparr>"
  have "fc_step True True ?b ?c"
    by (rule watch_declined [where err = "PlainError ''''" and e = "Some (PlainError '''')"]) (simp_all add: watch_reactor_def fc_init_def)
  then have "(fc_step True True)\<^sup>*\<^sup>* fc_init ?c" using fc_first_steps [of True True] by simp
  then show "\<exists>s. (fc_step True True)\<^sup>*\<^sup>* fc_init s \<and> fc_test s = Waiting \<and> (\<forall>s'. (fc_step True False)\<^sup>*\<^sup>* s s' \<longrightarrow> fc_test s' = Waiting)"
    using hung_stays [of True ?c] by (intro exI [of _ ?c]) (auto simp: hung_def)
next
  let ?b = "fc_init\<lparr>fc_informer := Listed, fc_synced := True\<rparr>\<lparr>fc_test := Waiting\<rparr>"
  let ?c = "?b\<lparr>fc_informer := Watching, fc_started := True\<rparr>"
  let ?d = "?c\<lparr>fc_informer := Listed\<rparr>"
  have "fc_step True True ?b ?c" using watch [of ?b True True True] by (simp add: watch_reactor_def fc_init_def)
  moreover have "fc_step True True ?c ?d" using watch_ends [of True ?c Listed True] by simp
  moreover have "fc_step True True ?d (?d\<lparr>fc_test := Crashed\<rparr>)"
    by (rule watch_panics) (simp_all add: watch_reactor_def)
  ultimately have "(fc_step True True)\<^sup>*\<^sup>* fc_init (?d\<lparr>fc_test := Crashed\<rparr>)"
    using fc_first_steps [of True True] by (meson rtranclp.rtrancl_into_rtrancl)
  then show "\<exists>s. (fc_step True True)\<^sup>*\<^sup>* fc_init s \<and> fc_test s = Crashed" by (intro exI [of _ "?d\<lparr>fc_test := Crashed\<rparr>"]) simp
next
  fix s s'
  assume "(fc_step True True)\<^sup>*\<^sup>* fc_init s \<and> fc_step True True s s' \<and> fc_test s' = Crashed"
  then show "fc_informer s = Listed" "fc_started s"
    by (auto elim!: fc_stepE simp: watch_reactor_def split: if_splits)
next
  let ?c = "fc_init\<lparr>fc_informer := Listed, fc_synced := True\<rparr>\<lparr>fc_test := Creating\<rparr>"
  let ?d = "?c\<lparr>fc_test := Selecting, fc_created := True, fc_known := False\<rparr>"
  have "fc_step False False ?c ?d" using create [of ?c False False False] by simp
  then have "(fc_step False False)\<^sup>*\<^sup>* fc_init ?d" using fc_first_steps [of False False] by simp
  moreover have "missed ?d" by (simp add: missed_def fc_init_def)
  then have "fc_test s' \<noteq> Passed" if "(fc_step False False)\<^sup>*\<^sup>* ?d s'" for s'
    using missed_stays [OF that] by (auto simp: missed_def)
  ultimately show "\<exists>s. (fc_step False False)\<^sup>*\<^sup>* fc_init s \<and> fc_test s = Selecting \<and> (\<forall>s'. (fc_step False False)\<^sup>*\<^sup>* s s' \<longrightarrow> fc_test s' \<noteq> Passed)"
    by (intro exI [of _ ?d]) auto
qed

theorem fake_client_test_witness:
  "\<exists>s. (fc_step True False)\<^sup>*\<^sup>* fc_init s \<and> fc_test s = Waiting \<and> (\<exists>s'. (fc_step True False)\<^sup>*\<^sup>* s s' \<and> fc_test s' = Passed)"
proof -
  let ?s = "fc_init\<lparr>fc_informer := Listed, fc_synced := True\<rparr>\<lparr>fc_test := Waiting\<rparr>"
  have s: "(fc_step True False)\<^sup>*\<^sup>* fc_init ?s" using fc_first_steps [of True False] by simp
  from fake_client_test [THEN conjunct2, THEN conjunct1, rule_format, OF this]
  have "\<exists>s'. (fc_step True False)\<^sup>*\<^sup>* ?s s' \<and> fc_test s' = Passed" by simp
  with s show ?thesis by (intro exI [of _ ?s]) simp
qed

text \<open>What the test asks of the API server: right after a creation was acknowledged, the controller reads the specification that was
  created, or fails to read it.\<close>

definition created_law :: "test_env \<Rightarrow> bool" where
  "created_law e \<longleftrightarrow> (\<forall>h c.
     (case api_Get (te_kube e (h @ [TCreate c None])) []
        \<lparr>nn_Namespace = om_Namespace (cal_meta c), nn_Name = om_Name (cal_meta c)\<rparr> of
        Inr c' \<Rightarrow> cal_Spec c' = cal_Spec c
      | Inl err \<Rightarrow> \<not> IsNotFound err))"

text \<open>A cluster without the object, which stores what is created.\<close>

definition fresh_cluster :: test_env where
  "fresh_cluster = \<lparr>
     te_Get = (\<lambda>h k. if h = [] then Inl (StatusError ReasonNotFound ''not found'') else Inr test_resource),
     te_Create = (\<lambda>h c. None), te_Delete = (\<lambda>h c. None),
     te_kube = (\<lambda>h. mem_env (\<lambda>_. case last h of TCreate c r \<Rightarrow> c | _ \<Rightarrow> test_resource) [])\<rparr>"

lemma run_cal_It_error:
  "api_Get (te_kube e h) [] typeNamespacedName = Inl err \<Longrightarrow>
   run_state (cal_It e) h = (IgnoreNotFound err, h @ [TRun (CGet typeNamespacedName (Inl err))])"
  by (simp add: cal_It_def run_in_test_def cal_Reconcile_def)

lemma run_cal_It_unknown:
  assumes "api_Get (te_kube e h) [] typeNamespacedName = Inr c" "cs_Action (cal_Spec c) \<notin> {''add'', ''sub'', ''mul'', ''div''}"
  shows "run_state (cal_It e) h =
    (Some (PlainError ''unknown action type''), h @ [TRun (CGet typeNamespacedName (Inr c))])"
  using assms by (simp add: cal_It_def run_in_test_def cal_Reconcile_def compute_def action_defs)

lemma fst_cal_test:
  "fst (run_state (cal_test e) h) =
    (case run_state (and_then (cal_BeforeEach e) (cal_It e)) h of
       (Some er, h1) \<Rightarrow> Some er | (None, h1) \<Rightarrow> fst (run_state (cal_AfterEach e) h1))"
  by (auto simp: cal_test_def split: prod.split option.split)

lemma cal_test_passes:
  assumes get: "te_Get e [] typeNamespacedName = Inr old" "api_Get (te_kube e [TGet (Inr old)]) [] typeNamespacedName = Inr c"
    and spec: "spec_exact (cal_Spec c) = Some v" and upd: "\<And>h c'. api_StatusUpdate (te_kube e [TGet (Inr old)]) h c' = None"
    and del: "\<And>h. h \<noteq> [] \<Longrightarrow> te_Get e h typeNamespacedName = Inr old \<and> te_Delete e h old = None"
  shows "fst (run_state (cal_test e) []) = None"
proof -
  have "compute (cal_Spec c) = Inr (Ret (word_of_int v))" using spec by (simp add: compute_exact)
  then have "fst (run_state (cal_It e) [TGet (Inr old)]) = None \<and> snd (run_state (cal_It e) [TGet (Inr old)]) \<noteq> []"
    using get upd by (simp add: cal_It_def run_in_test_def cal_Reconcile_def)
  then obtain h where "run_state (cal_It e) [TGet (Inr old)] = (None, h)" "h \<noteq> []" by (metis prod.collapse)
  with get del show ?thesis
    by (simp add: fst_cal_test run_and_then cal_BeforeEach_def cal_AfterEach_def)
qed

text \<open>C40. The generated test of the Calculate controller cannot pass as it is written. On a cluster without the object the test creates
  one with an empty specification. Neither the schema nor the webhook refuses it, but the controller does not know the empty action:
  once the object was created and read, the verdict of the test is the error \<open>unknown action type\<close>, and no other course of the test
  passes either. The test does pass on a cluster that holds an object of that name whose result the controller can compute, write and
  delete.\<close>

theorem controller_test_fails:
  assumes law: "created_law e" and fields: "aggregate_law f"
  shows "snd (ValidateCreate f test_resource) = None \<and>
    (\<forall>err. te_Get e [] typeNamespacedName = Inl err \<and> IsNotFound err \<longrightarrow>
       fst (run_state (cal_test e) []) \<noteq> None \<and>
       (let h = [TGet (Inl err), TCreate test_resource None] in
         te_Create e [TGet (Inl err)] test_resource = None \<and> (\<exists>c. api_Get (te_kube e h) [] typeNamespacedName = Inr c) \<longrightarrow>
         fst (run_state (cal_test e) []) = Some (PlainError ''unknown action type''))) \<and>
    (\<forall>old c v. te_Get e [] typeNamespacedName = Inr old \<and> api_Get (te_kube e [TGet (Inr old)]) [] typeNamespacedName = Inr c \<and>
       spec_exact (cal_Spec c) = Some v \<and> (\<forall>h c'. api_StatusUpdate (te_kube e [TGet (Inr old)]) h c' = None) \<and>
       (\<forall>h. h \<noteq> [] \<longrightarrow> te_Get e h typeNamespacedName = Inr old \<and> te_Delete e h old = None) \<longrightarrow>
       fst (run_state (cal_test e) []) = None)"
proof (intro conjI allI)
  show "snd (ValidateCreate f test_resource) = None"
    using fields by (simp add: ValidateCreate_def cal_validate_def aggregate_law_def action_defs test_resource_def)
next
  fix err
  let ?h = "[TGet (Inl err), TCreate test_resource None]"
  have "fst (run_state (cal_test e) []) \<noteq> None \<and> (let h = ?h in
      te_Create e [TGet (Inl err)] test_resource = None \<and> (\<exists>c. api_Get (te_kube e h) [] typeNamespacedName = Inr c) \<longrightarrow>
      fst (run_state (cal_test e) []) = Some (PlainError ''unknown action type''))"
    if g: "te_Get e [] typeNamespacedName = Inl err \<and> IsNotFound err"
  proof (cases "te_Create e [TGet (Inl err)] test_resource")
    case (Some er)
    then show ?thesis using g by (simp add: fst_cal_test run_and_then cal_BeforeEach_def)
  next
    case None
    then have before: "run_state (cal_BeforeEach e) [] = (None, ?h)" using g by (simp add: cal_BeforeEach_def)
    have stored: "case api_Get (te_kube e ?h) [] typeNamespacedName of Inr c' \<Rightarrow> cal_Spec c' = cal_Spec test_resource
        | Inl er \<Rightarrow> \<not> IsNotFound er"
      using law [unfolded created_law_def, rule_format, of test_resource "[TGet (Inl err)]"]
      by (simp add: test_resource_def typeNamespacedName_def)
    show ?thesis
    proof (cases "api_Get (te_kube e ?h) [] typeNamespacedName")
      case (Inl er)
      with stored have "run_state (cal_It e) ?h = (Some er, ?h @ [TRun (CGet typeNamespacedName (Inl er))])"
        by (simp add: run_cal_It_error IgnoreNotFound_def)
      with Inl show ?thesis by (simp add: fst_cal_test run_and_then before)
    next
      case (Inr c)
      with stored have "cs_Action (cal_Spec c) \<notin> {''add'', ''sub'', ''mul'', ''div''}" by (simp add: test_resource_def)
      from run_cal_It_unknown [OF Inr this] show ?thesis by (simp add: fst_cal_test run_and_then before)
    qed
  qed
  then show "te_Get e [] typeNamespacedName = Inl err \<and> IsNotFound err \<longrightarrow> fst (run_state (cal_test e) []) \<noteq> None \<and> (let h = ?h in
      te_Create e [TGet (Inl err)] test_resource = None \<and> (\<exists>c. api_Get (te_kube e h) [] typeNamespacedName = Inr c) \<longrightarrow>
      fst (run_state (cal_test e) []) = Some (PlainError ''unknown action type''))" by blast
next
  fix old c v
  show "te_Get e [] typeNamespacedName = Inr old \<and> api_Get (te_kube e [TGet (Inr old)]) [] typeNamespacedName = Inr c \<and>
       spec_exact (cal_Spec c) = Some v \<and> (\<forall>h c'. api_StatusUpdate (te_kube e [TGet (Inr old)]) h c' = None) \<and>
       (\<forall>h. h \<noteq> [] \<longrightarrow> te_Get e h typeNamespacedName = Inr old \<and> te_Delete e h old = None) \<longrightarrow>
       fst (run_state (cal_test e) []) = None"
    by (rule impI, rule cal_test_passes) auto
qed

theorem controller_test_fails_witness:
  "fst (run_state (cal_test fresh_cluster) []) = Some (PlainError ''unknown action type'') \<and>
   snd (ValidateCreate demo_fields test_resource) = None"
proof -
  have law: "created_law fresh_cluster" by (simp add: created_law_def fresh_cluster_def mem_env_def)
  have fields: "aggregate_law demo_fields" by (auto simp: aggregate_law_def demo_fields_def split: list.split)
  note fails = controller_test_fails [OF law fields]
  have get: "te_Get fresh_cluster [] typeNamespacedName = Inl (StatusError ReasonNotFound ''not found'')"
    by (simp add: fresh_cluster_def)
  have "fst (run_state (cal_test fresh_cluster) []) = Some (PlainError ''unknown action type'')"
    using fails get by (auto simp: Let_def fresh_cluster_def mem_env_def)
  with fails show ?thesis by blast
qed

subsubsection \<open>Suites\<close>

fun step_of :: "suite_call \<Rightarrow> suite_step" where
  "step_of (SuiteStep s r) = s"

lemma emits_expect_steps:
  "emits (expect_steps e steps) (\<lambda>r seg. prefix (map step_of seg) steps \<and> (steps \<noteq> [] \<longrightarrow> seg \<noteq> []) \<and>
     (r = None \<longrightarrow> map step_of seg = steps))"
proof (induction steps)
  case (Cons s steps)
  show ?case
    by (auto intro!: emits_intros emits_mono [OF Cons] split: option.split)
qed simp

lemma expect_steps_ok:
  "(\<And>h s. s \<in> set steps \<Longrightarrow> e h s = None) \<Longrightarrow> fst (run_state (expect_steps e steps) h) = None"
  by (induction steps arbitrary: h) (simp_all add: run_and_then)

text \<open>What a suite leaves behind. Whatever fails, the controller suite ends by stopping its environment, and the webhook suite does
  after the context is cancelled. The webhook suite expects nothing of the webhook: it passes as soon as its set-up and its end do.\<close>

theorem suite_torn_down:
  assumes cancel: "\<And>h. e h CancelContext = None" and specs: "emits specs (\<lambda>r seg. True)"
  shows "(\<exists>hs. map step_of (snd (run_state (run_suite e controller_BeforeSuite controller_AfterSuite specs) [])) = hs @ [StopEnvironment]) \<and>
    (\<exists>hs. map step_of (snd (run_state (run_suite e webhook_BeforeSuite webhook_AfterSuite specs) [])) =
      hs @ [CancelContext, StopEnvironment]) \<and>
    ((\<forall>h s. e h s = None) \<longrightarrow>
      fst (run_state (run_suite e webhook_BeforeSuite webhook_AfterSuite (run_specs webhook_specs)) []) = None)"
proof -
  have torn: "emits (run_suite e before after specs) (\<lambda>r seg. \<exists>s t. seg = s @ t \<and> P t)"
    if after: "emits (expect_steps e after) (\<lambda>r t. P t)" for before after and P :: "suite_call list \<Rightarrow> bool"
  proof -
    have "emits (and_then (expect_steps e before) specs) (\<lambda>r seg. True)"
      by (intro emits_and_then emits_mono [OF emits_expect_steps]) (simp add: specs split: option.split)
    then show ?thesis unfolding run_suite_def
      by (intro emits_bind) (erule emits_mono, blast intro: emits_mono [OF after] emits_return emits_bind)
  qed
  have c: "emits (expect_steps e controller_AfterSuite) (\<lambda>r t. map step_of t = [StopEnvironment])"
    by (auto simp: controller_AfterSuite_def intro!: emits_intros split: option.split)
  have w: "emits (expect_steps e webhook_AfterSuite) (\<lambda>r t. map step_of t = [CancelContext, StopEnvironment])"
    by (auto simp: webhook_AfterSuite_def emits_def run_and_then cancel split: option.split)
  have pass: "fst (run_state (run_suite e webhook_BeforeSuite webhook_AfterSuite (run_specs webhook_specs)) []) = None"
    if ok: "\<forall>h s. e h s = None"
  proof -
    have "fst (run_state (expect_steps e steps) h) = None" for steps h by (rule expect_steps_ok) (use ok in blast)
    then have "run_state (expect_steps e steps) h = (None, snd (run_state (expect_steps e steps) h))" for steps h
      by (metis prod.collapse)
    then show ?thesis
      by (simp add: run_suite_def run_and_then webhook_specs_def split: prod.split option.split) (metis fst_conv option.distinct(1))
  qed
  show ?thesis
    using emitsD [OF torn [OF c], OF prod.collapse [symmetric], of controller_BeforeSuite "[]"]
      emitsD [OF torn [OF w], OF prod.collapse [symmetric], of webhook_BeforeSuite "[]"] pass by auto
qed

end
