(* ===== verification/Spec2Isabelle.thy ===== *)
theory Spec2Isabelle
  imports
    Pod_Operator
    Finalizer_Example
    Finalizer_Protocol
    Deployment_Lifecycle
    Dynamic_Deployment
    Client_Programs
    Cluster_Programs
    Dynamic_Programs
    Informer_Programs
    Delta_Fifo
    Reflector_Programs
    Admission_Webhook
    Webhook_Service
    Calculate_System
    Manager_Setup
    Event_Delivery
    Leader_Election
    Election_Process
    Extender_Service
    Resource_Definition
    Generated_Copies
    Clientset_Access
    Scheme_Registration
    Api_Practices
    Discovery_Report
    Local_Tools
    Test_Programs
begin

text \<open>
  \<^bold>\<open>A verification library for kubernetes-examples.\<close> The repository is a collection of Go programs for the Kubernetes
  API: two operators, three admission webhooks, work-queue controllers, leader election over Redis and over Leases, a
  scheduler extender, a custom resource definition with generated code (defaults, conversions, deep copies, a clientset and
  its fake), many client-go programs (Deployments on four kinds of client, informers, a reflector, DeltaFIFO, discovery),
  and small services and tools. Each theory below models one of them, or one group, from its source; the programs share no
  state, only the conventions of the API server.

  \<^bold>\<open>How programs are modelled.\<close> A struct is a \<open>record\<close> with the fields the code uses, a string constant type a string
  with its constants as definitions. A signed 64 or 32 bit integer is a word, read with \<open>sint\<close>, so that sums, products and
  durations wrap as in Go. A Go map of strings is an association list, or \<open>None\<close> when nil; its order is the order in which
  \<open>range\<close> visits it and stays open. An untyped object is a JSON value. An error is a value of \<open>go_error\<close>; \<open>error + 'a\<close> is
  a result with an error, and \<open>'a outcome\<close> separates a return from a panic (index out of range, nil dereference, failed
  type assertion, division by zero, explicit panics). Code that talks to a server runs in a state monad over the log of its
  calls: a reply may depend on everything that happened, so a theorem about all servers covers failures, delays and other
  clients. Deferred calls run on return and on panic. Goroutines that share a channel or a queue are step relations.

  Libraries (controller-runtime, client-go, the API server, Redis, JSON decoding, HTTP, the file system) are parameters:
  records of functions (\<open>kube_env\<close>, \<open>webhook_env\<close>, \<open>field_env\<close>, \<open>redis\<close>, \<open>codec\<close>, \<open>rest_env\<close>, \<open>rest_client\<close>,
  \<open>fake_client\<close>, \<open>meta_lib\<close>, \<open>discovery_env\<close>, \<open>deploy_env\<close>, \<open>config_env\<close>, \<open>nginx_env\<close>, \<open>fs_env\<close>, \<open>setup_env\<close> and others). What a
  theorem asks of them is a named predicate (\<open>finalizer_laws\<close>, \<open>pod_store\<close>, \<open>prompt_delete\<close>, \<open>range_law\<close>,
  \<open>aggregate_law\<close>, \<open>redis_laws\<close>, \<open>codec_laws\<close>, \<open>meta_law\<close>, \<open>new_aggregate_law\<close>, \<open>retry_law\<close>,
  \<open>occ_server\<close>, \<open>nested_laws\<close>, \<open>clientset_law\<close>, \<open>fifo_law\<close>, \<open>key_law\<close>, \<open>wire_laws\<close>, \<open>lookup_law\<close>,
  \<open>created_law\<close>; the relation \<open>served\<close>) that states documented behaviour, and a server, codec or
  queue in memory shows that it can hold.

  \<^bold>\<open>Shared theories.\<close>

  \<^item> \<open>Go_Prelude\<close>: panics, the monad of logged calls and the calculus \<open>emits\<close> of what a run appends, string maps, string
    functions, 64-bit division. Two interfaces used throughout: the locale \<open>reconciler\<close> (a controller whose every run
    appends calls within a contract; then every history of runs does) and the locale \<open>defaulter\<close> (a function that completes
    an object and leaves complete objects alone; then it settles in one application).
  \<^item> \<open>Kube_Api\<close>: errors, metadata, pods, the calls of a controller and the laws of the server.
  \<^item> \<open>Program_Logic\<close>: triples with a postcondition for the return and one for the panic, with rules for calls, sequences and
    deferred calls. The programs of \<open>Informer_Programs\<close>, \<open>Dynamic_Programs\<close> and \<open>Cluster_Programs\<close> are verified with it.
  \<^item> \<open>Client_Config\<close>: how the client-go programs find their kubeconfig file, over a model of \<open>path.Join\<close> and
    \<open>path.Clean\<close>.
  \<^item> \<open>Unstructured\<close>: JSON objects and the accessors of the package \<open>unstructured\<close> (locale \<open>nested_library\<close>).
  \<^item> \<open>Conflict_Retry\<close>: \<open>RetryOnConflict\<close> and the locale \<open>lifecycle\<close> of the two programs that use it.
  \<^item> \<open>Deep_Copy\<close>: a store of slices, and of the maps, slices and pointers of object metadata, in which sharing is visible, with the
    locales \<open>deep_copier\<close> (what a copy owes) and \<open>item_copier\<close>, which extends it for elements of lists; a sublocale gives the
    copy of a list. The copies of the metadata types belong to the API machinery and are the parameter \<open>meta_lib\<close>.
  \<^item> \<open>Json_Patch\<close>: JSON patches as the webhooks encode them and as a server reads and applies them.

  \<^bold>\<open>Operators.\<close>

  \<^item> \<open>Pod_Operator\<close>: \<open>pod-operator/controllers/podmanager_controller.go\<close> and \<open>api/v1/podmanager_types.go\<close>. The
    whole \<open>Reconcile\<close> with \<open>handleFinalizer\<close>, scaling, status. Shown: the finalizer is removed last (C2), only own pods are
    touched in any history (C3), scaling converges in one run (C4, C5), the status is never written when it starts
    without conditions (C6), a gap in the indices blocks the operator (C7), status and conditions (C8, C9).
  \<^item> \<open>Finalizer_Example\<close>: \<open>finalizer-example/finalizer.go\<close>; deletion waits for the pods and finishes (C10, C11), one pod is
    ensured. The type SimpleApp is not in the repository; its other fields are a type parameter.
  \<^item> \<open>Finalizer_Protocol\<close>: both operators in a cluster that users, nodes and failures change between any two of
    their calls, with reads from a cache. The locale \<open>finalizer_operator\<close> extends \<open>reconciler\<close> by the shape of a run as far as the
    finalizer is concerned; both operators are interpretations. With fresh reads no pod outlives its object: a pod that is still
    there is terminating, or for SimpleApp there is none; with reads that lag a pod can be lost (C1).
  \<^item> \<open>Manager_Setup\<close>: the main functions of both kubebuilder managers and of the webhook server; a manager is started only
    after every step succeeded, and how the webhook server shuts down.

  \<^bold>\<open>Client programs.\<close>

  \<^item> \<open>Deployment_Lifecycle\<close>, \<open>Dynamic_Deployment\<close>: the official examples that create, update under \<open>RetryOnConflict\<close>, list
    and delete a Deployment on the typed and on the dynamic client. No write of another client is lost (C12), and the
    dynamic program does what the typed one does, through the decoding of its objects (C16).
  \<^item> \<open>Client_Programs\<close>: \<open>using-rest-client\<close>, \<open>using-kubernetes-clientset\<close>, \<open>helloworld\<close>, the fake clientset; the programs
    on the REST client and on the clientset do the same up to the serializer, the image, the object that answers are decoded into,
    and the options of a deletion (C36).
  \<^item> \<open>Dynamic_Programs\<close>: \<open>using-dynamic-interface\<close>; the advanced example takes over and deletes a ConfigMap that was there
    before it (C19).
  \<^item> \<open>Cluster_Programs\<close>: counting pods inside and outside the cluster, the scale client, \<open>client-build-method\<close>; when the
    loops stop (C18), and an error of the scale update that is lost.
  \<^item> \<open>Informer_Programs\<close>: \<open>using-informers\<close> and the main functions of the work-queue programs; the programs that make sample
    ConfigMaps touch no others, a run that returns has deleted all it made, and informers are stopped even on a panic (C17).
    The locale \<open>sample_objects\<close> has one
    interpretation for each client.
  \<^item> \<open>Delta_Fifo\<close>: \<open>using-deltafifo\<close>; the walk ends and its output is determined by the contract of the queue. An
    implementation as a list is an interpretation of the locale \<open>delta_queue\<close>.
  \<^item> \<open>Reflector_Programs\<close>: \<open>using-reflector\<close> and \<open>using-controller\<close>; when the polling loops end (C37), why one signal need
    not stop the advanced example (C38), and what its statistics count.
  \<^item> \<open>Discovery_Report\<close>: \<open>using-discovery-client\<close>; what is listed and counted, and how the programs end.
  \<^item> \<open>Workqueue_Controller\<close>: \<open>client-go/workqueue\<close> and the official example. A handler is a program of queue calls; the
    locales \<open>retry_handler\<close> and \<open>prompt_handler\<close> state what it owes the queue, and both handlers are interpretations. Shown
    for every interleaving of workers: at most five requeues in a row (C25), and a worker can always finish, which leaves its own key,
    and no other, unmarked with the requeue count that its handler asks for (C26). A handler that returns without \<open>Done\<close> and a
    step that blocks can be written in the model; neither handler has them.
  \<^item> \<open>Event_Delivery\<close>: the informer's event handlers, the queue and the workers put together, as a step relation over a store that
    changes. No change is lost: one that no lookup has seen has its event waiting, its key queued, or a worker about to look it up,
    and at rest every last lookup came after the last change (C14); from any state of a live process all changes of a key can
    still be seen (C15). The locale \<open>looking_handler\<close> extends \<open>prompt_handler\<close>; the handlers of both programs are interpretations.

  \<^bold>\<open>Webhooks, election, scheduler.\<close>

  \<^item> \<open>Admission_Webhook\<close>, \<open>Baremetal_Webhook\<close>: \<open>webhook/using-byhand\<close>. The decision of \<open>validate\<close>, the effect of \<open>mutate\<close>
    on an object and on a later validation, that an object is mutated once, the HTTP handler on every branch (C20 to C22),
    and the bare-metal variant.
  \<^item> \<open>Webhook_Service\<close>: their routes and main functions, and an API server that calls \<open>/mutate\<close> and then \<open>/validate\<close> over HTTP. What
    becomes of an object is the specification \<open>admission_spec\<close> (C13): an object that has the required labels is refused. Here too
    the aggregated API server of \<open>kubernetes-plugins\<close>, which uses the same model of routes.
  \<^item> \<open>Calculator\<close>: \<open>webhook/using-kubebuilder\<close>; the result written by the controller with its wrap-around, and what
    admission by the webhook means for one run (C23). \<open>Calculate_System\<close>: webhook, controller, its cache and queue, and users as one
    system; no division by zero is stored, an object at rest carries its exact result, and every object with a known action can come
    to rest (C24).
  \<^item> \<open>Leader_Election\<close>: \<open>leader-election\<close>. The Redis lock with its Lua script, with lost requests and replies; the lock never
    passes directly from one elector to another (C27), what it stores is what it gives back with times cut to seconds, as their
    JSON form does (C28), lease lengths, options.
  \<^item> \<open>Election_Process\<close>: the processes around the locks; the work of a Lease program goes on after a signal until the election
    library reports the loss (\<open>lease_work_outlives_cancel\<close>).
  \<^item> \<open>Scheduler_Extender\<close>: \<open>k8s-scheduler-extender-example\<close>; the filter handler and how the
    routes answer bad input. \<open>Extender_Service\<close>: its main function and what a scheduler gets back over the routes it registers (C29).

  \<^bold>\<open>API objects and tools.\<close>

  \<^item> \<open>Resource_Definition\<close>, \<open>Generated_Copies\<close>: \<open>resourcedefinition/apps\<close> and the generated code of the operators:
    defaulting and conversion between the versioned and the internal XXX (C30), a converted list is an alias and a deep copy is
    not (C31), and every generated copy is separate from its original, its metadata included (C32).
  \<^item> \<open>Clientset\<close>: \<open>resourcedefinition/generated/clientset\<close>; the fake client asks its reactors for what the typed one asks the
    server for, and what of the options is lost on the way (C33); the configuration of a client. \<open>Clientset_Access\<close>: the constructors and
    accessors; what a clientset sends goes where its configuration says, and where nil pointers surface (C35).
  \<^item> \<open>Scheme_Registration\<close>: the types, defaults and conversions that every program registers with its scheme are well typed (C34).
    The scheme of the API machinery is the locale \<open>scheme_library\<close>; a scheme in memory is its interpretation.
  \<^item> \<open>Api_Practices\<close>: \<open>apiversioncompatibility\<close>, \<open>setdefault\<close>, \<open>featuregates\<close>, \<open>helper\<close>.
  \<^item> \<open>Local_Tools\<close>: the directory helper of \<open>template\<close>, the credential plugin of \<open>kubernetes-plugins\<close>, and the helpers of the
    end-to-end tests.

  \<^bold>\<open>Tests.\<close>

  \<^item> \<open>Test_Programs\<close>: the tests as programs. The fake-client test waits for the watch; it does not hang while watches succeed and last,
    hangs if the tracker refuses the watch, and without the wait it can fail for good (C39); the generated controller test cannot pass (C40); the end-to-end test and the suites clean up however they end
    (\<open>e2e_cleans_up\<close>, \<open>suite_torn_down\<close>).

  \<^bold>\<open>Bounds and loops.\<close> Loops over slices are recursive on the list, with the accumulator of the code. The loops that may run
  for ever are of two kinds: the polling loops and the draining of the queue are partial functions into an option, where
  \<open>None\<close> is a loop that never ends, and when they end is proved (\<open>deltafifo_output\<close>, C37); the endless loops of the counting programs are
  modelled by any number of rounds, and the theorem about them holds for every number. Replica and pod counts of the operators are
  bounded by the range of \<open>int32\<close> where a theorem says so, since the code converts the length of a list to \<open>int32\<close>. Both
  retry policies allow five requeues, as the code does; the four steps within which a worker finishes are the longest
  path through its handler. \<open>Eventually\<close> of the end-to-end test tries at most a given number of times, and its theorem holds for
  every number. Lease lengths are exact up to the number of seconds whose nanoseconds fit 64 bits.

  \<^bold>\<open>Not modelled.\<close> Progress messages and the alignment of tables; the test runner, beyond what it does after an
  expectation that is not met; the bytes of the certificate and key embedded in
  the aggregated API server; percent escapes in request paths; the machinery of informers and reflectors, whose handlers and stores
  are what the programs see of it (\<open>Event_Delivery\<close> assumes of an informer that it delivers one event for every change, in order).
  The election loop of client-go is not modelled: how long a renewal may take and when a leader gives up is decided by the library.
  The theorems about the Redis lock hold for every sequence of calls on it, and the one about the Lease programs for every sequence
  of calls that the library makes. What the reactors of a fake client do with an action is the library's too.

  Every program of the repository has its definitions; what is left of the source are imports, licence texts, code-generator marks
  and embedded key material.
\<close>

end
